(* ===== verification/Prelude.thy ===== *)
theory Prelude
  imports Complex_Main "HOL-Library.Word" "HOL-Library.AList" "HOL-Library.Multiset"
begin

text \<open>
  Shared vocabulary of the model of \<^verbatim>\<open>src/main.py\<close>: the types that name the
  program's data (bytes, file-system paths), the Python exceptions the program can
  raise (one constructor each, so that every \<^verbatim>\<open>raise\<close> of the code or of a library it
  calls is a value \<open>Inl e\<close>), the conversion of a failing call into the
  result a worker thread leaves behind, and the generic lemmas on lists, options and
  association lists that the component theories share.
\<close>

named_theorems model_simps "evaluation rules of the model's operations"

section \<open>Data\<close>

type_synonym byte = "8 word"
type_synonym bytes = "byte list"

text \<open>
  A file-system path is the list of its components from the root: the string
  \<^verbatim>\<open>/home/u/images\<close> is \<open>[''home'', ''u'', ''images'']\<close>, the root \<^verbatim>\<open>/\<close> is \<open>[]\<close>.
  \<^verbatim>\<open>os.path.join(d, n)\<close> with a name \<open>n\<close> that holds no \<^verbatim>\<open>/\<close> is \<open>d @ [n]\<close>.
\<close>

type_synonym path = "string list"

text \<open>The exceptions of the program, of \<^verbatim>\<open>os\<close>/\<^verbatim>\<open>pathlib\<close>, of \<^verbatim>\<open>requests\<close> and of PIL.\<close>

datatype py_error =
    FileNotFoundError
  | FileExistsError
  | NotADirectoryError
  | IsADirectoryError
  | ConnectionError
  | UnidentifiedImageError
  | JpegEncodeError
  | ZeroDivisionError
  | IndexError
  | ValueError

section \<open>Python indexing\<close>

text \<open>\<^verbatim>\<open>xs[i]\<close>: a negative index counts from the end; out of range raises IndexError.\<close>

definition py_getitem :: "'a list \<Rightarrow> int \<Rightarrow> py_error + 'a" where
  "py_getitem xs i =
     (let k = (if 0 \<le> i then i else i + int (length xs))
      in if k < 0 \<or> int (length xs) \<le> k then Inl IndexError else Inr (xs ! nat k))"

lemma py_getitem_last [simp]: "xs \<noteq> [] \<Longrightarrow> py_getitem xs (-1) = Inr (last xs)"
  by (cases xs rule: rev_cases) (auto simp: py_getitem_def nth_append)

lemma py_getitem_first [simp]: "xs \<noteq> [] \<Longrightarrow> py_getitem xs 0 = Inr (hd xs)"
  by (simp add: py_getitem_def hd_conv_nth)

lemma py_getitem_Nil [simp]: "py_getitem [] i = Inl IndexError"
  by (simp add: py_getitem_def)

section \<open>Generic lemmas\<close>

lemma map_of_update_same [simp]: "map_of (AList.update k v al) k = Some v"
  by (simp add: update_conv')

lemma map_of_update_other [simp]: "k' \<noteq> k \<Longrightarrow> map_of (AList.update k v al) k' = map_of al k'"
  by (simp add: update_conv')

lemma keys_update [simp]: "fst ` set (AList.update k v al) = insert k (fst ` set al)"
  by (simp add: dom_update)

end
