(* ===== verification/PyStr.thy ===== *)
theory PyStr
  imports Prelude
begin

text \<open>
  Python's \<^verbatim>\<open>str.split(sep)\<close> for a one-character separator, the form
  \<^verbatim>\<open>download_image\<close> uses twice (\<^verbatim>\<open>split("/")\<close>, \<^verbatim>\<open>split("?")\<close>), and
  \<^verbatim>\<open>sep.join\<close>, its inverse. With an explicit separator Python never drops
  empty fields: \<^verbatim>\<open>"".split("/") == [""]\<close> and \<^verbatim>\<open>"/a/".split("/") == ["", "a", ""]\<close>.
  The lemmas: the result is never empty (so \<^verbatim>\<open>[0]\<close> and \<^verbatim>\<open>[-1]\<close> never raise),
  it has one more field than the string has separators, no field holds the separator,
  join and split are inverse, and the first and last fields are the prefix before
  the first separator and the suffix after the last one.
\<close>

fun py_split :: "char \<Rightarrow> string \<Rightarrow> string list" where
  "py_split c [] = [[]]"
| "py_split c (x # xs) =
     (if x = c then [] # py_split c xs
      else (case py_split c xs of [] \<Rightarrow> [[x]] | w # ws \<Rightarrow> (x # w) # ws))"

fun py_join :: "char \<Rightarrow> string list \<Rightarrow> string" where
  "py_join c [] = []"
| "py_join c [w] = w"
| "py_join c (w # v # ws) = w @ c # py_join c (v # ws)"

section \<open>Shape of the result\<close>

lemma py_split_not_Nil [simp]: "py_split c s \<noteq> []"
  by (induction s) (auto split: list.split)

lemma py_split_Cons_eq:
  "py_split c (x # xs) =
     (if x = c then [] # py_split c xs
      else (x # hd (py_split c xs)) # tl (py_split c xs))"
  by (cases "py_split c xs") auto

declare py_split.simps(2) [simp del]

lemma py_split_Cons_other:
  "x \<noteq> c \<Longrightarrow> py_split c (x # xs) = (x # hd (py_split c xs)) # tl (py_split c xs)"
  by (simp add: py_split_Cons_eq)

lemma py_split_Cons_sep: "py_split c (c # xs) = [] # py_split c xs"
  by (simp add: py_split_Cons_eq)

lemma length_py_split: "length (py_split c s) = Suc (count_list s c)"
  by (induction s) (auto simp: py_split_Cons_eq)

lemma py_split_sep_free: "w \<in> set (py_split c s) \<Longrightarrow> c \<notin> set w"
proof (induction s arbitrary: w)
  case Nil
  then show ?case by simp
next
  case (Cons x xs)
  show ?case
  proof (cases "x = c")
    case True
    with Cons show ?thesis by (auto simp: py_split_Cons_sep)
  next
    case False
    have "hd (py_split c xs) \<in> set (py_split c xs)" by simp
    with Cons.IH have "c \<notin> set (hd (py_split c xs))" .
    moreover have "w' \<in> set (tl (py_split c xs)) \<Longrightarrow> c \<notin> set w'" for w'
      using Cons.IH by (cases "py_split c xs") auto
    ultimately show ?thesis
      using Cons.prems False by (auto simp: py_split_Cons_other)
  qed
qed

lemma py_split_no_sep: "c \<notin> set s \<Longrightarrow> py_split c s = [s]"
  by (induction s) (auto simp: py_split_Cons_other)

lemma py_split_single_iff: "(length (py_split c s) = 1) = (c \<notin> set s)"
  by (simp add: length_py_split count_list_0_iff)

section \<open>Round trips\<close>

lemma py_join_Cons_hd: "py_join c ((x # w) # ws) = x # py_join c (w # ws)"
  by (cases ws) auto

lemma py_join_Nil_hd: "ws \<noteq> [] \<Longrightarrow> py_join c ([] # ws) = c # py_join c ws"
  by (cases ws) auto

lemma py_split_append_free:
  "c \<notin> set u \<Longrightarrow> py_split c (u @ v) = (u @ hd (py_split c v)) # tl (py_split c v)"
  by (induction u) (auto simp: py_split_Cons_other)

text \<open>Joining the fields of a split with the separator gives back the string.\<close>

lemma py_join_split: "py_join c (py_split c s) = s"
proof (induction s)
  case Nil
  then show ?case by simp
next
  case (Cons x xs)
  have L: "hd (py_split c xs) # tl (py_split c xs) = py_split c xs" by simp
  show ?case
  proof (cases "x = c")
    case True
    with Cons.IH show ?thesis by (simp add: py_split_Cons_sep py_join_Nil_hd)
  next
    case False
    with Cons.IH show ?thesis by (simp add: py_split_Cons_other py_join_Cons_hd L)
  qed
qed

text \<open>Splitting a join of separator-free fields gives back the fields.\<close>

lemma py_split_join:
  "ws \<noteq> [] \<Longrightarrow> \<forall>w\<in>set ws. c \<notin> set w \<Longrightarrow> py_split c (py_join c ws) = ws"
proof (induction c ws rule: py_join.induct)
  case (1 c)
  then show ?case by simp
next
  case (2 c w)
  then show ?case by (simp add: py_split_no_sep)
next
  case (3 c w v ws)
  then show ?case by (simp add: py_split_append_free py_split_Cons_sep)
qed

section \<open>First and last field\<close>

lemma hd_py_split: "hd (py_split c s) = takeWhile (\<lambda>x. x \<noteq> c) s"
  by (induction s) (auto simp: py_split_Cons_eq)

lemma last_py_split: "last (py_split c s) = rev (takeWhile (\<lambda>x. x \<noteq> c) (rev s))"
proof (induction s)
  case Nil
  then show ?case by simp
next
  case (Cons x xs)
  show ?case
  proof (cases "c \<in> set xs")
    case True
    then have "length (py_split c xs) \<noteq> 1" by (simp add: length_py_split count_list_0_iff)
    then have "tl (py_split c xs) \<noteq> []"
      by (cases "py_split c xs") auto
    moreover have "takeWhile (\<lambda>y. y \<noteq> c) (rev xs @ [x]) = takeWhile (\<lambda>y. y \<noteq> c) (rev xs)"
      using True by (auto intro: takeWhile_append1)
    ultimately show ?thesis
      using Cons.IH
      by (cases "x = c") (auto simp: py_split_Cons_eq last_ConsR last_tl)
  next
    case False
    show ?thesis
    proof (cases "x = c")
      case True
      have "takeWhile (\<lambda>y. y \<noteq> c) (rev xs @ [c]) = rev xs"
        using False by (subst takeWhile_append2) auto
      with True False show ?thesis
        by (simp add: py_split_Cons_sep py_split_no_sep)
    next
      case other: False
      have "takeWhile (\<lambda>y. y \<noteq> c) (rev xs @ [x]) = rev xs @ [x]"
        using False other by (auto simp: takeWhile_eq_all_conv)
      with other show ?thesis
        by (simp add: py_split_no_sep False del: takeWhile_eq_all_conv)
    qed
  qed
qed


end
