(* ===== verification/FileSystem.thy ===== *)
theory FileSystem
  imports Prelude "HOL-Library.Sublist"
begin

text \<open>
  The part of the operating system the program touches: a tree of directories and
  regular files, the kernel's resolution of a path's parent, \<^verbatim>\<open>os.mkdir\<close>,
  \<^verbatim>\<open>pathlib.Path.mkdir(parents, exist_ok)\<close> (called by \<^verbatim>\<open>create_folder\<close>),
  \<^verbatim>\<open>open(p, "wb").write(b)\<close> (\<^verbatim>\<open>download_image\<close>, PIL's \<^verbatim>\<open>save\<close>) and
  \<^verbatim>\<open>open(p, "rb").read()\<close> (PIL's \<^verbatim>\<open>Image.open\<close>).
  The store keeps its directories and its files as lists, in creation order: that
  order is the order in which a directory listing returns them. Its abstraction
  \<open>fs_abs\<close> forgets the order (a set of directories, a map from paths to contents);
  the abstract operations \<open>a_mkdir\<close>, \<open>a_write\<close> say what POSIX promises, and the
  refinement lemmas show that the list operations implement them on well-formed stores.
\<close>

section \<open>State\<close>

record fs =
  fs_dirs :: "path list"
  fs_files :: "(path \<times> bytes) list"

definition is_dir :: "fs \<Rightarrow> path \<Rightarrow> bool" where
  "is_dir fs p \<longleftrightarrow> p \<in> set (fs_dirs fs)"

definition is_file :: "fs \<Rightarrow> path \<Rightarrow> bool" where
  "is_file fs p \<longleftrightarrow> map_of (fs_files fs) p \<noteq> None"

text \<open>
  Well-formedness: the root is a directory, no entry is listed twice, every entry but
  the root sits in a directory, and no path is both a directory and a file.
\<close>

definition fs_wf :: "fs \<Rightarrow> bool" where
  "fs_wf fs \<longleftrightarrow>
     [] \<in> set (fs_dirs fs) \<and> distinct (fs_dirs fs) \<and> distinct (map fst (fs_files fs)) \<and>
     (\<forall>d \<in> set (fs_dirs fs). d \<noteq> [] \<longrightarrow> butlast d \<in> set (fs_dirs fs)) \<and>
     (\<forall>p \<in> set (map fst (fs_files fs)). p \<noteq> [] \<and> butlast p \<in> set (fs_dirs fs)) \<and>
     (\<forall>d \<in> set (fs_dirs fs). d \<notin> set (map fst (fs_files fs)))"

section \<open>System calls\<close>

text \<open>
  Path resolution walks the components of the parent from the root: the first
  component that is not a directory makes the call fail, with ENOTDIR when it is a
  file and ENOENT when it does not exist.
\<close>

fun walk_dirs :: "fs \<Rightarrow> path \<Rightarrow> path \<Rightarrow> py_error option" where
  "walk_dirs fs d [] = None"
| "walk_dirs fs d (n # ns) =
     (if is_dir fs (d @ [n]) then walk_dirs fs (d @ [n]) ns
      else if is_file fs (d @ [n]) then Some NotADirectoryError
      else Some FileNotFoundError)"

definition resolve_parent :: "fs \<Rightarrow> path \<Rightarrow> py_error option" where
  "resolve_parent fs p = walk_dirs fs [] (butlast p)"

text \<open>\<^verbatim>\<open>os.mkdir(p)\<close>: EEXIST when anything is at \<open>p\<close> (the root included).\<close>

definition os_mkdir :: "path \<Rightarrow> fs \<Rightarrow> py_error + fs" where
  "os_mkdir p fs =
     (case resolve_parent fs p of
        Some e \<Rightarrow> Inl e
      | None \<Rightarrow>
          if is_dir fs p \<or> is_file fs p then Inl FileExistsError
          else Inr (fs\<lparr>fs_dirs := fs_dirs fs @ [p]\<rparr>))"

text \<open>
  \<^verbatim>\<open>pathlib.Path.mkdir(parents, exist_ok)\<close>:
  \<^verbatim>\<open>
    try: os.mkdir(self)
    except FileNotFoundError:
        if not parents or self.parent == self: raise
        self.parent.mkdir(parents=True, exist_ok=True)
        self.mkdir(parents=False, exist_ok=exist_ok)
    except OSError:
        if not exist_ok or not self.is_dir(): raise
  \<close>
  \<open>self.parent == self\<close> holds of the root only. The recursion goes up the path,
  then retries once without \<open>parents\<close>: the measure counts both.
\<close>

function path_mkdir :: "bool \<Rightarrow> bool \<Rightarrow> path \<Rightarrow> fs \<Rightarrow> py_error + fs" where
  "path_mkdir parents exist_ok p fs =
     (case os_mkdir p fs of
        Inr fs' \<Rightarrow> Inr fs'
      | Inl e \<Rightarrow>
          if e = FileNotFoundError then
            (if \<not> parents \<or> p = [] then Inl FileNotFoundError
             else (case path_mkdir True True (butlast p) fs of
                     Inl e' \<Rightarrow> Inl e'
                   | Inr fs' \<Rightarrow> path_mkdir False exist_ok p fs'))
          else if \<not> exist_ok \<or> \<not> is_dir fs p then Inl e
          else Inr fs)"
  by pat_completeness auto
termination
  by (relation "measure (\<lambda>(parents, exist_ok, p, fs). 2 * length p + (if parents then 1 else 0))")
     auto

declare path_mkdir.simps [simp del]

text \<open>\<^verbatim>\<open>open(p, "wb")\<close> followed by \<^verbatim>\<open>write(content)\<close>: creates or truncates and fills.\<close>

definition write_file :: "path \<Rightarrow> bytes \<Rightarrow> fs \<Rightarrow> py_error + fs" where
  "write_file p content fs =
     (case resolve_parent fs p of
        Some e \<Rightarrow> Inl e
      | None \<Rightarrow>
          if is_dir fs p then Inl IsADirectoryError
          else Inr (fs\<lparr>fs_files := AList.update p content (fs_files fs)\<rparr>))"

text \<open>\<^verbatim>\<open>open(p, "rb").read()\<close>.\<close>

definition read_file :: "path \<Rightarrow> fs \<Rightarrow> py_error + bytes" where
  "read_file p fs =
     (case resolve_parent fs p of
        Some e \<Rightarrow> Inl e
      | None \<Rightarrow>
          if is_dir fs p then Inl IsADirectoryError
          else (case map_of (fs_files fs) p of
                  None \<Rightarrow> Inl FileNotFoundError
                | Some c \<Rightarrow> Inr c))"

text \<open>\<^verbatim>\<open>os.remove(p)\<close> of a file the caller has just created.\<close>

definition remove_file :: "path \<Rightarrow> fs \<Rightarrow> fs" where
  "remove_file p fs = fs\<lparr>fs_files := AList.delete p (fs_files fs)\<rparr>"

text \<open>No component on the way to \<open>p\<close>, nor \<open>p\<close> itself, is a regular file.\<close>

definition no_file_on_path :: "fs \<Rightarrow> path \<Rightarrow> bool" where
  "no_file_on_path fs p \<longleftrightarrow> (\<forall>q \<in> set (prefixes p). \<not> is_file fs q)"

section \<open>Abstract store\<close>

text \<open>
  What a program can observe of a store: the set of directories and, for each path,
  the contents of the file there. Listing order is forgotten.
\<close>

record afs =
  a_dirs :: "path set"
  a_files :: "path \<rightharpoonup> bytes"

definition fs_abs :: "fs \<Rightarrow> afs" where
  "fs_abs fs = \<lparr>a_dirs = set (fs_dirs fs), a_files = map_of (fs_files fs)\<rparr>"

definition res_abs :: "py_error + fs \<Rightarrow> afs option" where
  "res_abs r = (case r of Inl _ \<Rightarrow> None | Inr fs \<Rightarrow> Some (fs_abs fs))"

text \<open>POSIX's promises: a write needs its parent directory and no directory in place.\<close>

definition a_write :: "path \<Rightarrow> bytes \<Rightarrow> afs \<Rightarrow> afs option" where
  "a_write p c A =
     (if butlast p \<in> a_dirs A \<and> p \<notin> a_dirs A then Some (A\<lparr>a_files := (a_files A)(p \<mapsto> c)\<rparr>)
      else None)"

text \<open>\<^verbatim>\<open>mkdir -p\<close>: every prefix becomes a directory unless one of them is a file.\<close>

definition a_makedirs :: "path \<Rightarrow> afs \<Rightarrow> afs option" where
  "a_makedirs p A =
     (if \<forall>q \<in> set (prefixes p). q \<notin> dom (a_files A)
      then Some (A\<lparr>a_dirs := a_dirs A \<union> set (prefixes p)\<rparr>)
      else None)"

text \<open>The effect of a write on the observable state: a failed write changes nothing.\<close>

definition a_write_keep :: "path \<Rightarrow> bytes \<Rightarrow> afs \<Rightarrow> afs" where
  "a_write_keep p c A = (case a_write p c A of None \<Rightarrow> A | Some A' \<Rightarrow> A')"

section \<open>Path resolution on well-formed stores\<close>

lemma fs_wfD:
  assumes "fs_wf fs"
  shows "is_dir fs []"
    and "is_dir fs d \<Longrightarrow> d \<noteq> [] \<Longrightarrow> is_dir fs (butlast d)"
    and "is_file fs p \<Longrightarrow> p \<noteq> [] \<and> is_dir fs (butlast p)"
    and "is_dir fs d \<Longrightarrow> \<not> is_file fs d"
  using assms
  by (auto simp: fs_wf_def is_dir_def is_file_def map_of_eq_None_iff image_iff)

lemma is_dir_append_prefix: "fs_wf fs \<Longrightarrow> is_dir fs (p @ q) \<Longrightarrow> is_dir fs p"
proof (induction q rule: rev_induct)
  case Nil
  then show ?case by simp
next
  case (snoc m q)
  then have "is_dir fs (butlast (p @ q @ [m]))"
    by (intro fs_wfD(2)) auto
  then have "is_dir fs (p @ q)" by (simp add: butlast_append)
  with snoc.IH snoc.prems(1) show ?case by blast
qed

lemma is_dir_prefix: "fs_wf fs \<Longrightarrow> is_dir fs p \<Longrightarrow> prefix q p \<Longrightarrow> is_dir fs q"
  by (auto simp: prefix_def intro: is_dir_append_prefix)

lemma walk_dirs_None_iff:
  "fs_wf fs \<Longrightarrow> (walk_dirs fs d ns = None) = (ns = [] \<or> is_dir fs (d @ ns))"
proof (induction ns arbitrary: d)
  case Nil
  then show ?case by simp
next
  case (Cons n ns)
  show ?case
  proof (cases "is_dir fs (d @ [n])")
    case True
    with Cons show ?thesis by auto
  next
    case False
    then have "\<not> is_dir fs (d @ n # ns)"
      using is_dir_append_prefix [OF Cons.prems, of "d @ [n]" ns] by auto
    with False show ?thesis by simp
  qed
qed

lemma walk_dirs_Some:
  "walk_dirs fs d ns = Some e \<Longrightarrow>
     e = FileNotFoundError \<or> (e = NotADirectoryError \<and> (\<exists>q. prefix q ns \<and> is_file fs (d @ q)))"
proof (induction ns arbitrary: d)
  case Nil
  then show ?case by simp
next
  case (Cons n ns)
  show ?case
  proof (cases "is_dir fs (d @ [n])")
    case True
    with Cons.prems Cons.IH [of "d @ [n]"] show ?thesis
      by (auto intro: exI [of _ "n # q" for q])
  next
    case False
    with Cons.prems show ?thesis
      by (auto split: if_splits intro: exI [of _ "[n]"])
  qed
qed

lemma resolve_parent_None:
  "fs_wf fs \<Longrightarrow> (resolve_parent fs p = None) = is_dir fs (butlast p)"
  by (auto simp: resolve_parent_def walk_dirs_None_iff dest: fs_wfD(1))

lemma resolve_parent_dir:
  "fs_wf fs \<Longrightarrow> is_dir fs (butlast p) \<Longrightarrow> resolve_parent fs p = None"
  by (simp add: resolve_parent_None)

lemma resolve_parent_NotADirectory:
  "resolve_parent fs p = Some e \<Longrightarrow> e \<noteq> FileNotFoundError \<Longrightarrow>
     e = NotADirectoryError \<and> (\<exists>q. prefix q p \<and> is_file fs q)"
  unfolding resolve_parent_def
  by (drule walk_dirs_Some) (auto intro: prefix_order.trans prefixeq_butlast)

section \<open>Directory creation\<close>

lemma is_file_files_eq: "fs_files fs' = fs_files fs \<Longrightarrow> is_file fs' p = is_file fs p"
  by (simp add: is_file_def)

lemma fs_wf_add_dir:
  assumes "fs_wf fs" "p \<noteq> []" "is_dir fs (butlast p)" "\<not> is_dir fs p" "\<not> is_file fs p"
  shows "fs_wf (fs\<lparr>fs_dirs := fs_dirs fs @ [p]\<rparr>)"
proof -
  have "p \<notin> set (map fst (fs_files fs))"
    using assms(5) by (simp add: is_file_def map_of_eq_None_iff)
  with assms show ?thesis
    unfolding fs_wf_def is_dir_def by auto
qed

lemma os_mkdir_Inr:
  assumes wf: "fs_wf fs" and ok: "os_mkdir p fs = Inr fs'"
  shows "fs' = fs\<lparr>fs_dirs := fs_dirs fs @ [p]\<rparr> \<and> fs_wf fs' \<and> is_dir fs' p"
proof -
  from ok have r: "resolve_parent fs p = None" and n: "\<not> is_dir fs p" "\<not> is_file fs p"
    and eq: "fs' = fs\<lparr>fs_dirs := fs_dirs fs @ [p]\<rparr>"
    by (auto simp: os_mkdir_def split: option.splits if_splits)
  from r wf have "is_dir fs (butlast p)" by (simp add: resolve_parent_None)
  moreover have "p \<noteq> []" using n(1) fs_wfD(1) [OF wf] by auto
  ultimately have "fs_wf fs'"
    using fs_wf_add_dir [OF wf _ _ n] eq by simp
  with eq show ?thesis by (simp add: is_dir_def)
qed

lemma path_mkdir_Inr:
  "path_mkdir parents eo p fs = Inr fs' \<Longrightarrow> fs_wf fs \<Longrightarrow>
     fs_wf fs' \<and> is_dir fs' p \<and> fs_files fs' = fs_files fs \<and> set (fs_dirs fs) \<subseteq> set (fs_dirs fs') \<and>
     set (fs_dirs fs') \<subseteq> set (fs_dirs fs) \<union> set (prefixes p)"
proof (induction parents eo p fs arbitrary: fs' rule: path_mkdir.induct)
  case (1 parents exist_ok p fs)
  note eq = path_mkdir.simps [of parents exist_ok p fs]
  show ?case
  proof (cases "os_mkdir p fs")
    case (Inr fs1)
    with "1.prems" eq have "fs' = fs1" by simp
    with os_mkdir_Inr [OF "1.prems"(2) Inr] show ?thesis by auto
  next
    case (Inl e)
    show ?thesis
    proof (cases "e = FileNotFoundError \<and> parents \<and> p \<noteq> []")
      case True
      with "1.prems"(1) Inl eq obtain fs1 where
        fs1: "path_mkdir True True (butlast p) fs = Inr fs1" and
        rest: "path_mkdir False exist_ok p fs1 = Inr fs'"
        by (auto split: sum.splits)
      from True have c1: "e = FileNotFoundError" and c2: "\<not> (\<not> parents \<or> p = [])" by auto
      from "1.IH"(1) [OF Inl c1 c2 fs1 "1.prems"(2)] have
        wf1: "fs_wf fs1" and f1: "fs_files fs1 = fs_files fs" and
        l1: "set (fs_dirs fs) \<subseteq> set (fs_dirs fs1)" and
        u1: "set (fs_dirs fs1) \<subseteq> set (fs_dirs fs) \<union> set (prefixes (butlast p))"
        by simp_all
      from "1.IH"(2) [OF Inl c1 c2 fs1 rest wf1] have
        wf2: "fs_wf fs'" and d2: "is_dir fs' p" and f2: "fs_files fs' = fs_files fs1" and
        l2: "set (fs_dirs fs1) \<subseteq> set (fs_dirs fs')" and
        u2: "set (fs_dirs fs') \<subseteq> set (fs_dirs fs1) \<union> set (prefixes p)"
        by simp_all
      have pb: "set (prefixes (butlast p)) \<subseteq> set (prefixes p)"
        by (auto intro: prefix_order.trans [OF _ prefixeq_butlast])
      from u2 u1 pb have "set (fs_dirs fs') \<subseteq> set (fs_dirs fs) \<union> set (prefixes p)"
        by blast
      with wf2 d2 f2 f1 l1 l2 show ?thesis by simp
    next
      case False
      with "1.prems"(1) Inl eq have "fs' = fs" and "is_dir fs p"
        by (auto split: if_splits)
      with "1.prems"(2) show ?thesis by simp
    qed
  qed
qed

lemma path_mkdir_dir_parent:
  "fs_wf fs \<Longrightarrow> is_dir fs (butlast p) \<Longrightarrow> \<not> is_file fs p \<Longrightarrow>
     \<exists>fs'. path_mkdir parents True p fs = Inr fs'"
  by (auto simp: path_mkdir.simps [of parents True p fs] os_mkdir_def resolve_parent_dir)

lemma path_mkdir_parents_succeeds:
  "fs_wf fs \<Longrightarrow> no_file_on_path fs p \<Longrightarrow> \<exists>fs'. path_mkdir True True p fs = Inr fs'"
proof (induction p rule: rev_induct)
  case Nil
  then show ?case
    by (simp add: path_mkdir.simps [of True True "[]" fs] os_mkdir_def resolve_parent_def fs_wfD(1))
next
  case (snoc n q)
  then have nf: "no_file_on_path fs q" and nfp: "\<not> is_file fs (q @ [n])"
    by (auto simp: no_file_on_path_def)
  show ?case
  proof (cases "is_dir fs q")
    case True
    with snoc.prems(1) nfp show ?thesis by (intro path_mkdir_dir_parent) auto
  next
    case False
    with snoc.prems(1) obtain e where r: "resolve_parent fs (q @ [n]) = Some e"
      by (cases "resolve_parent fs (q @ [n])") (auto simp: resolve_parent_None)
    have "e = FileNotFoundError"
    proof (rule ccontr)
      assume "e \<noteq> FileNotFoundError"
      with r obtain q' where "prefix q' (q @ [n])" and "is_file fs q'"
        by (blast dest: resolve_parent_NotADirectory)
      with snoc.prems(2) show False by (auto simp: no_file_on_path_def)
    qed
    with r have mk: "os_mkdir (q @ [n]) fs = Inl FileNotFoundError"
      by (simp add: os_mkdir_def)
    from snoc.IH [OF snoc.prems(1) nf] obtain fs1 where
      fs1: "path_mkdir True True q fs = Inr fs1" by blast
    from path_mkdir_Inr [OF fs1 snoc.prems(1)] have
      wf1: "fs_wf fs1" and d1: "is_dir fs1 q" and f1: "fs_files fs1 = fs_files fs" by auto
    from f1 nfp have "\<not> is_file fs1 (q @ [n])" by (simp add: is_file_def)
    with wf1 d1 obtain fs' where "path_mkdir False True (q @ [n]) fs1 = Inr fs'"
      using path_mkdir_dir_parent [of fs1 "q @ [n]" False] by auto
    with mk fs1 show ?thesis
      by (auto simp: path_mkdir.simps [of True True "q @ [n]" fs])
  qed
qed

lemma path_mkdir_Inr_no_file:
  "path_mkdir parents eo p fs = Inr fs' \<Longrightarrow> fs_wf fs \<Longrightarrow> no_file_on_path fs p"
proof -
  assume ok: "path_mkdir parents eo p fs = Inr fs'" and wf: "fs_wf fs"
  from path_mkdir_Inr [OF ok wf] have
    wf': "fs_wf fs'" and d: "is_dir fs' p" and f: "fs_files fs' = fs_files fs" by auto
  have "\<not> is_file fs q" if "prefix q p" for q
  proof -
    from is_dir_prefix [OF wf' d that] have "is_dir fs' q" .
    with wf' have "\<not> is_file fs' q" by (rule fs_wfD(4))
    with f show ?thesis by (simp add: is_file_def)
  qed
  then show ?thesis by (simp add: no_file_on_path_def)
qed

section \<open>Writing and reading files\<close>

lemma write_file_eq:
  "fs_wf fs \<Longrightarrow> write_file p c fs =
     (if \<not> is_dir fs (butlast p) then Inl (the (resolve_parent fs p))
      else if is_dir fs p then Inl IsADirectoryError
      else Inr (fs\<lparr>fs_files := AList.update p c (fs_files fs)\<rparr>))"
proof (cases "is_dir fs (butlast p)")
  case True
  moreover assume "fs_wf fs"
  ultimately show ?thesis by (simp add: write_file_def resolve_parent_dir)
next
  case False
  moreover assume wf: "fs_wf fs"
  ultimately obtain e where "resolve_parent fs p = Some e"
    by (cases "resolve_parent fs p") (auto simp: resolve_parent_None)
  with False show ?thesis by (simp add: write_file_def)
qed

lemma fs_wf_write:
  assumes "fs_wf fs" "is_dir fs (butlast p)" "\<not> is_dir fs p"
  shows "fs_wf (fs\<lparr>fs_files := AList.update p c (fs_files fs)\<rparr>)"
proof -
  have "p \<noteq> []" using assms(1,3) fs_wfD(1) by auto
  with assms show ?thesis
    unfolding fs_wf_def is_dir_def
    by (auto simp: distinct_update dom_update image_iff)
qed

lemma write_file_Inr:
  "fs_wf fs \<Longrightarrow> write_file p c fs = Inr fs' \<Longrightarrow>
     fs_wf fs' \<and> fs_dirs fs' = fs_dirs fs \<and> map_of (fs_files fs') = (map_of (fs_files fs))(p \<mapsto> c)"
  by (auto simp: write_file_eq update_conv' fs_wf_write split: if_splits)

lemma write_file_Inr_iff:
  "fs_wf fs \<Longrightarrow> (\<exists>fs'. write_file p c fs = Inr fs') = (is_dir fs (butlast p) \<and> \<not> is_dir fs p)"
  by (simp add: write_file_eq)

lemma read_file_eq:
  "fs_wf fs \<Longrightarrow> is_dir fs (butlast p) \<Longrightarrow> map_of (fs_files fs) p = Some c \<Longrightarrow> read_file p fs = Inr c"
proof -
  assume wf: "fs_wf fs" and d: "is_dir fs (butlast p)" and f: "map_of (fs_files fs) p = Some c"
  from f have "is_file fs p" by (simp add: is_file_def)
  with wf have "\<not> is_dir fs p" using fs_wfD(4) by blast
  with wf d f show ?thesis by (simp add: read_file_def resolve_parent_dir)
qed

section \<open>Refinement\<close>

lemma write_file_refines:
  "fs_wf fs \<Longrightarrow> res_abs (write_file p c fs) = a_write p c (fs_abs fs)"
  by (simp add: write_file_eq res_abs_def a_write_def fs_abs_def is_dir_def update_conv')

lemma prefixes_dirs: "fs_wf fs \<Longrightarrow> is_dir fs p \<Longrightarrow> set (prefixes p) \<subseteq> set (fs_dirs fs)"
  using is_dir_prefix by (auto simp: is_dir_def)

lemma path_mkdir_parents_refines:
  "fs_wf fs \<Longrightarrow> res_abs (path_mkdir True True p fs) = a_makedirs p (fs_abs fs)"
proof -
  assume wf: "fs_wf fs"
  have nf: "no_file_on_path fs p = (\<forall>q \<in> set (prefixes p). q \<notin> dom (map_of (fs_files fs)))"
    by (auto simp: no_file_on_path_def is_file_def)
  show ?thesis
  proof (cases "no_file_on_path fs p")
    case True
    with wf obtain fs' where ok: "path_mkdir True True p fs = Inr fs'"
      using path_mkdir_parents_succeeds by blast
    from path_mkdir_Inr [OF ok wf] have
      wf': "fs_wf fs'" and d: "is_dir fs' p" and f: "fs_files fs' = fs_files fs" and
      l: "set (fs_dirs fs) \<subseteq> set (fs_dirs fs')" and
      u: "set (fs_dirs fs') \<subseteq> set (fs_dirs fs) \<union> set (prefixes p)"
      by simp_all
    from prefixes_dirs [OF wf' d] l u have "set (fs_dirs fs') = set (fs_dirs fs) \<union> set (prefixes p)"
      by blast
    with ok f True nf show ?thesis
      by (simp add: res_abs_def a_makedirs_def fs_abs_def)
  next
    case False
    then have "\<forall>fs'. path_mkdir True True p fs \<noteq> Inr fs'"
      using path_mkdir_Inr_no_file wf by blast
    then have "res_abs (path_mkdir True True p fs) = None"
      by (auto simp: res_abs_def split: sum.split)
    with False nf show ?thesis
      by (simp add: a_makedirs_def fs_abs_def)
  qed
qed

lemma a_write_keep_dirs [simp]: "a_dirs (a_write_keep p c A) = a_dirs A"
  by (simp add: a_write_keep_def a_write_def)

text \<open>Writes to different paths, or of the same contents, commute.\<close>

lemma a_write_keep_commute:
  "p \<noteq> q \<or> c = d \<Longrightarrow> a_write_keep p c (a_write_keep q d A) = a_write_keep q d (a_write_keep p c A)"
  by (cases A) (auto simp: a_write_keep_def a_write_def fun_upd_twist)

lemma write_file_keep:
  "fs_wf fs \<Longrightarrow>
     fs_wf (case write_file p c fs of Inl e \<Rightarrow> fs | Inr fs' \<Rightarrow> fs') \<and>
     fs_abs (case write_file p c fs of Inl e \<Rightarrow> fs | Inr fs' \<Rightarrow> fs') = a_write_keep p c (fs_abs fs)"
  using write_file_refines [of fs p c, symmetric] write_file_Inr [of fs p c]
  by (auto simp: a_write_keep_def res_abs_def split: sum.splits)

end
