(* ===== verification/Folders.thy ===== *)
theory Folders
  imports FileSystem
begin

text \<open>
  The module-level folders of \<^verbatim>\<open>src/main.py\<close> (lines 33--34) and \<^verbatim>\<open>create_folder\<close>
  (lines 37--43). Both folders are computed at import time from the working directory
  \<open>cwd\<close>. \<^verbatim>\<open>create_folder\<close> is always called with one of them, an absolute path,
  and \<^verbatim>\<open>os.path.join(os.getcwd(), p)\<close> of an absolute \<open>p\<close> is \<open>p\<close>, so the folder
  created is the argument itself. The theorems: \<^verbatim>\<open>create_folder\<close> succeeds exactly when no
  component of the path is a regular file, it implements the abstract \<^verbatim>\<open>mkdir -p\<close>,
  it keeps the store well-formed, and a second call changes nothing.
\<close>

definition IMAGE_FOLDER :: "path \<Rightarrow> path" where
  "IMAGE_FOLDER cwd = cwd @ [''images'']"

definition PROCESSED_FOLDER :: "path \<Rightarrow> path" where
  "PROCESSED_FOLDER cwd = IMAGE_FOLDER cwd @ [''processed'']"

definition create_folder :: "path \<Rightarrow> fs \<Rightarrow> py_error + fs" where
  "create_folder folder_path fs = path_mkdir True True folder_path fs"

lemma create_folder_Inr:
  "fs_wf fs \<Longrightarrow> create_folder p fs = Inr fs' \<Longrightarrow>
     fs_wf fs' \<and> is_dir fs' p \<and> fs_files fs' = fs_files fs \<and> set (fs_dirs fs) \<subseteq> set (fs_dirs fs')"
  unfolding create_folder_def by (drule path_mkdir_Inr) auto

lemma create_folder_existing:
  "fs_wf fs \<Longrightarrow> is_dir fs p \<Longrightarrow> create_folder p fs = Inr fs"
proof -
  assume wf: "fs_wf fs" and d: "is_dir fs p"
  have "is_dir fs (butlast p)"
    using is_dir_prefix [OF wf d prefixeq_butlast] .
  with wf have "resolve_parent fs p = None" by (rule resolve_parent_dir)
  with d show ?thesis
    by (simp add: create_folder_def path_mkdir.simps [of True True p fs] os_mkdir_def)
qed

text \<open>C1: \<^verbatim>\<open>create_folder\<close> returns normally exactly when no component of the path is a regular file.\<close>

theorem create_folder_ok:
  "fs_wf fs \<Longrightarrow> (\<exists>fs'. create_folder p fs = Inr fs') = no_file_on_path fs p"
  unfolding create_folder_def
  using path_mkdir_parents_succeeds path_mkdir_Inr_no_file by blast

text \<open>C2: \<^verbatim>\<open>create_folder\<close> implements \<^verbatim>\<open>mkdir -p\<close>: it adds every prefix of the path as a directory, or fails when a prefix is a file.\<close>

theorem create_folder_refines:
  "fs_wf fs \<Longrightarrow> res_abs (create_folder p fs) = a_makedirs p (fs_abs fs)"
  unfolding create_folder_def by (rule path_mkdir_parents_refines)

text \<open>C3: calling \<^verbatim>\<open>create_folder\<close> again on the folder it created succeeds and changes nothing.\<close>

theorem create_folder_idempotent:
  "fs_wf fs \<Longrightarrow> create_folder p fs = Inr fs' \<Longrightarrow> create_folder p fs' = Inr fs'"
  using create_folder_Inr create_folder_existing by blast

text \<open>C4: \<^verbatim>\<open>create_folder\<close> keeps the store well-formed, leaves every file as it was and makes the folder a directory.\<close>

theorem create_folder_wf:
  "fs_wf fs \<Longrightarrow> create_folder p fs = Inr fs' \<Longrightarrow>
     fs_wf fs' \<and> is_dir fs' p \<and> fs_files fs' = fs_files fs"
  using create_folder_Inr by blast

section \<open>Witnesses\<close>

theorem create_folder_ok_witness:
  "fs_wf \<lparr>fs_dirs = [[], [''home'']], fs_files = [([''home'', ''notes''], [7])]\<rparr> \<and>
   (\<exists>fs'. create_folder [''home'', ''notes'', ''images''] \<lparr>fs_dirs = [[], [''home'']], fs_files = [([''home'', ''notes''], [7])]\<rparr> = Inr fs') =
     no_file_on_path \<lparr>fs_dirs = [[], [''home'']], fs_files = [([''home'', ''notes''], [7])]\<rparr> [''home'', ''notes'', ''images'']"
proof -
  have wf: "fs_wf \<lparr>fs_dirs = [[], [''home'']], fs_files = [([''home'', ''notes''], [7])]\<rparr>" by code_simp
  show ?thesis using create_folder_ok [OF wf, of "[''home'', ''notes'', ''images'']"] wf by simp
qed

theorem create_folder_refines_witness:
  "fs_wf \<lparr>fs_dirs = [[], [''home'']], fs_files = [([''home'', ''notes''], [7])]\<rparr> \<and>
   res_abs (create_folder [''home'', ''images''] \<lparr>fs_dirs = [[], [''home'']], fs_files = [([''home'', ''notes''], [7])]\<rparr>) = a_makedirs [''home'', ''images''] (fs_abs \<lparr>fs_dirs = [[], [''home'']], fs_files = [([''home'', ''notes''], [7])]\<rparr>)"
proof -
  have wf: "fs_wf \<lparr>fs_dirs = [[], [''home'']], fs_files = [([''home'', ''notes''], [7])]\<rparr>" by code_simp
  show ?thesis using create_folder_refines [OF wf, of "[''home'', ''images'']"] wf by simp
qed

theorem create_folder_idempotent_witness:
  "fs_wf \<lparr>fs_dirs = [[], [''home'']], fs_files = [([''home'', ''notes''], [7])]\<rparr> \<and> create_folder [''home'', ''images''] \<lparr>fs_dirs = [[], [''home'']], fs_files = [([''home'', ''notes''], [7])]\<rparr> = Inr \<lparr>fs_dirs = [[], [''home''], [''home'', ''images'']], fs_files = [([''home'', ''notes''], [7])]\<rparr> \<and>
   create_folder [''home'', ''images''] \<lparr>fs_dirs = [[], [''home''], [''home'', ''images'']], fs_files = [([''home'', ''notes''], [7])]\<rparr> = Inr \<lparr>fs_dirs = [[], [''home''], [''home'', ''images'']], fs_files = [([''home'', ''notes''], [7])]\<rparr>"
proof -
  have wf: "fs_wf \<lparr>fs_dirs = [[], [''home'']], fs_files = [([''home'', ''notes''], [7])]\<rparr>" by code_simp
  have ok: "create_folder [''home'', ''images''] \<lparr>fs_dirs = [[], [''home'']], fs_files = [([''home'', ''notes''], [7])]\<rparr> = Inr \<lparr>fs_dirs = [[], [''home''], [''home'', ''images'']], fs_files = [([''home'', ''notes''], [7])]\<rparr>" by code_simp
  show ?thesis using create_folder_idempotent [OF wf ok] wf ok by simp
qed

theorem create_folder_wf_witness:
  "fs_wf \<lparr>fs_dirs = [[], [''home'']], fs_files = [([''home'', ''notes''], [7])]\<rparr> \<and> create_folder [''home'', ''images''] \<lparr>fs_dirs = [[], [''home'']], fs_files = [([''home'', ''notes''], [7])]\<rparr> = Inr \<lparr>fs_dirs = [[], [''home''], [''home'', ''images'']], fs_files = [([''home'', ''notes''], [7])]\<rparr> \<and>
   fs_wf \<lparr>fs_dirs = [[], [''home''], [''home'', ''images'']], fs_files = [([''home'', ''notes''], [7])]\<rparr> \<and> is_dir \<lparr>fs_dirs = [[], [''home''], [''home'', ''images'']], fs_files = [([''home'', ''notes''], [7])]\<rparr> [''home'', ''images''] \<and> fs_files \<lparr>fs_dirs = [[], [''home''], [''home'', ''images'']], fs_files = [([''home'', ''notes''], [7])]\<rparr> = fs_files \<lparr>fs_dirs = [[], [''home'']], fs_files = [([''home'', ''notes''], [7])]\<rparr>"
proof -
  have wf: "fs_wf \<lparr>fs_dirs = [[], [''home'']], fs_files = [([''home'', ''notes''], [7])]\<rparr>" by code_simp
  have ok: "create_folder [''home'', ''images''] \<lparr>fs_dirs = [[], [''home'']], fs_files = [([''home'', ''notes''], [7])]\<rparr> = Inr \<lparr>fs_dirs = [[], [''home''], [''home'', ''images'']], fs_files = [([''home'', ''notes''], [7])]\<rparr>" by code_simp
  show ?thesis using create_folder_wf [OF wf ok] wf ok by simp
qed

end
