(* ===== verification/World.thy ===== *)
theory World
  imports Prelude
begin

text \<open>
  The outside world the program calls into, as an explicit parameter rather than
  axioms: the network (\<^verbatim>\<open>requests.get\<close>) and the image library (PIL's
  \<^verbatim>\<open>Image.open\<close>, \<^verbatim>\<open>ImageFilter.GaussianBlur\<close>, the resampling done by
  \<^verbatim>\<open>thumbnail\<close> and the JPEG encoder of \<^verbatim>\<open>save\<close>). A theorem about the program holds
  for every world, or for every world that keeps the contract \<open>pil_ok\<close>: the
  properties of PIL the program relies on (blurring keeps the size, resampling produces
  the requested size, decoded images are not empty, an encoded JPEG decodes to an image
  of the same size).
\<close>

text \<open>\<^verbatim>\<open>requests.Response\<close>: the program reads only \<^verbatim>\<open>.content\<close>; the status is kept to say so.\<close>

record response =
  status_code :: nat
  content :: bytes

text \<open>A decoded raster image: size, PIL mode (\<^verbatim>\<open>"RGB"\<close>, \<^verbatim>\<open>"RGBA"\<close>, \<dots>) and pixel data.\<close>

record image =
  img_w :: nat
  img_h :: nat
  img_mode :: string
  img_pixels :: bytes

record world =
  http_get :: "string \<Rightarrow> py_error + response"
  pil_open :: "bytes \<Rightarrow> py_error + image"
  pil_blur :: "nat \<Rightarrow> image \<Rightarrow> image"
  pil_resize :: "nat \<times> nat \<Rightarrow> image \<Rightarrow> image"
  pil_jpeg :: "image \<Rightarrow> py_error + bytes"

definition img_size :: "image \<Rightarrow> nat \<times> nat" where
  "img_size i = (img_w i, img_h i)"

definition pil_ok :: "world \<Rightarrow> bool" where
  "pil_ok W \<longleftrightarrow>
     (\<forall>r i. img_size (pil_blur W r i) = img_size i) \<and>
     (\<forall>sz i. img_size (pil_resize W sz i) = sz) \<and>
     (\<forall>bs i. pil_open W bs = Inr i \<longrightarrow> 0 < img_w i \<and> 0 < img_h i) \<and>
     (\<forall>i bs. pil_jpeg W i = Inr bs \<longrightarrow>
        (\<exists>i'. pil_open W bs = Inr i' \<and> img_size i' = img_size i))"

lemma pil_okD:
  assumes "pil_ok W"
  shows "img_size (pil_blur W r i) = img_size i"
    and "img_size (pil_resize W sz i) = sz"
    and "pil_open W bs = Inr i \<Longrightarrow> 0 < img_w i \<and> 0 < img_h i"
    and "pil_jpeg W i = Inr bs \<Longrightarrow> \<exists>i'. pil_open W bs = Inr i' \<and> img_size i' = img_size i"
  using assms unfolding pil_ok_def by blast+

end
