(* ===== verification/Executor.thy ===== *)
theory Executor
  imports Prelude
begin

text \<open>
  The two fan-out stages of \<^verbatim>\<open>main\<close> (lines 83--84 and 87--88):
  \<^verbatim>\<open>with ThreadPoolExecutor() as executor: executor.map(fn, items)\<close>, and the same with a
  \<^verbatim>\<open>ProcessPoolExecutor\<close>. \<^verbatim>\<open>map\<close> submits one task per item at once; leaving the
  \<^verbatim>\<open>with\<close> block calls \<^verbatim>\<open>shutdown(wait=True)\<close>, the barrier that waits for every
  task. The iterator \<^verbatim>\<open>map\<close> returns is never consumed, so an exception raised by a task
  stays in its future and is never re-raised: the stage always completes.

  A task is one item's work on the shared state: the state it leaves and the exception
  it stored, if any (\<open>task_of\<close> turns a function that raises into one). Each task's
  effect on the state is one atomic step; which pending task runs next is up to the
  scheduler, so a stage is a relation, \<open>pool_step\<close>, whose complete runs are the
  possible executions. \<open>pool_run\<close> is the run in submission order.
  The lemmas: every complete interleaving is the submission-order run of a
  permutation of the items; no interleaving is infinite and none gets stuck before the
  barrier; and when the tasks refine pairwise commuting abstract steps, every
  interleaving reaches the same abstract state. For a state that carries more than the
  tasks read (the console beside the store), runs map to runs along a projection and
  back, a log the tasks only append to grows by lines each item may print, with each
  item's mandatory lines, and an invariant of the remaining items and the state that
  every task keeps holds at the barrier.
\<close>

type_synonym ('a, 's, 'e) task = "'a \<Rightarrow> 's \<Rightarrow> 's \<times> 'e option"

text \<open>\<open>(pending items, shared state, exceptions stored in finished futures)\<close>\<close>

type_synonym ('a, 's, 'e) pool = "'a list \<times> 's \<times> 'e list"

definition task_of :: "('a \<Rightarrow> 's \<Rightarrow> 'e + 's) \<Rightarrow> ('a, 's, 'e) task" where
  "task_of f x s = (case f x s of Inl e \<Rightarrow> (s, Some e) | Inr s' \<Rightarrow> (s', None))"

definition stored :: "'e option \<Rightarrow> 'e list \<Rightarrow> 'e list" where
  "stored r es = (case r of None \<Rightarrow> es | Some e \<Rightarrow> e # es)"

fun pool_run :: "('a, 's, 'e) task \<Rightarrow> 'a list \<Rightarrow> 's \<Rightarrow> 's \<times> 'e list" where
  "pool_run t [] s = (s, [])"
| "pool_run t (x # xs) s =
     (case t x s of (s1, r) \<Rightarrow> (case pool_run t xs s1 of (s2, es) \<Rightarrow> (s2, stored r es)))"

text \<open>What \<^verbatim>\<open>main\<close> keeps of a stage: the state; the stored exceptions are dropped.\<close>

definition executor_map :: "('a, 's, 'e) task \<Rightarrow> 'a list \<Rightarrow> 's \<Rightarrow> 's" where
  "executor_map t xs s = fst (pool_run t xs s)"

inductive pool_step :: "('a, 's, 'e) task \<Rightarrow> ('a, 's, 'e) pool \<Rightarrow> ('a, 's, 'e) pool \<Rightarrow> bool"
  for t where
  pick: "i < length xs \<Longrightarrow> t (xs ! i) s = (s', r) \<Longrightarrow>
    pool_step t (xs, s, es) (take i xs @ drop (Suc i) xs, s', stored r es)"

inductive_cases pool_stepE: "pool_step t (xs, s, es) (ys, s', es')"

section \<open>The submission-order run\<close>

lemma executor_map_Nil [simp]: "executor_map t [] s = s"
  by (simp add: executor_map_def)

lemma executor_map_Cons [simp]: "executor_map t (x # xs) s = executor_map t xs (fst (t x s))"
  by (simp add: executor_map_def split: prod.split)

lemma executor_map_fold: "executor_map t xs s = fold (\<lambda>x s. fst (t x s)) xs s"
  by (induction xs arbitrary: s) simp_all

lemma executor_map_append: "executor_map t (xs @ ys) s = executor_map t ys (executor_map t xs s)"
  by (simp add: executor_map_fold)

lemma mset_remove_nth:
  "i < length xs \<Longrightarrow> mset xs = add_mset (xs ! i) (mset (take i xs @ drop (Suc i) xs))"
proof -
  assume i: "i < length xs"
  then have "xs = take i xs @ xs ! i # drop (Suc i) xs" by (simp add: id_take_nth_drop)
  then have "mset xs = mset (take i xs @ xs ! i # drop (Suc i) xs)" by (rule arg_cong)
  then show ?thesis by simp
qed

section \<open>Interleavings\<close>

lemma pool_schedule_gen:
  "(pool_step t)\<^sup>*\<^sup>* P Q \<Longrightarrow> fst Q = [] \<Longrightarrow>
     \<exists>zs. mset zs = mset (fst P) \<and> fst (snd Q) = executor_map t zs (fst (snd P))"
proof (induction rule: converse_rtranclp_induct)
  case base
  then show ?case by (intro exI [of _ "[]"]) simp
next
  case (step P P')
  from step.hyps(1) obtain i xs s s' r es where
    P: "P = (xs, s, es)" and P': "P' = (take i xs @ drop (Suc i) xs, s', stored r es)" and
    i: "i < length xs" and t: "t (xs ! i) s = (s', r)"
    by (auto elim: pool_step.cases)
  from step.IH step.prems obtain zs where
    zs: "mset zs = mset (take i xs @ drop (Suc i) xs)" and
    q: "fst (snd Q) = executor_map t zs s'"
    using P' by auto
  have "mset (xs ! i # zs) = mset xs" using mset_remove_nth [OF i] zs by simp
  moreover have "fst (snd Q) = executor_map t (xs ! i # zs) s" using q t by simp
  ultimately have "mset (xs ! i # zs) = mset (fst P) \<and> fst (snd Q) = executor_map t (xs ! i # zs) (fst (snd P))"
    using P by simp
  then show ?case by blast
qed

lemma pool_step_shrinks: "pool_step t P Q \<Longrightarrow> length (fst Q) < length (fst P)"
  by (induction rule: pool_step.induct) auto

lemma pool_in_order:
  "\<exists>es'. (pool_step t)\<^sup>*\<^sup>* (xs, s, es) ([], executor_map t xs s, es')"
proof (induction xs arbitrary: s es)
  case Nil
  then show ?case by auto
next
  case (Cons x xs)
  obtain s1 r where t: "t x s = (s1, r)" by fastforce
  have "pool_step t (x # xs, s, es) (xs, s1, stored r es)"
    using pool_step.pick [of 0 "x # xs" t s s1 r es] t by simp
  moreover obtain es' where "(pool_step t)\<^sup>*\<^sup>* (xs, s1, stored r es) ([], executor_map t xs s1, es')"
    using Cons.IH by blast
  ultimately show ?case using t by (auto intro: converse_rtranclp_into_rtranclp)
qed

lemma pool_any_order:
  "mset zs = mset xs \<Longrightarrow> \<exists>es'. (pool_step t)\<^sup>*\<^sup>* (xs, s, es) ([], executor_map t zs s, es')"
proof (induction zs arbitrary: xs s es)
  case Nil
  then show ?case by auto
next
  case (Cons z zs)
  then have "z \<in> set xs" by (metis list.set_intros(1) mset_eq_setD)
  then obtain i where i: "i < length xs" and z: "xs ! i = z" by (auto simp: in_set_conv_nth)
  obtain s1 r where t: "t z s = (s1, r)" by fastforce
  have step: "pool_step t (xs, s, es) (take i xs @ drop (Suc i) xs, s1, stored r es)"
    using pool_step.pick [of i xs t s s1 r es] i z t by simp
  have "mset zs = mset (take i xs @ drop (Suc i) xs)"
    using Cons.prems mset_remove_nth [OF i] z by simp
  then obtain es' where
    "(pool_step t)\<^sup>*\<^sup>* (take i xs @ drop (Suc i) xs, s1, stored r es) ([], executor_map t zs s1, es')"
    using Cons.IH by blast
  with step t show ?case by (auto intro: converse_rtranclp_into_rtranclp)
qed

lemma executor_map_refines:
  assumes "\<And>x s. x \<in> set xs \<Longrightarrow> I s \<Longrightarrow> I (fst (t x s)) \<and> view (fst (t x s)) = T x (view s)"
  shows "I s \<Longrightarrow> I (executor_map t xs s) \<and> view (executor_map t xs s) = fold T xs (view s)"
  using assms by (induction xs arbitrary: s) auto

lemma pool_run_perm:
  "(pool_step t)\<^sup>*\<^sup>* (xs, s, es) ([], s', es') \<Longrightarrow>
     \<exists>zs. mset zs = mset xs \<and> s' = executor_map t zs s"
  using pool_schedule_gen [of t "(xs, s, es)" "([], s', es')"] by simp

text \<open>
  The states a stage can end in at the barrier are exactly the submission-order runs
  of the permutations of the items.
\<close>

lemma pool_schedule:
  "(\<exists>es'. (pool_step t)\<^sup>*\<^sup>* (xs, s, es) ([], s', es')) =
     (\<exists>zs. mset zs = mset xs \<and> s' = executor_map t zs s)"
  using pool_run_perm pool_any_order by metis

text \<open>No execution of the relation is infinite: each scheduling step finishes one pending task.\<close>

lemma pool_terminates: "wf {(Q, P). pool_step t P Q}"
proof (rule wf_subset [OF wf_measure [of "\<lambda>P. length (fst P)"]])
  show "{(Q, P). pool_step t P Q} \<subseteq> measure (\<lambda>P. length (fst P))"
    by (auto dest: pool_step_shrinks)
qed

text \<open>While a task is pending a step is possible, and running the tasks in submission order is an execution that ends at the barrier.\<close>

lemma pool_barrier_reached:
  "(xs \<noteq> [] \<longrightarrow> (\<exists>Q. pool_step t (xs, s, es) Q)) \<and>
   (\<exists>es'. (pool_step t)\<^sup>*\<^sup>* (xs, s, es) ([], executor_map t xs s, es'))"
proof
  show "xs \<noteq> [] \<longrightarrow> (\<exists>Q. pool_step t (xs, s, es) Q)"
  proof
    assume "xs \<noteq> []"
    then have "0 < length xs" by simp
    obtain s' r where "t (xs ! 0) s = (s', r)" by fastforce
    with \<open>0 < length xs\<close> show "\<exists>Q. pool_step t (xs, s, es) Q" by (blast intro: pool_step.pick)
  qed
  show "\<exists>es'. (pool_step t)\<^sup>*\<^sup>* (xs, s, es) ([], executor_map t xs s, es')"
    by (rule pool_in_order)
qed

lemma pool_stage_fold:
  assumes ref: "\<And>x s. x \<in> set xs \<Longrightarrow> I s \<Longrightarrow> I (fst (t x s)) \<and> view (fst (t x s)) = T x (view s)"
    and comm: "\<And>x y. x \<in> set xs \<Longrightarrow> y \<in> set xs \<Longrightarrow> T x \<circ> T y = T y \<circ> T x"
    and inv: "I s"
    and run: "(pool_step t)\<^sup>*\<^sup>* (xs, s, es) ([], s', es')"
  shows "I s' \<and> view s' = fold T xs (view s)"
proof -
  from pool_run_perm [OF run] obtain zs where
    zs: "mset zs = mset xs" and s': "s' = executor_map t zs s" by blast
  from zs have set_eq: "set zs = set xs" by (rule mset_eq_setD)
  have "I s' \<and> view s' = fold T zs (view s)"
    using executor_map_refines [of zs I t view T s] ref inv set_eq s' by auto
  moreover have "fold T zs = fold T xs"
    using comm set_eq zs by (intro fold_multiset_equiv) auto
  ultimately show ?thesis by simp
qed

lemma pool_from_Nil: "(pool_step t)\<^sup>*\<^sup>* ([], s, es) Q \<Longrightarrow> Q = ([], s, es)"
  by (erule converse_rtranclpE) (auto elim: pool_step.cases)

section \<open>Projections of a stage and appended logs\<close>

text \<open>
  A task on a richer state (for instance the store together with the console) whose
  projection \<open>\<pi>\<close> behaves as a task on the smaller state has the same runs, up to
  \<open>\<pi>\<close>, in both directions.
\<close>

lemma pool_step_map:
  assumes "\<And>x s. map_prod \<pi> id (t' x s) = t x (\<pi> s)"
  shows "pool_step t' (xs, s, es) (ys, s', es') \<Longrightarrow> pool_step t (xs, \<pi> s, es) (ys, \<pi> s', es')"
proof (erule pool_stepE)
  fix i r
  assume "i < length xs" "t' (xs ! i) s = (s', r)"
    "ys = take i xs @ drop (Suc i) xs" "es' = stored r es"
  with assms [of "xs ! i" s] show ?thesis by (auto intro: pool_step.pick)
qed

lemma pool_run_map:
  assumes "\<And>x s. map_prod \<pi> id (t' x s) = t x (\<pi> s)"
  shows "(pool_step t')\<^sup>*\<^sup>* P Q \<Longrightarrow>
    (pool_step t)\<^sup>*\<^sup>* (fst P, \<pi> (fst (snd P)), snd (snd P)) (fst Q, \<pi> (fst (snd Q)), snd (snd Q))"
proof (induction rule: rtranclp_induct)
  case (step Q R)
  obtain xs s es ys s' es' where "Q = (xs, s, es)" "R = (ys, s', es')" by (cases Q, cases R) blast
  with step pool_step_map [where t' = t' and t = t and \<pi> = \<pi>, OF assms, of xs s es ys s' es'] show ?case
    by (auto intro: rtranclp.rtrancl_into_rtrancl)
qed simp

lemma pool_run_lift:
  assumes "\<And>x s. map_prod \<pi> id (t' x s) = t x (\<pi> s)"
  shows "(pool_step t)\<^sup>*\<^sup>* (xs, \<pi> s, es) Q \<Longrightarrow>
    \<exists>s'. (pool_step t')\<^sup>*\<^sup>* (xs, s, es) (fst Q, s', snd (snd Q)) \<and> \<pi> s' = fst (snd Q)"
proof (induction rule: rtranclp_induct)
  case (step Q R)
  then obtain s1 where run: "(pool_step t')\<^sup>*\<^sup>* (xs, s, es) (fst Q, s1, snd (snd Q))"
    and p1: "\<pi> s1 = fst (snd Q)" by blast
  from step(2) obtain i r s2 where i: "i < length (fst Q)" and t: "t (fst Q ! i) (fst (snd Q)) = (s2, r)"
    and R: "R = (take i (fst Q) @ drop (Suc i) (fst Q), s2, stored r (snd (snd Q)))"
    by (auto elim!: pool_step.cases)
  obtain s3 r' where t': "t' (fst Q ! i) s1 = (s3, r')" by fastforce
  from assms [of "fst Q ! i" s1] t' t p1 have "\<pi> s3 = s2" "r' = r" by simp_all
  have "pool_step t' (fst Q, s1, snd (snd Q)) (take i (fst Q) @ drop (Suc i) (fst Q), s3, stored r' (snd (snd Q)))"
    using i t' by (rule pool_step.pick)
  with \<open>\<pi> s3 = s2\<close> \<open>r' = r\<close> run R show ?case
    by (auto intro: rtranclp.rtrancl_into_rtrancl)
qed auto

text \<open>
  A task on a state paired with a log, each of whose calls only appends lines: the
  lines a stage appends are among those its items may append, and every item's
  mandatory line is there once the stage is over.
\<close>

lemma set_take_drop_sub: "set (take i xs @ drop (Suc i) xs) \<subseteq> set xs"
  by (auto dest: in_set_takeD in_set_dropD)

lemma set_remove_nth: "i < length xs \<Longrightarrow> set xs = insert (xs ! i) (set (take i xs @ drop (Suc i) xs))"
  by (metis id_take_nth_drop list.simps(15) set_append Un_insert_right)

lemma distinct_map_remove_nth:
  assumes d: "distinct (map f xs)" and i: "i < length xs"
  shows "distinct (map f (take i xs @ drop (Suc i) xs)) \<and> f (xs ! i) \<notin> f ` set (take i xs @ drop (Suc i) xs)"
proof -
  from d id_take_nth_drop [OF i] have "distinct (map f (take i xs @ xs ! i # drop (Suc i) xs))" by simp
  then show ?thesis by auto
qed

lemma pool_log:
  assumes app: "\<And>x s l. x \<in> set (fst P) \<Longrightarrow>
      \<exists>L. snd (fst (t x (s, l))) = l @ L \<and> set L \<subseteq> B \<and> f x \<subseteq> set L"
  shows "(pool_step t)\<^sup>*\<^sup>* P Q \<Longrightarrow>
    set (fst Q) \<subseteq> set (fst P) \<and>
    (\<exists>L. snd (fst (snd Q)) = snd (fst (snd P)) @ L \<and> set L \<subseteq> B \<and>
       (\<forall>x \<in> set (fst P). x \<in> set (fst Q) \<or> f x \<subseteq> set L))"
proof (induction rule: rtranclp_induct)
  case (step Q R)
  from step(2) obtain i r s2 where i: "i < length (fst Q)" and t: "t (fst Q ! i) (fst (snd Q)) = (s2, r)"
    and R: "R = (take i (fst Q) @ drop (Suc i) (fst Q), s2, stored r (snd (snd Q)))"
    by (auto elim!: pool_step.cases)
  from step(3) obtain L where sub: "set (fst Q) \<subseteq> set (fst P)"
    and lq: "snd (fst (snd Q)) = snd (fst (snd P)) @ L" and lb: "set L \<subseteq> B"
    and each: "\<forall>x \<in> set (fst P). x \<in> set (fst Q) \<or> f x \<subseteq> set L" by blast
  from i sub have x: "fst Q ! i \<in> set (fst P)" by auto
  from app [OF x, of "fst (fst (snd Q))" "snd (fst (snd Q))"] t obtain L' where
    l2: "snd s2 = snd (fst (snd Q)) @ L'" and lb': "set L' \<subseteq> B" and fx: "f (fst Q ! i) \<subseteq> set L'" by auto
  have "\<forall>x \<in> set (fst P). x \<in> set (take i (fst Q) @ drop (Suc i) (fst Q)) \<or> f x \<subseteq> set (L @ L')"
    using each fx set_remove_nth [OF i] by auto
  with sub set_take_drop_sub [of i "fst Q"] lq lb l2 lb' R show ?case by auto
qed auto

text \<open>An invariant of the remaining items and the state that every task keeps.\<close>

lemma pool_run_inv:
  assumes keep: "\<And>xs s i. J xs s \<Longrightarrow> i < length xs \<Longrightarrow> J (take i xs @ drop (Suc i) xs) (fst (t (xs ! i) s))"
  shows "(pool_step t)\<^sup>*\<^sup>* P Q \<Longrightarrow> J (fst P) (fst (snd P)) \<Longrightarrow> J (fst Q) (fst (snd Q))"
proof (induction rule: rtranclp_induct)
  case (step Q R)
  from step(2) obtain i r s2 where i: "i < length (fst Q)" and t: "t (fst Q ! i) (fst (snd Q)) = (s2, r)"
    and R: "R = (take i (fst Q) @ drop (Suc i) (fst Q), s2, stored r (snd (snd Q)))"
    by (auto elim!: pool_step.cases)
  from step.IH [OF step.prems] i have "J (take i (fst Q) @ drop (Suc i) (fst Q)) (fst (t (fst Q ! i) (fst (snd Q))))"
    by (rule keep)
  with t R show ?case by simp
qed

lemma pool_stage_view:
  assumes ref: "\<And>x s. x \<in> set xs \<Longrightarrow> I s \<Longrightarrow> I (fst (t x s)) \<and> view (fst (t x s)) = T x (view s)"
    and comm: "\<And>x y. x \<in> set xs \<Longrightarrow> y \<in> set xs \<Longrightarrow> T x \<circ> T y = T y \<circ> T x"
    and inv: "I s"
    and run: "(pool_step t)\<^sup>*\<^sup>* (xs, s, es) ([], s', es')"
  shows "view s' = view (executor_map t xs s)"
proof -
  from pool_run_perm [OF run] obtain zs where
    zs: "mset zs = mset xs" and s': "s' = executor_map t zs s" by blast
  from zs have set_eq: "set zs = set xs" by (rule mset_eq_setD)
  have "view (executor_map t zs s) = fold T zs (view s)"
    using executor_map_refines [of zs I t view T s] ref inv set_eq by auto
  also have "fold T zs = fold T xs"
    using comm set_eq zs by (intro fold_multiset_equiv) auto
  also have "fold T xs (view s) = view (executor_map t xs s)"
    using executor_map_refines [of xs I t view T s] ref inv by auto
  finally show ?thesis using s' by simp
qed


end
