(* ===== verification/Fetcher.thy ===== *)
theory Fetcher
  imports PyStr Folders World Executor "HOL-Library.Sublist"
begin

text \<open>
  The Fetcher of \<^verbatim>\<open>src/main.py\<close>: the URL list \<^verbatim>\<open>IMAGE_URLS\<close> (lines 10--32) and
  \<^verbatim>\<open>download_image\<close> (lines 47--59), which derives a file name from the URL, performs
  one GET and writes the body to \<^verbatim>\<open>IMAGE_FOLDER/<name>\<close>. The name is the last
  \<^verbatim>\<open>/\<close>-field of the URL up to its first \<^verbatim>\<open>?\<close>, with \<^verbatim>\<open>.jpg\<close> appended; the
  indexing \<^verbatim>\<open>[-1]\<close> and \<^verbatim>\<open>[0]\<close> is modelled as Python's, with its IndexError, and the
  theorems show it never raises. The body is written whatever the HTTP status is.
\<close>

definition IMAGE_URLS :: "string list" where
  "IMAGE_URLS =
    [''https://images.unsplash.com/photo-1635088173181-673ff547a555'',
     ''https://images.unsplash.com/photo-1635481712720-a1b30952ed4b'',
     ''https://images.unsplash.com/photo-1635420280816-c0dc0ee8a7a7'',
     ''https://images.unsplash.com/photo-1632269826291-2cb3009bf43d'',
     ''https://images.unsplash.com/photo-1617137604160-fc923f3173d0'',
     ''https://images.unsplash.com/photo-1635398517284-2f3c7fef7fee'',
     ''https://images.unsplash.com/photo-1635417073744-0b09b9ac4dfc'',
     ''https://images.unsplash.com/photo-1604854657221-42873468254c'',
     ''https://images.unsplash.com/photo-1615762325085-8babbbce2c43'',
     ''https://images.unsplash.com/photo-1635317224525-19c1d33f9036'',
     ''https://images.unsplash.com/photo-1635333702118-b53d15341ed4'',
     ''https://images.unsplash.com/photo-1635269941799-665d1618d5d8'',
     ''https://images.unsplash.com/photo-1635297383087-8842f98f908a'',
     ''https://images.unsplash.com/photo-1610898404424-1439b7006e1c'',
     ''https://images.unsplash.com/photo-1634692804775-67207ea81cc5'',
     ''https://images.unsplash.com/photo-1633410229020-938fdaefd884'',
     ''https://images.unsplash.com/photo-1632085847101-028ec1b2abeb'',
     ''https://images.unsplash.com/photo-1627142625827-1d7e65635b18'',
     ''https://images.unsplash.com/photo-1629129207344-6a452eea1ea5'',
     ''https://images.unsplash.com/photo-1628258867160-f11ee22397c5'',
     ''https://images.unsplash.com/photo-1635342242063-a64d654fbfbe'']"

text \<open>\<^verbatim>\<open>image_url.split("/")[-1].split("?")[0] + ".jpg"\<close>\<close>

definition img_name :: "string \<Rightarrow> py_error + string" where
  "img_name image_url =
     (case py_getitem (py_split CHR ''/'' image_url) (-1) of
        Inl e \<Rightarrow> Inl e
      | Inr seg \<Rightarrow>
          (case py_getitem (py_split CHR ''?'' seg) 0 of
             Inl e \<Rightarrow> Inl e
           | Inr base \<Rightarrow> Inr (base @ ''.jpg'')))"

text \<open>
  \<^verbatim>\<open>requests.get(image_url).content\<close> written to
  \<^verbatim>\<open>os.path.join(IMAGE_FOLDER, img_name)\<close> through \<^verbatim>\<open>open(..., "wb")\<close>.
  The two \<^verbatim>\<open>print\<close> calls are not modelled.
\<close>

definition download_image :: "world \<Rightarrow> path \<Rightarrow> string \<Rightarrow> fs \<Rightarrow> py_error + fs" where
  "download_image W cwd image_url fs =
     (case img_name image_url of
        Inl e \<Rightarrow> Inl e
      | Inr name \<Rightarrow>
          (case http_get W image_url of
             Inl e \<Rightarrow> Inl e
           | Inr resp \<Rightarrow> write_file (IMAGE_FOLDER cwd @ [name]) (content resp) fs))"

text \<open>
  The download stage's step on the abstract store: the write of one URL's body under its
  name, or nothing when the GET or the write fails.
\<close>

definition a_download :: "world \<Rightarrow> path \<Rightarrow> string \<Rightarrow> afs \<Rightarrow> afs" where
  "a_download W cwd url A =
     (case img_name url of
        Inl _ \<Rightarrow> A
      | Inr n \<Rightarrow>
          (case http_get W url of
             Inl _ \<Rightarrow> A
           | Inr r \<Rightarrow> a_write_keep (IMAGE_FOLDER cwd @ [n]) (content r) A))"

section \<open>File-name derivation\<close>

lemma img_name_eq:
  "img_name url =
     Inr (takeWhile (\<lambda>c. c \<noteq> CHR ''?'') (rev (takeWhile (\<lambda>c. c \<noteq> CHR ''/'') (rev url))) @ ''.jpg'')"
  by (simp add: img_name_def last_py_split hd_py_split)

text \<open>C5: \<^verbatim>\<open>img_name\<close> never raises and computes the spec's derivation: the text after the last \<^verbatim>\<open>/\<close>, cut at the first \<^verbatim>\<open>?\<close>, with \<^verbatim>\<open>.jpg\<close> appended.\<close>

theorem img_name_spec:
  "img_name url =
     Inr (takeWhile (\<lambda>c. c \<noteq> CHR ''?'') (rev (takeWhile (\<lambda>c. c \<noteq> CHR ''/'') (rev url))) @ ''.jpg'')"
  by (rule img_name_eq)

lemma img_name_chars:
  "img_name url = Inr n \<Longrightarrow> CHR ''/'' \<notin> set n \<and> CHR ''?'' \<notin> set n \<and> suffix ''.jpg'' n"
  by (auto simp: img_name_eq suffix_def dest!: set_takeWhileD)

text \<open>C6: the stored name is a single path component: it holds no \<^verbatim>\<open>/\<close> and no \<^verbatim>\<open>?\<close> and ends with \<^verbatim>\<open>.jpg\<close>, so it is neither empty, \<^verbatim>\<open>.\<close> nor \<^verbatim>\<open>..\<close>.\<close>

theorem img_name_component:
  "\<exists>n. img_name url = Inr n \<and> CHR ''/'' \<notin> set n \<and> CHR ''?'' \<notin> set n \<and> suffix ''.jpg'' n \<and>
       n \<notin> {[], ''.'', ''..''}"
proof -
  obtain n where n: "img_name url = Inr n" using img_name_eq by blast
  with img_name_chars have c: "CHR ''/'' \<notin> set n \<and> CHR ''?'' \<notin> set n \<and> suffix ''.jpg'' n"
    by blast
  then have "4 \<le> length n" by (auto dest: suffix_length_le)
  with n c show ?thesis by auto
qed

section \<open>Downloading\<close>

text \<open>
  C7: with the images folder present, a successful GET makes \<^verbatim>\<open>download_image\<close> write the
  response body verbatim under the derived name, whatever the HTTP status, and change
  nothing else.
\<close>

theorem download_image_writes:
  "fs_wf fs \<Longrightarrow> is_dir fs (IMAGE_FOLDER cwd) \<Longrightarrow> http_get W url = Inr r \<Longrightarrow>
   img_name url = Inr n \<Longrightarrow> \<not> is_dir fs (IMAGE_FOLDER cwd @ [n]) \<Longrightarrow>
   \<exists>fs'. download_image W cwd url fs = Inr fs' \<and> fs_wf fs' \<and> fs_dirs fs' = fs_dirs fs \<and>
     map_of (fs_files fs') = (map_of (fs_files fs))(IMAGE_FOLDER cwd @ [n] \<mapsto> content r)"
  by (auto simp: download_image_def write_file_eq update_conv' fs_wf_write)

text \<open>C8: a failed GET raises its error from \<^verbatim>\<open>download_image\<close> before any file is opened.\<close>

theorem download_image_network_error:
  "http_get W url = Inl e \<Longrightarrow> download_image W cwd url fs = Inl e"
  by (simp add: download_image_def img_name_eq)

section \<open>The download stage\<close>

lemma download_task_refines:
  "fs_wf s \<Longrightarrow>
     fs_wf (fst (task_of (download_image W cwd) url s)) \<and>
     fs_abs (fst (task_of (download_image W cwd) url s)) = a_download W cwd url (fs_abs s)"
proof -
  assume wf: "fs_wf s"
  obtain n where n: "img_name url = Inr n" using img_name_eq by blast
  show ?thesis
  proof (cases "http_get W url")
    case (Inl e)
    with wf n show ?thesis by (simp add: task_of_def download_image_def a_download_def)
  next
    case (Inr r)
    have "fst (task_of (download_image W cwd) url s) =
        (case write_file (IMAGE_FOLDER cwd @ [n]) (content r) s of Inl e \<Rightarrow> s | Inr s' \<Rightarrow> s')"
      using n Inr by (simp add: task_of_def download_image_def split: sum.split)
    with write_file_keep [OF wf] n Inr show ?thesis by (simp add: a_download_def)
  qed
qed

lemma a_download_commute:
  "(img_name u = img_name v \<longrightarrow> u = v) \<Longrightarrow>
     a_download W cwd u \<circ> a_download W cwd v = a_download W cwd v \<circ> a_download W cwd u"
  by (auto simp: fun_eq_iff a_download_def a_write_keep_commute split: sum.split)

lemma download_map_fold:
  "fs_wf s \<Longrightarrow>
     fs_wf (executor_map (task_of (download_image W cwd)) urls s) \<and>
     fs_abs (executor_map (task_of (download_image W cwd)) urls s) = fold (a_download W cwd) urls (fs_abs s)"
  by (rule executor_map_refines) (simp add: download_task_refines)

lemma download_stage_fold:
  "fs_wf s \<Longrightarrow> \<forall>u\<in>set urls. \<forall>v\<in>set urls. img_name u = img_name v \<longrightarrow> u = v \<Longrightarrow>
   (pool_step (task_of (download_image W cwd)))\<^sup>*\<^sup>* (urls, s, es) ([], s', es') \<Longrightarrow>
   fs_wf s' \<and> fs_abs s' = fold (a_download W cwd) urls (fs_abs s)"
  by (rule pool_stage_fold [where I = fs_wf and T = "a_download W cwd"])
     (auto simp: download_task_refines intro: a_download_commute)

lemma a_download_dirs [simp]: "a_dirs (a_download W cwd u A) = a_dirs A"
  by (simp add: a_download_def split: sum.split)

lemma fold_a_download_dirs [simp]: "a_dirs (fold (a_download W cwd) us A) = a_dirs A"
  by (induction us arbitrary: A) simp_all

lemma fold_a_download_other:
  "(\<And>u n. u \<in> set us \<Longrightarrow> img_name u = Inr n \<Longrightarrow> q \<noteq> IMAGE_FOLDER cwd @ [n]) \<Longrightarrow>
     a_files (fold (a_download W cwd) us A) q = a_files A q"
proof (induction us arbitrary: A)
  case (Cons u us)
  then have "a_files (a_download W cwd u A) q = a_files A q"
    by (auto simp: a_download_def a_write_keep_def a_write_def split: sum.split option.split)
  moreover have "a_files (fold (a_download W cwd) us (a_download W cwd u A)) q = a_files (a_download W cwd u A) q"
    using Cons by (metis list.set_intros(2))
  ultimately show ?case by simp
qed simp

text \<open>
  After the download stage, a URL whose GET succeeded has its body in the images folder,
  when no other URL of the list has the same name.
\<close>

lemma fold_a_download_stored:
  assumes inj: "\<forall>u\<in>set urls. \<forall>v\<in>set urls. img_name u = img_name v \<longrightarrow> u = v"
    and u: "u \<in> set urls" and get: "http_get W u = Inr r" and n: "img_name u = Inr n"
    and d: "IMAGE_FOLDER cwd \<in> a_dirs A" and nd: "IMAGE_FOLDER cwd @ [n] \<notin> a_dirs A"
  shows "a_files (fold (a_download W cwd) urls A) (IMAGE_FOLDER cwd @ [n]) = Some (content r)"
proof -
  from u obtain xs ys where urls: "urls = xs @ u # ys" and ys: "u \<notin> set ys"
    using split_list_last by metis
  let ?A = "fold (a_download W cwd) xs A"
  from d nd get n have w: "a_files (a_download W cwd u ?A) (IMAGE_FOLDER cwd @ [n]) = Some (content r)"
    by (simp add: a_download_def a_write_keep_def a_write_def)
  have "IMAGE_FOLDER cwd @ [n] \<noteq> IMAGE_FOLDER cwd @ [m]" if "v \<in> set ys" "img_name v = Inr m" for v m
    using that ys inj n urls by auto
  then have "a_files (fold (a_download W cwd) ys (a_download W cwd u ?A)) (IMAGE_FOLDER cwd @ [n]) =
      a_files (a_download W cwd u ?A) (IMAGE_FOLDER cwd @ [n])"
    by (rule fold_a_download_other)
  with w urls show ?thesis by simp
qed

text \<open>
  C9: when no two URLs of the list share a file name, every execution of the download
  stage leaves the same files and directories, whatever order the threads finish in.
\<close>

theorem download_stage_deterministic:
  "fs_wf s \<Longrightarrow> \<forall>u\<in>set urls. \<forall>v\<in>set urls. img_name u = img_name v \<longrightarrow> u = v \<Longrightarrow>
   (pool_step (task_of (download_image W cwd)))\<^sup>*\<^sup>* (urls, s, es) ([], s', es') \<Longrightarrow>
   fs_abs s' = fs_abs (executor_map (task_of (download_image W cwd)) urls s)"
  by (rule pool_stage_view [where I = fs_wf and T = "a_download W cwd"])
     (auto simp: download_task_refines intro: a_download_commute)

lemma IMAGE_URLS_img_name_inj:
  "\<forall>u\<in>set IMAGE_URLS. \<forall>v\<in>set IMAGE_URLS. img_name u = img_name v \<longrightarrow> u = v"
proof -
  have "distinct (map img_name IMAGE_URLS)" by code_simp
  then have "inj_on img_name (set IMAGE_URLS)" by (simp add: distinct_map)
  then show ?thesis by (auto dest: inj_onD)
qed

text \<open>
  C10: for the program's own URL list, every execution of the download stage from a
  well-formed store leaves the same files and directories.
\<close>

theorem IMAGE_URLS_stage_deterministic:
  "fs_wf s \<Longrightarrow>
   (pool_step (task_of (download_image W cwd)))\<^sup>*\<^sup>* (IMAGE_URLS, s, es) ([], s', es') \<Longrightarrow>
   fs_abs s' = fs_abs (executor_map (task_of (download_image W cwd)) IMAGE_URLS s)"
  by (rule pool_stage_view [where I = fs_wf and T = "a_download W cwd"])
     (auto simp: download_task_refines intro: a_download_commute
           dest: IMAGE_URLS_img_name_inj [rule_format])

section \<open>Witnesses\<close>

text \<open>The server answers 404 with the body \<^verbatim>\<open>NF\<close>; the body is stored as the image.\<close>

theorem download_image_writes_witness:
  "\<exists>fs'. download_image \<lparr>http_get = (\<lambda>u. Inr \<lparr>status_code = 404, content = [78, 70]\<rparr>), pil_open = (\<lambda>b. Inl UnidentifiedImageError), pil_blur = (\<lambda>r i. i), pil_resize = (\<lambda>sz i. i), pil_jpeg = (\<lambda>i. Inl JpegEncodeError)\<rparr> [''h''] ''https://x.org/a/photo-1?w=3'' \<lparr>fs_dirs = [[], [''h''], [''h'', ''images'']], fs_files = []\<rparr> = Inr fs' \<and> fs_wf fs' \<and>
     fs_dirs fs' = fs_dirs \<lparr>fs_dirs = [[], [''h''], [''h'', ''images'']], fs_files = []\<rparr> \<and>
     map_of (fs_files fs') = (map_of (fs_files \<lparr>fs_dirs = [[], [''h''], [''h'', ''images'']], fs_files = []\<rparr>))([''h'', ''images'', ''photo-1.jpg''] \<mapsto> [78, 70])"
proof -
  have h1: "fs_wf \<lparr>fs_dirs = [[], [''h''], [''h'', ''images'']], fs_files = []\<rparr>" by code_simp
  have h2: "is_dir \<lparr>fs_dirs = [[], [''h''], [''h'', ''images'']], fs_files = []\<rparr> (IMAGE_FOLDER [''h''])" by code_simp
  have h3: "http_get \<lparr>http_get = (\<lambda>u. Inr \<lparr>status_code = 404, content = [78, 70]\<rparr>), pil_open = (\<lambda>b. Inl UnidentifiedImageError), pil_blur = (\<lambda>r i. i), pil_resize = (\<lambda>sz i. i), pil_jpeg = (\<lambda>i. Inl JpegEncodeError)\<rparr> ''https://x.org/a/photo-1?w=3'' = Inr \<lparr>status_code = 404, content = [78, 70]\<rparr>" by simp
  have h4: "img_name ''https://x.org/a/photo-1?w=3'' = Inr ''photo-1.jpg''" by code_simp
  have h5: "\<not> is_dir \<lparr>fs_dirs = [[], [''h''], [''h'', ''images'']], fs_files = []\<rparr> (IMAGE_FOLDER [''h''] @ [''photo-1.jpg''])" by code_simp
  from download_image_writes [OF h1 h2 h3 h4 h5] show ?thesis by (simp add: IMAGE_FOLDER_def)
qed

theorem download_image_network_error_witness:
  "download_image (\<lparr>http_get = (\<lambda>u. Inr \<lparr>status_code = 404, content = [78, 70]\<rparr>), pil_open = (\<lambda>b. Inl UnidentifiedImageError), pil_blur = (\<lambda>r i. i), pil_resize = (\<lambda>sz i. i), pil_jpeg = (\<lambda>i. Inl JpegEncodeError)\<rparr>\<lparr>http_get := (\<lambda>u. Inl ConnectionError)\<rparr>) [''h''] ''https://x.org/a/photo-1?w=3'' \<lparr>fs_dirs = [[], [''h''], [''h'', ''images'']], fs_files = []\<rparr> = Inl ConnectionError"
proof -
  have "http_get (\<lparr>http_get = (\<lambda>u. Inr \<lparr>status_code = 404, content = [78, 70]\<rparr>), pil_open = (\<lambda>b. Inl UnidentifiedImageError), pil_blur = (\<lambda>r i. i), pil_resize = (\<lambda>sz i. i), pil_jpeg = (\<lambda>i. Inl JpegEncodeError)\<rparr>\<lparr>http_get := (\<lambda>u. Inl ConnectionError)\<rparr>) ''https://x.org/a/photo-1?w=3'' = Inl ConnectionError" by simp
  from download_image_network_error [OF this] show ?thesis .
qed

theorem download_stage_deterministic_witness:
  "fs_abs (executor_map (task_of (download_image \<lparr>http_get = (\<lambda>u. Inr \<lparr>status_code = 200, content = (if u = ''https://a.org/x'' then [1] else [2])\<rparr>), pil_open = (\<lambda>b. Inl UnidentifiedImageError), pil_blur = (\<lambda>r i. i), pil_resize = (\<lambda>sz i. i), pil_jpeg = (\<lambda>i. Inl JpegEncodeError)\<rparr> [''h''])) [''https://a.org/p1'', ''https://a.org/p2''] \<lparr>fs_dirs = [[], [''h''], [''h'', ''images'']], fs_files = []\<rparr>) =
   fs_abs (executor_map (task_of (download_image \<lparr>http_get = (\<lambda>u. Inr \<lparr>status_code = 200, content = (if u = ''https://a.org/x'' then [1] else [2])\<rparr>), pil_open = (\<lambda>b. Inl UnidentifiedImageError), pil_blur = (\<lambda>r i. i), pil_resize = (\<lambda>sz i. i), pil_jpeg = (\<lambda>i. Inl JpegEncodeError)\<rparr> [''h''])) (rev [''https://a.org/p1'', ''https://a.org/p2'']) \<lparr>fs_dirs = [[], [''h''], [''h'', ''images'']], fs_files = []\<rparr>)"
proof -
  have wf: "fs_wf \<lparr>fs_dirs = [[], [''h''], [''h'', ''images'']], fs_files = []\<rparr>" by code_simp
  have inj: "\<forall>u\<in>set [''https://a.org/p1'', ''https://a.org/p2'']. \<forall>v\<in>set [''https://a.org/p1'', ''https://a.org/p2''].
      img_name u = img_name v \<longrightarrow> u = v" by code_simp
  obtain es' where run: "(pool_step (task_of (download_image \<lparr>http_get = (\<lambda>u. Inr \<lparr>status_code = 200, content = (if u = ''https://a.org/x'' then [1] else [2])\<rparr>), pil_open = (\<lambda>b. Inl UnidentifiedImageError), pil_blur = (\<lambda>r i. i), pil_resize = (\<lambda>sz i. i), pil_jpeg = (\<lambda>i. Inl JpegEncodeError)\<rparr> [''h''])))\<^sup>*\<^sup>* ([''https://a.org/p1'', ''https://a.org/p2''], \<lparr>fs_dirs = [[], [''h''], [''h'', ''images'']], fs_files = []\<rparr>, [])
      ([], executor_map (task_of (download_image \<lparr>http_get = (\<lambda>u. Inr \<lparr>status_code = 200, content = (if u = ''https://a.org/x'' then [1] else [2])\<rparr>), pil_open = (\<lambda>b. Inl UnidentifiedImageError), pil_blur = (\<lambda>r i. i), pil_resize = (\<lambda>sz i. i), pil_jpeg = (\<lambda>i. Inl JpegEncodeError)\<rparr> [''h''])) (rev [''https://a.org/p1'', ''https://a.org/p2'']) \<lparr>fs_dirs = [[], [''h''], [''h'', ''images'']], fs_files = []\<rparr>, es')"
    using pool_any_order [of "rev [''https://a.org/p1'', ''https://a.org/p2'']" "[''https://a.org/p1'', ''https://a.org/p2'']"]
    by fastforce
  from download_stage_deterministic [OF wf inj run] show ?thesis by simp
qed

theorem IMAGE_URLS_stage_deterministic_witness:
  "fs_abs (executor_map (task_of (download_image \<lparr>http_get = (\<lambda>u. Inr \<lparr>status_code = 200, content = (if u = ''https://a.org/x'' then [1] else [2])\<rparr>), pil_open = (\<lambda>b. Inl UnidentifiedImageError), pil_blur = (\<lambda>r i. i), pil_resize = (\<lambda>sz i. i), pil_jpeg = (\<lambda>i. Inl JpegEncodeError)\<rparr> [''h''])) (rev IMAGE_URLS) \<lparr>fs_dirs = [[], [''h''], [''h'', ''images'']], fs_files = []\<rparr>) = fs_abs (executor_map (task_of (download_image \<lparr>http_get = (\<lambda>u. Inr \<lparr>status_code = 200, content = (if u = ''https://a.org/x'' then [1] else [2])\<rparr>), pil_open = (\<lambda>b. Inl UnidentifiedImageError), pil_blur = (\<lambda>r i. i), pil_resize = (\<lambda>sz i. i), pil_jpeg = (\<lambda>i. Inl JpegEncodeError)\<rparr> [''h''])) IMAGE_URLS \<lparr>fs_dirs = [[], [''h''], [''h'', ''images'']], fs_files = []\<rparr>)"
proof -
  have wf: "fs_wf \<lparr>fs_dirs = [[], [''h''], [''h'', ''images'']], fs_files = []\<rparr>" by code_simp
  obtain es' where run: "(pool_step (task_of (download_image \<lparr>http_get = (\<lambda>u. Inr \<lparr>status_code = 200, content = (if u = ''https://a.org/x'' then [1] else [2])\<rparr>), pil_open = (\<lambda>b. Inl UnidentifiedImageError), pil_blur = (\<lambda>r i. i), pil_resize = (\<lambda>sz i. i), pil_jpeg = (\<lambda>i. Inl JpegEncodeError)\<rparr> [''h''])))\<^sup>*\<^sup>* (IMAGE_URLS, \<lparr>fs_dirs = [[], [''h''], [''h'', ''images'']], fs_files = []\<rparr>, []) ([], executor_map (task_of (download_image \<lparr>http_get = (\<lambda>u. Inr \<lparr>status_code = 200, content = (if u = ''https://a.org/x'' then [1] else [2])\<rparr>), pil_open = (\<lambda>b. Inl UnidentifiedImageError), pil_blur = (\<lambda>r i. i), pil_resize = (\<lambda>sz i. i), pil_jpeg = (\<lambda>i. Inl JpegEncodeError)\<rparr> [''h''])) (rev IMAGE_URLS) \<lparr>fs_dirs = [[], [''h''], [''h'', ''images'']], fs_files = []\<rparr>, es')"
    using pool_any_order [of "rev IMAGE_URLS" IMAGE_URLS] by fastforce
  from IMAGE_URLS_stage_deterministic [OF wf run] show ?thesis .
qed

end
