(* ===== verification/Thumbnail.thy ===== *)
theory Thumbnail
  imports World
begin

text \<open>
  The size computation of PIL's \<^verbatim>\<open>Image.thumbnail(size)\<close>, which
  \<^verbatim>\<open>process_image\<close> calls with \<^verbatim>\<open>(300, 300)\<close> (line 73). It is library code, modelled
  from Pillow's \<^verbatim>\<open>preserve_aspect_ratio\<close>:
  \<^verbatim>\<open>
    def round_aspect(number, key):
        return max(min(math.floor(number), math.ceil(number), key=key), 1)
    x, y = provided_size
    if x >= self.width and y >= self.height: return None
    aspect = self.width / self.height
    if x / y >= aspect:
        x = round_aspect(y * aspect, key=lambda n: abs(aspect - n / y))
    else:
        y = round_aspect(x / aspect, key=lambda n: 0 if n == 0 else abs(aspect - x / n))
    return x, y
  \<close>
  Python's float division is modelled by exact rational division: the model is the
  mathematical intent, and cases where a float rounding error flips a comparison are not
  covered. \<^verbatim>\<open>None\<close> means the image already fits and is left as it is; otherwise the
  image is resampled to the returned size. The theorems: the result fits the box, is at
  least one pixel, never exceeds the original, and keeps the aspect ratio within one pixel.
\<close>

text \<open>Python's \<^verbatim>\<open>min(a, b, key=k)\<close>: the first argument unless the second is strictly smaller.\<close>

definition py_min_key :: "('a \<Rightarrow> 'k::linorder) \<Rightarrow> 'a \<Rightarrow> 'a \<Rightarrow> 'a" where
  "py_min_key key a b = (if key b < key a then b else a)"

definition round_aspect :: "rat \<Rightarrow> (int \<Rightarrow> rat) \<Rightarrow> int" where
  "round_aspect number key = max (py_min_key key \<lfloor>number\<rfloor> \<lceil>number\<rceil>) 1"

definition preserve_aspect_ratio :: "nat \<times> nat \<Rightarrow> nat \<times> nat \<Rightarrow> py_error + (nat \<times> nat) option" where
  "preserve_aspect_ratio provided wh =
     (case provided of (x, y) \<Rightarrow> case wh of (w, h) \<Rightarrow>
        if w \<le> x \<and> h \<le> y then Inr None
        else if h = 0 then Inl ZeroDivisionError
        else if y = 0 then Inl ZeroDivisionError
        else
          (let aspect = (of_nat w / of_nat h :: rat) in
           if aspect \<le> of_nat x / of_nat y then
             Inr (Some (nat (round_aspect (of_nat y * aspect) (\<lambda>n. \<bar>aspect - of_int n / of_nat y\<bar>)), y))
           else
             Inr (Some (x, nat (round_aspect (of_nat x / aspect)
                          (\<lambda>n. if n = 0 then 0 else \<bar>aspect - of_nat x / of_int n\<bar>))))))"

text \<open>\<^verbatim>\<open>img.thumbnail(size)\<close>: resample to the preserved size when it differs.\<close>

definition thumbnail :: "world \<Rightarrow> nat \<times> nat \<Rightarrow> image \<Rightarrow> py_error + image" where
  "thumbnail W box img =
     (case preserve_aspect_ratio box (img_w img, img_h img) of
        Inl e \<Rightarrow> Inl e
      | Inr None \<Rightarrow> Inr img
      | Inr (Some sz) \<Rightarrow> Inr (if img_size img = sz then img else pil_resize W sz img))"

section \<open>Rounding\<close>

lemma round_aspect_cases:
  "round_aspect v key = max \<lfloor>v\<rfloor> 1 \<or> round_aspect v key = max \<lceil>v\<rceil> 1"
  by (auto simp: round_aspect_def py_min_key_def)

lemma round_aspect_ge_1: "1 \<le> round_aspect v key"
  by (simp add: round_aspect_def)

lemma round_aspect_nonneg: "0 \<le> round_aspect v key"
  using round_aspect_ge_1 [of v key] by linarith

lemma round_aspect_le:
  assumes "v \<le> of_int m" "1 \<le> m"
  shows "round_aspect v key \<le> m"
proof -
  have "\<lceil>v\<rceil> \<le> m" using assms(1) by (simp add: ceiling_le_iff)
  moreover have "\<lfloor>v\<rfloor> \<le> \<lceil>v\<rceil>" by (rule floor_le_ceiling)
  ultimately have "\<lfloor>v\<rfloor> \<le> m" by linarith
  with \<open>\<lceil>v\<rceil> \<le> m\<close> show ?thesis using round_aspect_cases [of v key] assms(2) by auto
qed

lemma round_aspect_close:
  assumes "0 < v"
  shows "\<bar>of_int (round_aspect v key) - v\<bar> < 1"
proof -
  have f: "v - 1 < of_int \<lfloor>v\<rfloor>" "of_int \<lfloor>v\<rfloor> \<le> v" by linarith+
  have c: "v \<le> of_int \<lceil>v\<rceil>" "of_int \<lceil>v\<rceil> < v + 1" by linarith+
  consider "round_aspect v key = max \<lfloor>v\<rfloor> 1" | "round_aspect v key = max \<lceil>v\<rceil> 1"
    using round_aspect_cases by blast
  then show ?thesis
  proof cases
    case 1
    show ?thesis
    proof (cases "1 \<le> \<lfloor>v\<rfloor>")
      case True
      with 1 have "round_aspect v key = \<lfloor>v\<rfloor>" by simp
      with f show ?thesis by (simp add: abs_less_iff)
    next
      case False
      with 1 have "round_aspect v key = 1" by simp
      moreover from False have "v < 1" by (simp add: floor_less_iff)
      ultimately show ?thesis using assms by (simp add: abs_less_iff)
    qed
  next
    case 2
    from assms have "1 \<le> \<lceil>v\<rceil>" by (simp add: le_ceiling_iff)
    with 2 have "round_aspect v key = \<lceil>v\<rceil>" by simp
    with c show ?thesis by (simp add: abs_less_iff)
  qed
qed

section \<open>Arithmetic on the aspect ratio\<close>

lemma frac_le_cross:
  "0 < h \<Longrightarrow> 0 < y \<Longrightarrow> (of_nat w / of_nat h \<le> (of_nat x / of_nat y :: rat)) = (w * y \<le> x * h)"
proof -
  assume h: "0 < h" and y: "0 < y"
  have "(of_nat w / of_nat h \<le> (of_nat x / of_nat y :: rat)) =
        (of_nat w * of_nat y \<le> (of_nat x * of_nat h :: rat))"
    using h y by (simp add: divide_le_eq le_divide_eq field_simps)
  also have "\<dots> = (w * y \<le> x * h)" by (simp only: of_nat_mult [symmetric] of_nat_le_iff)
  finally show ?thesis .
qed

lemma frac_le_nat:
  "0 < d \<Longrightarrow> n \<le> m * d \<Longrightarrow> (of_nat n / of_nat d :: rat) \<le> of_int (int m)"
proof -
  assume d: "0 < d" and le: "n \<le> m * d"
  then have "(of_nat n :: rat) \<le> of_nat m * of_nat d" by (simp only: of_nat_mult [symmetric] of_nat_le_iff)
  with d show ?thesis by (simp add: divide_le_eq)
qed

lemma frac_close_int:
  assumes d: "0 < d" and close: "\<bar>of_int r - of_nat n / of_nat d\<bar> < (1 :: rat)"
  shows "\<bar>r * int d - int n\<bar> < int d"
proof -
  have "\<bar>(of_int r - of_nat n / of_nat d) * of_nat d\<bar> < (of_nat d :: rat)"
    using close d by (simp add: abs_mult)
  moreover have "(of_int r - of_nat n / of_nat d) * of_nat d = (of_int (r * int d - int n) :: rat)"
    using d by (simp add: field_simps)
  ultimately have "\<bar>of_int (r * int d - int n)\<bar> < (of_int (int d) :: rat)" by simp
  then show ?thesis by (simp only: of_int_abs [symmetric] of_int_less_iff)
qed

lemma preserve_aspect_ratio_SomeE:
  assumes "preserve_aspect_ratio (x, y) (w, h) = Inr (Some (w', h'))"
  obtains (wide_box) "0 < h" "0 < y" "\<not> (w \<le> x \<and> h \<le> y)" "w * y \<le> x * h" "h' = y"
      "int w' = round_aspect (of_nat y * (of_nat w / of_nat h)) (\<lambda>n. \<bar>of_nat w / of_nat h - of_int n / of_nat y\<bar>)"
  | (tall_box) "0 < h" "0 < y" "\<not> (w \<le> x \<and> h \<le> y)" "x * h < w * y" "w' = x"
      "int h' = round_aspect (of_nat x / (of_nat w / of_nat h))
                  (\<lambda>n. if n = 0 then 0 else \<bar>of_nat w / of_nat h - of_nat x / of_int n\<bar>)"
proof -
  from assms have h: "0 < h" and y: "0 < y" and big: "\<not> (w \<le> x \<and> h \<le> y)"
    by (auto simp: preserve_aspect_ratio_def split: if_splits)
  show ?thesis
  proof (cases "w * y \<le> x * h")
    case True
    with assms h y big show ?thesis
      by (intro wide_box) (auto simp: preserve_aspect_ratio_def frac_le_cross Let_def round_aspect_nonneg)
  next
    case False
    with assms h y big show ?thesis
      by (intro tall_box) (auto simp: preserve_aspect_ratio_def frac_le_cross Let_def round_aspect_nonneg)
  qed
qed

lemma wide_box_taller:
  "0 < (y :: nat) \<Longrightarrow> \<not> (w \<le> x \<and> h \<le> y) \<Longrightarrow> w * y \<le> x * h \<Longrightarrow> y < h"
proof (rule ccontr)
  assume y: "0 < y" and big: "\<not> (w \<le> x \<and> h \<le> y)" and le: "w * y \<le> x * h" and n: "\<not> y < h"
  from n have hy: "h \<le> y" by simp
  with big have "x < w" by simp
  with y have "x * y < w * y" by simp
  moreover from hy have "x * h \<le> x * y" by simp
  ultimately show False using le by linarith
qed

lemma tall_box_wider:
  "0 < (x :: nat) \<Longrightarrow> \<not> (w \<le> x \<and> h \<le> y) \<Longrightarrow> x * h < w * y \<Longrightarrow> x < w"
proof (rule ccontr)
  assume x: "0 < x" and big: "\<not> (w \<le> x \<and> h \<le> y)" and lt: "x * h < w * y" and n: "\<not> x < w"
  from n have wx: "w \<le> x" by simp
  with big have "y < h" by simp
  with x have "x * y < x * h" by simp
  moreover from wx have "w * y \<le> x * y" by simp
  ultimately show False using lt by linarith
qed

lemma wide_box_value: "of_nat y * (of_nat w / of_nat h) = (of_nat (y * w) / of_nat h :: rat)"
  by simp

lemma tall_box_value:
  "0 < h \<Longrightarrow> 0 < w \<Longrightarrow> of_nat x / (of_nat w / of_nat h) = (of_nat (x * h) / of_nat w :: rat)"
  by (simp add: field_simps)

section \<open>The thumbnail box\<close>

text \<open>
  A computed thumbnail size fits the box, is at least one pixel in each direction and
  never exceeds the original image.
\<close>

lemma preserve_aspect_ratio_bounds:
  assumes r: "preserve_aspect_ratio (x, y) (w, h) = Inr (Some (w', h'))"
    and x: "0 < x" and w: "0 < w"
  shows "1 \<le> w' \<and> w' \<le> x \<and> 1 \<le> h' \<and> h' \<le> y \<and> w' \<le> w \<and> h' \<le> h"
  using r
proof (cases rule: preserve_aspect_ratio_SomeE)
  case wide_box
  have yh: "y < h" using wide_box_taller [OF wide_box(2,3,4)] .
  let ?v = "of_nat y * (of_nat w / of_nat h) :: rat"
  have "?v \<le> of_int (int x)"
    unfolding wide_box_value using wide_box(1,4) by (intro frac_le_nat) (simp_all add: mult.commute)
  then have "int w' \<le> int x" using wide_box(6) x by (simp add: round_aspect_le)
  moreover have "?v \<le> of_int (int w)"
    unfolding wide_box_value using wide_box(1) yh by (intro frac_le_nat) (simp_all add: mult.commute)
  then have "int w' \<le> int w" using wide_box(6) w by (simp add: round_aspect_le)
  moreover have "1 \<le> int w'" using wide_box(6) by (simp add: round_aspect_ge_1)
  ultimately show ?thesis using wide_box(2,5) yh by simp
next
  case tall_box
  have xw: "x < w" using tall_box_wider [OF x tall_box(3,4)] .
  let ?v = "of_nat x / (of_nat w / of_nat h) :: rat"
  have "?v \<le> of_int (int y)"
    unfolding tall_box_value [OF tall_box(1) w] using w tall_box(4) by (intro frac_le_nat) (simp_all add: mult.commute)
  then have "int h' \<le> int y" using tall_box(6) tall_box(2) by (simp add: round_aspect_le)
  moreover have "?v \<le> of_int (int h)"
    unfolding tall_box_value [OF tall_box(1) w] using w xw by (intro frac_le_nat) (simp_all add: mult.commute)
  then have "int h' \<le> int h" using tall_box(6) tall_box(1) by (simp add: round_aspect_le)
  moreover have "1 \<le> int h'" using tall_box(6) by (simp add: round_aspect_ge_1)
  ultimately show ?thesis using tall_box(5) x xw by simp
qed

text \<open>
  A computed thumbnail size keeps the original aspect ratio to within one pixel:
  \<open>|w' h - h' w| < max w h\<close>, i.e. the scaled side is less than one pixel from
  the exact \<open>y w / h\<close> (or \<open>x h / w\<close>).
\<close>

lemma preserve_aspect_ratio_aspect:
  assumes r: "preserve_aspect_ratio (x, y) (w, h) = Inr (Some (w', h'))"
    and x: "0 < x" and w: "0 < w"
  shows "\<bar>int w' * int h - int h' * int w\<bar> < int (max w h)"
  using r
proof (cases rule: preserve_aspect_ratio_SomeE)
  case wide_box
  have "0 < (of_nat (y * w) / of_nat h :: rat)" using wide_box(1,2) w by simp
  then have "\<bar>of_int (int w') - of_nat (y * w) / of_nat h\<bar> < (1 :: rat)"
    using round_aspect_close wide_box(6) by (simp only: wide_box_value)
  then have "\<bar>int w' * int h - int (y * w)\<bar> < int h"
    using wide_box(1) by (rule frac_close_int [rotated])
  then show ?thesis using wide_box(5) by (simp add: mult.commute)
next
  case tall_box
  have "0 < (of_nat (x * h) / of_nat w :: rat)" using tall_box(1) x w by simp
  then have "\<bar>of_int (int h') - of_nat (x * h) / of_nat w\<bar> < (1 :: rat)"
    using round_aspect_close tall_box(6) by (simp only: tall_box_value [OF tall_box(1) w])
  then have "\<bar>int h' * int w - int (x * h)\<bar> < int w"
    using w by (rule frac_close_int [rotated])
  then show ?thesis using tall_box(5) by (simp add: abs_minus_commute mult.commute)
qed

lemma preserve_aspect_ratio_None:
  "preserve_aspect_ratio (x, y) (w, h) = Inr None \<Longrightarrow> w \<le> x \<and> h \<le> y"
  by (auto simp: preserve_aspect_ratio_def Let_def split: if_splits)

lemma thumbnail_cases:
  assumes "pil_ok W" "thumbnail W box img = Inr img'"
  obtains (fits) "preserve_aspect_ratio box (img_w img, img_h img) = Inr None" "img' = img"
    | (scaled) w' h' where "preserve_aspect_ratio box (img_w img, img_h img) = Inr (Some (w', h'))"
        "img_w img' = w'" "img_h img' = h'"
proof (cases "preserve_aspect_ratio box (img_w img, img_h img)")
  case (Inl e)
  with assms(2) show ?thesis by (simp add: thumbnail_def)
next
  case (Inr r)
  show ?thesis
  proof (cases r)
    case None
    with Inr assms(2) show ?thesis by (intro fits) (simp_all add: thumbnail_def)
  next
    case (Some sz)
    obtain w' h' where sz: "sz = (w', h')" by fastforce
    have "img_size img' = (w', h')"
      using assms Inr Some sz pil_okD(2) [OF assms(1), of "(w', h')" img]
      by (auto simp: thumbnail_def split: if_splits)
    with Inr Some sz show ?thesis by (intro scaled) (simp_all add: img_size_def)
  qed
qed

lemma thumbnail_shrinks:
  assumes ok: "pil_ok W" and w: "0 < img_w img" and h: "0 < img_h img"
    and x: "0 < x" and t: "thumbnail W (x, y) img = Inr img'"
  shows "1 \<le> img_w img' \<and> img_w img' \<le> x \<and> 1 \<le> img_h img' \<and> img_h img' \<le> y \<and>
         img_w img' \<le> img_w img \<and> img_h img' \<le> img_h img \<and>
         \<bar>int (img_w img') * int (img_h img) - int (img_h img') * int (img_w img)\<bar>
           < int (max (img_w img) (img_h img))"
  using ok t
proof (cases rule: thumbnail_cases)
  case fits
  with w h show ?thesis using preserve_aspect_ratio_None [OF fits(1)] by simp
next
  case (scaled w' h')
  with preserve_aspect_ratio_bounds [OF scaled(1) x w] preserve_aspect_ratio_aspect [OF scaled(1) x w]
  show ?thesis by simp
qed

lemma thumbnail_Inr:
  "0 < img_h img \<Longrightarrow> 0 < y \<Longrightarrow> \<exists>img'. thumbnail W (x, y) img = Inr img'"
  by (auto simp: thumbnail_def preserve_aspect_ratio_def Let_def split: sum.split option.split)

section \<open>The thumbnail of \<^verbatim>\<open>process_image\<close>\<close>

text \<open>
  C11: for a non-empty image, \<^verbatim>\<open>img.thumbnail((300, 300))\<close> yields an image of at most
  300 by 300 and at least 1 by 1 pixels that is never larger than the original.
\<close>

theorem thumbnail_box:
  assumes ok: "pil_ok W" and w: "0 < img_w img" and h: "0 < img_h img"
    and t: "thumbnail W (300, 300) img = Inr img'"
  shows "1 \<le> img_w img' \<and> img_w img' \<le> 300 \<and> 1 \<le> img_h img' \<and> img_h img' \<le> 300 \<and>
         img_w img' \<le> img_w img \<and> img_h img' \<le> img_h img"
  using thumbnail_shrinks [OF ok w h _ t] by simp

text \<open>
  C12: \<^verbatim>\<open>img.thumbnail((300, 300))\<close> keeps the aspect ratio of a non-empty image to
  within one pixel: \<open>|w' h - h' w| < max w h\<close>.
\<close>

theorem thumbnail_aspect:
  assumes ok: "pil_ok W" and w: "0 < img_w img" and h: "0 < img_h img"
    and t: "thumbnail W (300, 300) img = Inr img'"
  shows "\<bar>int (img_w img') * int (img_h img) - int (img_h img') * int (img_w img)\<bar>
           < int (max (img_w img) (img_h img))"
  using thumbnail_shrinks [OF ok w h _ t] by simp

section \<open>Witnesses\<close>

theorem thumbnail_box_witness:
  "thumbnail (\<lparr>http_get = (\<lambda>u. Inl ConnectionError), pil_open = (\<lambda>b. Inr \<lparr>img_w = 641, img_h = 400, img_mode = ''RGB'', img_pixels = b\<rparr>), pil_blur = (\<lambda>r i. i), pil_resize = (\<lambda>sz i. i\<lparr>img_w := fst sz, img_h := snd sz\<rparr>), pil_jpeg = (\<lambda>i. Inl JpegEncodeError)\<rparr>) (300, 300) \<lparr>img_w = 641, img_h = 400, img_mode = ''RGB'', img_pixels = []\<rparr> = Inr (\<lparr>img_w = 641, img_h = 400, img_mode = ''RGB'', img_pixels = []\<rparr>\<lparr>img_w := 300, img_h := 187\<rparr>) \<and>
   1 \<le> (300 :: nat) \<and> (300 :: nat) \<le> 300 \<and> 1 \<le> (187 :: nat) \<and> (187 :: nat) \<le> 300 \<and>
   (300 :: nat) \<le> 641 \<and> (187 :: nat) \<le> 400"
proof -
  have ok: "pil_ok (\<lparr>http_get = (\<lambda>u. Inl ConnectionError), pil_open = (\<lambda>b. Inr \<lparr>img_w = 641, img_h = 400, img_mode = ''RGB'', img_pixels = b\<rparr>), pil_blur = (\<lambda>r i. i), pil_resize = (\<lambda>sz i. i\<lparr>img_w := fst sz, img_h := snd sz\<rparr>), pil_jpeg = (\<lambda>i. Inl JpegEncodeError)\<rparr>)" by (simp add: pil_ok_def img_size_def)
  have t: "thumbnail (\<lparr>http_get = (\<lambda>u. Inl ConnectionError), pil_open = (\<lambda>b. Inr \<lparr>img_w = 641, img_h = 400, img_mode = ''RGB'', img_pixels = b\<rparr>), pil_blur = (\<lambda>r i. i), pil_resize = (\<lambda>sz i. i\<lparr>img_w := fst sz, img_h := snd sz\<rparr>), pil_jpeg = (\<lambda>i. Inl JpegEncodeError)\<rparr>) (300, 300) \<lparr>img_w = 641, img_h = 400, img_mode = ''RGB'', img_pixels = []\<rparr> = Inr (\<lparr>img_w = 641, img_h = 400, img_mode = ''RGB'', img_pixels = []\<rparr>\<lparr>img_w := 300, img_h := 187\<rparr>)" by code_simp
  show ?thesis using thumbnail_box [OF ok _ _ t] t by simp
qed

theorem thumbnail_aspect_witness:
  "thumbnail (\<lparr>http_get = (\<lambda>u. Inl ConnectionError), pil_open = (\<lambda>b. Inr \<lparr>img_w = 641, img_h = 400, img_mode = ''RGB'', img_pixels = b\<rparr>), pil_blur = (\<lambda>r i. i), pil_resize = (\<lambda>sz i. i\<lparr>img_w := fst sz, img_h := snd sz\<rparr>), pil_jpeg = (\<lambda>i. Inl JpegEncodeError)\<rparr>) (300, 300) \<lparr>img_w = 641, img_h = 400, img_mode = ''RGB'', img_pixels = []\<rparr> = Inr (\<lparr>img_w = 641, img_h = 400, img_mode = ''RGB'', img_pixels = []\<rparr>\<lparr>img_w := 300, img_h := 187\<rparr>) \<and>
   \<bar>int 300 * int 400 - int 187 * int 641\<bar> < int (max 641 400)"
proof -
  have ok: "pil_ok (\<lparr>http_get = (\<lambda>u. Inl ConnectionError), pil_open = (\<lambda>b. Inr \<lparr>img_w = 641, img_h = 400, img_mode = ''RGB'', img_pixels = b\<rparr>), pil_blur = (\<lambda>r i. i), pil_resize = (\<lambda>sz i. i\<lparr>img_w := fst sz, img_h := snd sz\<rparr>), pil_jpeg = (\<lambda>i. Inl JpegEncodeError)\<rparr>)" by (simp add: pil_ok_def img_size_def)
  have t: "thumbnail (\<lparr>http_get = (\<lambda>u. Inl ConnectionError), pil_open = (\<lambda>b. Inr \<lparr>img_w = 641, img_h = 400, img_mode = ''RGB'', img_pixels = b\<rparr>), pil_blur = (\<lambda>r i. i), pil_resize = (\<lambda>sz i. i\<lparr>img_w := fst sz, img_h := snd sz\<rparr>), pil_jpeg = (\<lambda>i. Inl JpegEncodeError)\<rparr>) (300, 300) \<lparr>img_w = 641, img_h = 400, img_mode = ''RGB'', img_pixels = []\<rparr> = Inr (\<lparr>img_w = 641, img_h = 400, img_mode = ''RGB'', img_pixels = []\<rparr>\<lparr>img_w := 300, img_h := 187\<rparr>)" by code_simp
  show ?thesis using thumbnail_aspect [OF ok _ _ t] t by simp
qed

end
