(* ===== verification/Transformer.thy ===== *)
theory Transformer
  imports Fetcher Thumbnail "HOL-Library.Sublist" "HOL-Library.Char_ord"
begin

text \<open>
  The Transformer of \<^verbatim>\<open>src/main.py\<close>: the listing
  \<^verbatim>\<open>glob.glob(os.path.join(IMAGE_FOLDER, "*.jpg"))\<close> (line 88) and
  \<^verbatim>\<open>process_image\<close> (lines 62--76), which opens one stored image, blurs it
  (\<^verbatim>\<open>GaussianBlur(radius=15)\<close>), shrinks it with \<^verbatim>\<open>thumbnail((300, 300))\<close> and saves
  it as JPEG under \<^verbatim>\<open>PROCESSED_FOLDER/thumb_<name>\<close>.

  The pattern is \<^verbatim>\<open>IMAGE_FOLDER\<close> pasted unescaped before \<^verbatim>\<open>/*.jpg\<close>, so a
  \<^verbatim>\<open>*\<close>, \<^verbatim>\<open>?\<close> or \<^verbatim>\<open>[\<close> in the working directory is a wildcard too. The model
  follows Python's \<^verbatim>\<open>glob\<close> module component by component (\<open>py_glob\<close>): the
  components before the first one with a wildcard (\<open>has_magic\<close>) are taken literally;
  a later literal component must exist (\<^verbatim>\<open>_glob0\<close>); a component with a wildcard is
  matched with \<^verbatim>\<open>fnmatch\<close> against the entries of each directory reached so far,
  directories only before the last component, hidden names skipped unless the pattern
  component starts with a dot (\<^verbatim>\<open>_glob1\<close>). \<open>fnmatch\<close> is
  \<^verbatim>\<open>fnmatch.translate\<close>: \<^verbatim>\<open>*\<close> any string, \<^verbatim>\<open>?\<close> one character,
  \<^verbatim>\<open>[...]\<close> a class (\<^verbatim>\<open>!\<close> negates, \<^verbatim>\<open>a-z\<close> is a range, a \<^verbatim>\<open>]\<close> right after
  the bracket is literal, a descending range matches nothing), and an unclosed
  \<^verbatim>\<open>[\<close> is literal. The listing order of a real directory is not specified; here it
  is the store's order, and the stage theorems do not depend on it.

  \<^verbatim>\<open>img.filter(GaussianBlur(15))\<close> raises \<^verbatim>\<open>ValueError\<close> unless the image mode is one
  Pillow's box blur accepts (\<open>BLUR_MODES\<close>; a palette image is refused by
  \<^verbatim>\<open>Image.filter\<close> itself); the pixel arithmetic is the world's \<open>pil_blur\<close>.
  PIL's \<^verbatim>\<open>save\<close> opens the target with \<^verbatim>\<open>"w+b"\<close> before encoding; when the encoder
  raises it removes the file if \<^verbatim>\<open>save\<close> created it and leaves it truncated otherwise.
  A failing \<^verbatim>\<open>process_image\<close> therefore returns a store as well as its exception.
\<close>

definition is_hidden :: "string \<Rightarrow> bool" where
  "is_hidden name \<longleftrightarrow> (case name of [] \<Rightarrow> False | c # _ \<Rightarrow> c = CHR ''.'')"

text \<open>\<^verbatim>\<open>os.scandir(d)\<close>: the entries directly inside \<open>d\<close>.\<close>

definition listdir :: "fs \<Rightarrow> path \<Rightarrow> path list" where
  "listdir fs d =
     [q \<leftarrow> fs_dirs fs. q \<noteq> [] \<and> butlast q = d] @ [q \<leftarrow> map fst (fs_files fs). q \<noteq> [] \<and> butlast q = d]"

text \<open>\<^verbatim>\<open>glob.has_magic\<close>: the component holds a wildcard character.\<close>

definition has_magic :: "string \<Rightarrow> bool" where
  "has_magic s \<longleftrightarrow> (\<exists>c \<in> set s. c \<in> set ''*?['')"

text \<open>The items of a character class: single characters and ranges \<^verbatim>\<open>x-z\<close>, read left to right.\<close>

fun class_items :: "string \<Rightarrow> char \<Rightarrow> bool" where
  "class_items [] c = False"
| "class_items (x # y # z # rest) c =
     (if y = CHR ''-'' then (x \<le> c \<and> c \<le> z) \<or> class_items rest c
      else x = c \<or> class_items (y # z # rest) c)"
| "class_items (x # rest) c = (x = c \<or> class_items rest c)"

definition class_match :: "string \<Rightarrow> char \<Rightarrow> bool" where
  "class_match body c =
     (if body \<noteq> [] \<and> hd body = CHR ''!'' then \<not> class_items (tl body) c else class_items body c)"

text \<open>
  The scan of \<^verbatim>\<open>fnmatch.translate\<close> after a \<^verbatim>\<open>[\<close>: skip a \<^verbatim>\<open>!\<close>, then a \<^verbatim>\<open>]\<close>,
  then up to the next \<^verbatim>\<open>]\<close>; the class body and the rest of the pattern, or nothing
  when the bracket is not closed.
\<close>

definition split_class :: "string \<Rightarrow> (string \<times> string) option" where
  "split_class p =
     (let k0 = (if p \<noteq> [] \<and> hd p = CHR ''!'' then 1 else 0);
          k1 = (if k0 < length p \<and> p ! k0 = CHR '']'' then Suc k0 else k0);
          j = k1 + length (takeWhile (\<lambda>c. c \<noteq> CHR '']'') (drop k1 p)) in
      if j < length p then Some (take j p, drop (Suc j) p) else None)"

text \<open>\<^verbatim>\<open>fnmatch.fnmatchcase(name, pat)\<close>: the whole name matches the pattern.\<close>

function fnmatch :: "string \<Rightarrow> string \<Rightarrow> bool" where
  "fnmatch s [] = (s = [])"
| "fnmatch s (c # p) =
     (if c = CHR ''*'' then fnmatch s p \<or> (case s of [] \<Rightarrow> False | x # s' \<Rightarrow> fnmatch s' (c # p))
      else case s of
        [] \<Rightarrow> False
      | x # s' \<Rightarrow>
          (if c = CHR ''?'' then fnmatch s' p
           else if c = CHR ''['' then
             (case split_class p of
                None \<Rightarrow> x = c \<and> fnmatch s' p
              | Some (b, r) \<Rightarrow> class_match b x \<and> fnmatch s' r)
           else x = c \<and> fnmatch s' p))"
  by pat_completeness auto
termination
  by (relation "measures [\<lambda>(s, p). length p, \<lambda>(s, p). length s]")
     (auto simp: split_class_def Let_def split: if_splits)

declare fnmatch.simps(2) [simp del]

text \<open>
  \<^verbatim>\<open>glob._listdir\<close> and \<^verbatim>\<open>glob._glob1\<close>/\<^verbatim>\<open>_glob0\<close>: the names of the entries of
  \<open>d\<close> (directories only when \<open>dironly\<close>), and the matches of one pattern component.
\<close>

definition glob_names :: "fs \<Rightarrow> bool \<Rightarrow> path \<Rightarrow> string list" where
  "glob_names fs dironly d = map last [q \<leftarrow> listdir fs d. \<not> dironly \<or> is_dir fs q]"

definition glob_in :: "fs \<Rightarrow> bool \<Rightarrow> path \<Rightarrow> string \<Rightarrow> path list" where
  "glob_in fs dironly d pat =
     (if has_magic pat then
        [d @ [n]. n \<leftarrow> glob_names fs dironly d, (is_hidden pat \<or> \<not> is_hidden n) \<and> fnmatch n pat]
      else if is_dir fs (d @ [pat]) \<or> is_file fs (d @ [pat]) then [d @ [pat]] else [])"

text \<open>\<^verbatim>\<open>glob._iglob\<close>, unrolled from the first component with a wildcard.\<close>

fun glob_expand :: "fs \<Rightarrow> path list \<Rightarrow> string list \<Rightarrow> path list" where
  "glob_expand fs ds [] = ds"
| "glob_expand fs ds (c # cs) = glob_expand fs (concat (map (\<lambda>d. glob_in fs (cs \<noteq> []) d c) ds)) cs"

definition py_glob :: "fs \<Rightarrow> string list \<Rightarrow> path list" where
  "py_glob fs pat =
     (let lit = takeWhile (\<lambda>c. \<not> has_magic c) pat; rest = dropWhile (\<lambda>c. \<not> has_magic c) pat in
      if rest = [] then (if is_dir fs lit \<or> is_file fs lit then [lit] else [])
      else glob_expand fs [lit] rest)"

text \<open>Line 88: \<^verbatim>\<open>glob.glob(os.path.join(IMAGE_FOLDER, "*.jpg"))\<close> with the folder \<open>d\<close>.\<close>

definition glob_jpg :: "fs \<Rightarrow> path \<Rightarrow> path list" where
  "glob_jpg fs d = py_glob fs (d @ [''*.jpg''])"

text \<open>A folder none of whose components holds a wildcard.\<close>

definition no_magic :: "path \<Rightarrow> bool" where
  "no_magic d \<longleftrightarrow> (\<forall>c \<in> set d. \<not> has_magic c)"

text \<open>\<^verbatim>\<open>os.path.split(image_path)[-1]\<close>\<close>

definition py_basename :: "path \<Rightarrow> string" where
  "py_basename p = (if p = [] then [] else last p)"

text \<open>\<^verbatim>\<open>img.save(path, "JPEG")\<close>\<close>

definition save_jpeg :: "world \<Rightarrow> path \<Rightarrow> image \<Rightarrow> fs \<Rightarrow> fs \<times> py_error option" where
  "save_jpeg W p img fs =
     (let created = \<not> (is_dir fs p \<or> is_file fs p) in
      case write_file p [] fs of
        Inl e \<Rightarrow> (fs, Some e)
      | Inr fs1 \<Rightarrow>
          (case pil_jpeg W img of
             Inr data \<Rightarrow> (fs1\<lparr>fs_files := AList.update p data (fs_files fs1)\<rparr>, None)
           | Inl e \<Rightarrow> (if created then remove_file p fs1 else fs1, Some e)))"

text \<open>
  \<^verbatim>\<open>img.filter(ImageFilter.GaussianBlur(radius=15))\<close> (line 72): Pillow's box blur
  accepts these modes and raises \<^verbatim>\<open>ValueError\<close> on any other (\<^verbatim>\<open>"1"\<close>, \<^verbatim>\<open>"P"\<close>,
  \<^verbatim>\<open>"I"\<close>, \<^verbatim>\<open>"F"\<close>, \<dots>).
\<close>

definition BLUR_MODES :: "string list" where
  "BLUR_MODES = [''RGB'', ''RGBA'', ''RGBa'', ''RGBX'', ''CMYK'', ''L'', ''LA'', ''La'']"

definition gaussian_blur :: "world \<Rightarrow> nat \<Rightarrow> image \<Rightarrow> py_error + image" where
  "gaussian_blur W radius img =
     (if img_mode img \<in> set BLUR_MODES then Inr (pil_blur W radius img) else Inl ValueError)"

definition process_image :: "world \<Rightarrow> path \<Rightarrow> path \<Rightarrow> fs \<Rightarrow> fs \<times> py_error option" where
  "process_image W cwd image_path fs =
     (let img_name = py_basename image_path in
      case read_file image_path fs of
        Inl e \<Rightarrow> (fs, Some e)
      | Inr raw \<Rightarrow>
          (case pil_open W raw of
             Inl e \<Rightarrow> (fs, Some e)
           | Inr img \<Rightarrow>
               (case gaussian_blur W 15 img of
                  Inl e \<Rightarrow> (fs, Some e)
                | Inr blurred \<Rightarrow>
                    (case thumbnail W (300, 300) blurred of
                       Inl e \<Rightarrow> (fs, Some e)
                     | Inr thumb \<Rightarrow> save_jpeg W (PROCESSED_FOLDER cwd @ [''thumb_'' @ img_name]) thumb fs))))"

section \<open>Abstract transformer step\<close>

text \<open>
  The effect of one \<^verbatim>\<open>process_image\<close> on the abstract store (FileSystem's \<open>afs\<close>):
  \<open>a_read\<close> is what \<^verbatim>\<open>open(p, "rb")\<close> returns, \<open>a_thumbnail\<close> the image the
  task would save, and \<open>a_save\<close> the effect of \<^verbatim>\<open>img.save\<close> on its target.
\<close>

definition a_read :: "path \<Rightarrow> afs \<Rightarrow> bytes option" where
  "a_read p A = (if butlast p \<in> a_dirs A \<and> p \<notin> a_dirs A then a_files A p else None)"

definition a_save :: "world \<Rightarrow> path \<Rightarrow> image \<Rightarrow> afs \<Rightarrow> afs" where
  "a_save W q th A =
     (if butlast q \<in> a_dirs A \<and> q \<notin> a_dirs A then
        (case pil_jpeg W th of
           Inr d \<Rightarrow> A\<lparr>a_files := (a_files A)(q \<mapsto> d)\<rparr>
         | Inl _ \<Rightarrow> if q \<in> dom (a_files A) then A\<lparr>a_files := (a_files A)(q \<mapsto> [])\<rparr> else A)
      else A)"

definition a_thumbnail :: "world \<Rightarrow> path \<Rightarrow> afs \<Rightarrow> image option" where
  "a_thumbnail W p A =
     (case a_read p A of
        None \<Rightarrow> None
      | Some raw \<Rightarrow>
          (case pil_open W raw of
             Inl _ \<Rightarrow> None
           | Inr img \<Rightarrow>
               (case gaussian_blur W 15 img of
                  Inl _ \<Rightarrow> None
                | Inr blurred \<Rightarrow>
                    (case thumbnail W (300, 300) blurred of
                       Inl _ \<Rightarrow> None
                     | Inr th \<Rightarrow> Some th))))"

definition a_transform :: "world \<Rightarrow> path \<Rightarrow> path \<Rightarrow> afs \<Rightarrow> afs" where
  "a_transform W cwd p A =
     (case a_thumbnail W p A of
        None \<Rightarrow> A
      | Some th \<Rightarrow> a_save W (PROCESSED_FOLDER cwd @ [''thumb_'' @ py_basename p]) th A)"

section \<open>Example world and store\<close>

text \<open>
  A world for the examples: an encoded image of \<open>w \<times> h\<close> pixels is \<open>w\<close> bytes 1, a
  byte 0 and \<open>h\<close> bytes 1; blurring is the identity and resampling sets the size.
  The store holds two JPEG files, a hidden one and a PNG in \<^verbatim>\<open>/h/images\<close>.
\<close>

abbreviation demo_world :: world where
  "demo_world \<equiv>
     \<lparr>http_get = (\<lambda>u. Inl ConnectionError),
      pil_open = (\<lambda>b. if 0 < length (takeWhile (\<lambda>x. x \<noteq> 0) b) \<and> Suc (length (takeWhile (\<lambda>x. x \<noteq> 0) b)) < length b
                      then Inr \<lparr>img_w = length (takeWhile (\<lambda>x. x \<noteq> 0) b),
                                img_h = length b - Suc (length (takeWhile (\<lambda>x. x \<noteq> 0) b)),
                                img_mode = ''RGB'', img_pixels = b\<rparr>
                      else Inl UnidentifiedImageError),
      pil_blur = (\<lambda>r i. i),
      pil_resize = (\<lambda>sz i. i\<lparr>img_w := fst sz, img_h := snd sz\<rparr>),
      pil_jpeg = (\<lambda>i. if 0 < img_w i \<and> 0 < img_h i
                      then Inr (replicate (img_w i) 1 @ 0 # replicate (img_h i) 1)
                      else Inl JpegEncodeError)\<rparr>"

abbreviation demo_fs :: fs where
  "demo_fs \<equiv>
     \<lparr>fs_dirs = [[], [''h''], [''h'', ''images''], [''h'', ''images'', ''processed'']],
      fs_files = [([''h'', ''images'', ''a.jpg''], replicate 600 1 @ 0 # replicate 400 1),
                  ([''h'', ''images'', ''.b.jpg''], [1, 0, 1]),
                  ([''h'', ''images'', ''c.png''], [1, 0, 1]),
                  ([''h'', ''images'', ''d.jpg''], [1, 1, 0, 1])]\<rparr>"

text \<open>Every listed path matches the pattern component by component.\<close>

definition glob_match :: "path \<Rightarrow> string list \<Rightarrow> bool" where
  "glob_match q pat \<longleftrightarrow> list_all2 (\<lambda>n c. if has_magic c then fnmatch n c else n = c) q pat"

text \<open>
  A working directory named with a bracket, \<^verbatim>\<open>photos [old]\<close>, beside a directory
  \<^verbatim>\<open>photos o\<close> that the bracket expression matches.
\<close>

abbreviation bracket_fs :: fs where
  "bracket_fs \<equiv>
     \<lparr>fs_dirs = [[], [''photos [old]''], [''photos [old]'', ''images''], [''photos o''], [''photos o'', ''images'']],
      fs_files = [([''photos [old]'', ''images'', ''p.jpg''], [1, 0, 1]),
                  ([''photos o'', ''images'', ''q.jpg''], [1, 0, 1])]\<rparr>"

section \<open>Refinement of the store operations\<close>

lemma fs_wf_remove:
  "fs_wf fs \<Longrightarrow> fs_wf (remove_file p fs)"
  unfolding fs_wf_def remove_file_def by (auto simp: delete_keys distinct_removeAll)

lemma read_file_refines:
  "fs_wf fs \<Longrightarrow> (case read_file p fs of Inl _ \<Rightarrow> None | Inr c \<Rightarrow> Some c) = a_read p (fs_abs fs)"
  using resolve_parent_None [of fs p]
  by (cases "resolve_parent fs p")
     (auto simp: read_file_def a_read_def fs_abs_def is_dir_def split: option.split)

lemma save_jpeg_refines:
  assumes wf: "fs_wf fs"
  shows "fs_wf (fst (save_jpeg W q th fs)) \<and> fs_abs (fst (save_jpeg W q th fs)) = a_save W q th (fs_abs fs)"
proof (cases "is_dir fs (butlast q) \<and> \<not> is_dir fs q")
  case True
  let ?fs1 = "fs\<lparr>fs_files := AList.update q [] (fs_files fs)\<rparr>"
  from True wf have w: "write_file q [] fs = Inr ?fs1" by (simp add: write_file_eq)
  from True wf have wf1: "fs_wf ?fs1" by (simp add: fs_wf_write)
  from True wf have wfd: "fs_wf (fs\<lparr>fs_files := AList.update q d (fs_files fs)\<rparr>)" for d
    by (simp add: fs_wf_write)
  show ?thesis
  proof (cases "pil_jpeg W th")
    case (Inl e)
    with True w wf1 fs_wf_remove [OF wf1, of q] show ?thesis
      by (auto simp: save_jpeg_def a_save_def fs_abs_def is_dir_def is_file_def remove_file_def
               update_conv' delete_conv' fun_upd_idem)
  next
    case (Inr d)
    with True w wfd show ?thesis
      by (simp add: save_jpeg_def a_save_def fs_abs_def is_dir_def update_conv')
  qed
next
  case False
  with wf have "\<exists>e. write_file q [] fs = Inl e" by (auto simp: write_file_eq)
  with False wf show ?thesis
    by (auto simp: save_jpeg_def a_save_def fs_abs_def is_dir_def)
qed

lemma process_image_refines:
  "fs_wf fs \<Longrightarrow>
     fs_wf (fst (process_image W cwd p fs)) \<and>
     fs_abs (fst (process_image W cwd p fs)) = a_transform W cwd p (fs_abs fs)"
  using read_file_refines [of fs p] save_jpeg_refines [of fs W]
  by (auto simp: process_image_def a_transform_def a_thumbnail_def split: sum.split option.split)

section \<open>The listing\<close>

lemma listdir_set:
  "set (listdir fs d) = {d @ [n] | n. is_dir fs (d @ [n]) \<or> is_file fs (d @ [n])}"
proof -
  have child: "(q \<noteq> [] \<and> butlast q = d) = (\<exists>n. q = d @ [n])" for q :: path
    by (metis snoc_eq_iff_butlast)
  have fl: "is_file fs q = (q \<in> set (map fst (fs_files fs)))" for q
    by (simp add: is_file_def map_of_eq_None_iff)
  show ?thesis
    unfolding listdir_def is_dir_def fl by (auto simp: child) (metis fst_conv image_eqI)
qed

lemma listdir_distinct: "fs_wf fs \<Longrightarrow> distinct (listdir fs d)"
  unfolding fs_wf_def listdir_def by auto

lemma listdir_child: "q \<in> set (listdir fs d) \<Longrightarrow> q = d @ [last q]"
  by (auto simp: listdir_def)

lemma concat_map_children:
  "\<forall>q \<in> set xs. q = d @ [last q] \<Longrightarrow>
     concat (map (\<lambda>q. if P (last q) then [d @ [last q]] else []) xs) = [q \<leftarrow> xs. P (last q)]"
  by (induction xs) auto

lemma dropWhile_snoc: "\<not> P x \<Longrightarrow> dropWhile P (xs @ [x]) = dropWhile P xs @ [x]"
  by (induction xs) auto

subsection \<open>The matcher\<close>

lemma fnmatch_literal:
  "\<forall>c \<in> set p. c \<notin> set ''*?['' \<Longrightarrow> fnmatch s p = (s = p)"
proof (induction p arbitrary: s)
  case Nil
  then show ?case by simp
next
  case (Cons c p)
  then show ?case by (cases s) (auto simp: fnmatch.simps(2))
qed

lemma fnmatch_star_literal:
  "\<forall>c \<in> set p. c \<notin> set ''*?['' \<Longrightarrow> fnmatch s (CHR ''*'' # p) = suffix p s"
proof (induction s)
  case Nil
  then show ?case by (auto simp: fnmatch.simps(2) fnmatch_literal)
next
  case (Cons x s)
  then show ?case by (simp add: fnmatch.simps(2) [of "x # s"] fnmatch_literal suffix_Cons) blast
qed

lemma fnmatch_jpg_suffix: "fnmatch n ''*.jpg'' = suffix ''.jpg'' n"
  using fnmatch_star_literal [of "''.jpg''" n] by simp

lemma fnmatch_self: "\<not> has_magic c \<Longrightarrow> fnmatch c c"
  by (simp add: has_magic_def fnmatch_literal)

lemma has_magic_jpg [simp]: "has_magic ''*.jpg''"
  by (simp add: has_magic_def)

lemma no_magic_image_folder: "no_magic cwd \<Longrightarrow> no_magic (IMAGE_FOLDER cwd)"
  by (simp add: no_magic_def IMAGE_FOLDER_def has_magic_def)

subsection \<open>The listing of a folder without wildcards\<close>

lemma glob_jpg_plain:
  assumes "no_magic d"
  shows "glob_jpg fs d = [q \<leftarrow> listdir fs d. \<not> is_hidden (last q) \<and> suffix ''.jpg'' (last q)]"
proof -
  from assms have tw: "takeWhile (\<lambda>c. \<not> has_magic c) (d @ [''*.jpg'']) = d"
    and dw: "dropWhile (\<lambda>c. \<not> has_magic c) (d @ [''*.jpg'']) = [''*.jpg'']"
    by (simp_all add: no_magic_def)
  have hid: "\<not> is_hidden ''*.jpg''" by (simp add: is_hidden_def)
  have ch: "\<forall>q \<in> set (listdir fs d). q = d @ [last q]" using listdir_child by blast
  show ?thesis
    using concat_map_children [OF ch, where P = "\<lambda>n. \<not> is_hidden n \<and> suffix ''.jpg'' n"]
    by (simp add: glob_jpg_def py_glob_def tw dw glob_in_def glob_names_def hid fnmatch_jpg_suffix comp_def)
qed

lemma glob_jpg_children: "no_magic d \<Longrightarrow> q \<in> set (glob_jpg fs d) \<Longrightarrow> \<exists>n. q = d @ [n]"
  by (auto simp: glob_jpg_plain dest: listdir_child)

lemma glob_jpg_mem:
  "no_magic d \<Longrightarrow> is_file fs (d @ [n]) \<Longrightarrow> \<not> is_hidden n \<Longrightarrow> suffix ''.jpg'' n \<Longrightarrow>
     d @ [n] \<in> set (glob_jpg fs d)"
  by (simp add: glob_jpg_plain listdir_set)

subsection \<open>What the listing returns in general\<close>

lemma glob_in_match:
  "q \<in> set (glob_in fs dironly d c) \<Longrightarrow> \<exists>n. q = d @ [n] \<and> (if has_magic c then fnmatch n c else n = c)"
  by (auto simp: glob_in_def split: if_splits)

lemma glob_expand_match:
  "\<forall>d \<in> set ds. glob_match d pre \<Longrightarrow> q \<in> set (glob_expand fs ds cs) \<Longrightarrow> glob_match q (pre @ cs)"
proof (induction cs arbitrary: ds pre)
  case Nil
  then show ?case by simp
next
  case (Cons c cs)
  have "\<forall>d' \<in> set (concat (map (\<lambda>d. glob_in fs (cs \<noteq> []) d c) ds)). glob_match d' (pre @ [c])"
  proof
    fix d' assume "d' \<in> set (concat (map (\<lambda>d. glob_in fs (cs \<noteq> []) d c) ds))"
    then obtain d where d: "d \<in> set ds" and d': "d' \<in> set (glob_in fs (cs \<noteq> []) d c)" by auto
    from glob_in_match [OF d'] obtain n where "d' = d @ [n]" "if has_magic c then fnmatch n c else n = c"
      by blast
    with Cons.prems(1) d show "glob_match d' (pre @ [c])"
      by (simp add: glob_match_def list_all2_appendI)
  qed
  from Cons.IH [OF this] Cons.prems(2) show ?case by simp
qed

lemma py_glob_match: "q \<in> set (py_glob fs pat) \<Longrightarrow> glob_match q pat"
proof -
  assume q: "q \<in> set (py_glob fs pat)"
  let ?lit = "takeWhile (\<lambda>c. \<not> has_magic c) pat" and ?rest = "dropWhile (\<lambda>c. \<not> has_magic c) pat"
  have lit: "glob_match ?lit ?lit"
    by (auto simp: glob_match_def list_all2_same dest: set_takeWhileD)
  show ?thesis
  proof (cases "?rest = []")
    case True
    then have "?lit = pat" by (simp add: takeWhile_eq_all_conv)
    with q lit show ?thesis by (simp add: py_glob_def Let_def split: if_splits)
  next
    case False
    have "py_glob fs pat = glob_expand fs [?lit] ?rest"
      unfolding py_glob_def Let_def by (rule if_not_P [OF False])
    with q have "q \<in> set (glob_expand fs [?lit] ?rest)" by simp
    from glob_expand_match [OF _ this, of ?lit] lit show ?thesis by simp
  qed
qed

lemma glob_expand_mono:
  "set ds \<subseteq> set ds' \<Longrightarrow> set (glob_expand fs ds cs) \<subseteq> set (glob_expand fs ds' cs)"
proof (induction cs arbitrary: ds ds')
  case (Cons c cs)
  have "set (concat (map (\<lambda>d. glob_in fs (cs \<noteq> []) d c) ds)) \<subseteq> set (concat (map (\<lambda>d. glob_in fs (cs \<noteq> []) d c) ds'))"
    using Cons.prems by auto
  then show ?case by (simp add: Cons.IH)
qed simp

lemma glob_expand_last:
  "q \<in> set (glob_expand fs ds (cs @ [c])) \<Longrightarrow> has_magic c \<Longrightarrow> \<not> is_hidden c \<Longrightarrow>
     \<exists>d n. q = d @ [n] \<and> \<not> is_hidden n \<and> fnmatch n c"
proof (induction cs arbitrary: ds)
  case Nil
  then show ?case by (auto simp: glob_in_def)
next
  case (Cons c' cs)
  then show ?case by simp
qed

text \<open>Whatever the working directory, a listed path ends in a visible \<^verbatim>\<open>*.jpg\<close> name.\<close>

lemma glob_jpg_visible:
  assumes q: "q \<in> set (glob_jpg fs d)"
  shows "\<exists>d' n. q = d' @ [n] \<and> \<not> is_hidden n \<and> suffix ''.jpg'' n"
proof -
  let ?P = "\<lambda>c. \<not> has_magic c"
  have dw: "dropWhile ?P (d @ [''*.jpg'']) = dropWhile ?P d @ [''*.jpg'']"
    by (rule dropWhile_snoc) simp
  have "py_glob fs (d @ [''*.jpg'']) = glob_expand fs [takeWhile ?P (d @ [''*.jpg''])] (dropWhile ?P d @ [''*.jpg''])"
    unfolding py_glob_def Let_def dw by simp
  with q have "q \<in> set (glob_expand fs [takeWhile ?P (d @ [''*.jpg''])] (dropWhile ?P d @ [''*.jpg'']))"
    by (simp add: glob_jpg_def)
  from glob_expand_last [OF this] show ?thesis by (auto simp: is_hidden_def fnmatch_jpg_suffix)
qed

section \<open>The transformer step\<close>

lemma gaussian_blur_ok: "img_mode img \<in> set BLUR_MODES \<Longrightarrow> gaussian_blur W r img = Inr (pil_blur W r img)"
  by (simp add: gaussian_blur_def)

lemma save_jpeg_Inr:
  "fs_wf fs \<Longrightarrow> is_dir fs (butlast q) \<Longrightarrow> \<not> is_dir fs q \<Longrightarrow> pil_jpeg W th = Inr d \<Longrightarrow>
     save_jpeg W q th fs = (fs\<lparr>fs_files := AList.update q d (fs_files fs)\<rparr>, None)"
  by (simp add: save_jpeg_def write_file_eq)

lemma a_save_dirs [simp]: "a_dirs (a_save W q th A) = a_dirs A"
  by (simp add: a_save_def split: sum.split)

lemma a_save_other: "p \<noteq> q \<Longrightarrow> a_files (a_save W q th A) p = a_files A p"
  by (simp add: a_save_def split: sum.split)

lemma a_thumbnail_save: "p \<noteq> q \<Longrightarrow> a_thumbnail W p (a_save W q th A) = a_thumbnail W p A"
  by (simp add: a_thumbnail_def a_read_def a_save_other)

lemma a_save_commute:
  "q1 \<noteq> q2 \<Longrightarrow> a_save W q1 t1 (a_save W q2 t2 A) = a_save W q2 t2 (a_save W q1 t1 A)"
  by (cases "pil_jpeg W t1"; cases "pil_jpeg W t2")
     (auto simp: a_save_def fun_upd_twist)

lemma a_transform_dirs [simp]: "a_dirs (a_transform W cwd p A) = a_dirs A"
  by (simp add: a_transform_def split: option.split)

lemma a_transform_other:
  "q \<noteq> PROCESSED_FOLDER cwd @ [''thumb_'' @ py_basename p] \<Longrightarrow>
     a_files (a_transform W cwd p A) q = a_files A q"
  by (simp add: a_transform_def a_save_other split: option.split)

text \<open>
  Two images of the image folder have their thumbnails one level deeper, under
  different names: neither task reads or writes what the other writes.
\<close>

lemma a_transform_commute:
  "a_transform W cwd (IMAGE_FOLDER cwd @ [n]) \<circ> a_transform W cwd (IMAGE_FOLDER cwd @ [m]) =
   a_transform W cwd (IMAGE_FOLDER cwd @ [m]) \<circ> a_transform W cwd (IMAGE_FOLDER cwd @ [n])"
proof (cases "n = m")
  case False
  let ?t = "\<lambda>k. PROCESSED_FOLDER cwd @ [''thumb_'' @ py_basename (IMAGE_FOLDER cwd @ [k])]"
  have d: "?t n \<noteq> ?t m" "IMAGE_FOLDER cwd @ [n] \<noteq> ?t m" "IMAGE_FOLDER cwd @ [m] \<noteq> ?t n"
    using False by (auto simp: PROCESSED_FOLDER_def py_basename_def)
  show ?thesis
  proof
    fix A
    show "(a_transform W cwd (IMAGE_FOLDER cwd @ [n]) \<circ> a_transform W cwd (IMAGE_FOLDER cwd @ [m])) A =
          (a_transform W cwd (IMAGE_FOLDER cwd @ [m]) \<circ> a_transform W cwd (IMAGE_FOLDER cwd @ [n])) A"
      using d
      by (cases "a_thumbnail W (IMAGE_FOLDER cwd @ [n]) A"; cases "a_thumbnail W (IMAGE_FOLDER cwd @ [m]) A")
         (simp_all add: a_transform_def a_thumbnail_save a_save_commute)
  qed
qed simp

lemma takeWhile_image_bytes:
  "takeWhile (\<lambda>x. x \<noteq> 0) (replicate w (1 :: byte) @ 0 # ys) = replicate w 1"
  by (induction w) simp_all

lemma demo_world_ok: "pil_ok demo_world"
  by (simp add: pil_ok_def img_size_def takeWhile_image_bytes)

text \<open>
  What PIL does to one decodable image under the contract \<open>pil_ok\<close>, when the encoder
  accepts non-empty images: the thumbnail is encoded, and the encoding decodes to an
  image inside the 300 by 300 box with the original's aspect ratio.
\<close>

lemma thumb_of_image:
  assumes ok: "pil_ok W"
    and enc: "\<And>i. 0 < img_w i \<Longrightarrow> 0 < img_h i \<Longrightarrow> \<exists>d. pil_jpeg W i = Inr d"
    and o: "pil_open W raw = Inr img"
  obtains th0 data th where "thumbnail W (300, 300) (pil_blur W 15 img) = Inr th0"
    "pil_jpeg W th0 = Inr data" "pil_open W data = Inr th"
    "1 \<le> img_w th \<and> img_w th \<le> 300 \<and> 1 \<le> img_h th \<and> img_h th \<le> 300 \<and>
     img_w th \<le> img_w img \<and> img_h th \<le> img_h img \<and>
     \<bar>int (img_w th) * int (img_h img) - int (img_h th) * int (img_w img)\<bar>
       < int (max (img_w img) (img_h img))"
proof -
  from pil_okD(3) [OF ok o] have pos: "0 < img_w img" "0 < img_h img" by simp_all
  from pil_okD(1) [OF ok, of 15 img] have b: "img_w (pil_blur W 15 img) = img_w img"
    "img_h (pil_blur W 15 img) = img_h img" by (simp_all add: img_size_def)
  obtain th0 where t: "thumbnail W (300, 300) (pil_blur W 15 img) = Inr th0"
    using thumbnail_Inr [of "pil_blur W 15 img" 300 W 300] pos b by auto
  from thumbnail_shrinks [OF ok _ _ _ t] pos b have sh:
    "1 \<le> img_w th0 \<and> img_w th0 \<le> 300 \<and> 1 \<le> img_h th0 \<and> img_h th0 \<le> 300 \<and>
     img_w th0 \<le> img_w img \<and> img_h th0 \<le> img_h img \<and>
     \<bar>int (img_w th0) * int (img_h img) - int (img_h th0) * int (img_w img)\<bar>
       < int (max (img_w img) (img_h img))" by simp
  then obtain data where e: "pil_jpeg W th0 = Inr data" using enc by fastforce
  from pil_okD(4) [OF ok e] obtain th where th: "pil_open W data = Inr th" "img_size th = img_size th0"
    by blast
  from th(2) sh have "1 \<le> img_w th \<and> img_w th \<le> 300 \<and> 1 \<le> img_h th \<and> img_h th \<le> 300 \<and>
     img_w th \<le> img_w img \<and> img_h th \<le> img_h img \<and>
     \<bar>int (img_w th) * int (img_h img) - int (img_h th) * int (img_w img)\<bar>
       < int (max (img_w img) (img_h img))" by (simp add: img_size_def)
  from t e th(1) this show ?thesis by (rule that)
qed

lemma fold_a_transform_dirs [simp]: "a_dirs (fold (a_transform W cwd) ps A) = a_dirs A"
  by (induction ps arbitrary: A) simp_all

lemma fold_a_transform_other:
  "(\<And>p. p \<in> set ps \<Longrightarrow> q \<noteq> PROCESSED_FOLDER cwd @ [''thumb_'' @ py_basename p]) \<Longrightarrow>
     a_files (fold (a_transform W cwd) ps A) q = a_files A q"
proof (induction ps arbitrary: A)
  case (Cons p ps)
  then show ?case by (simp add: a_transform_other)
qed simp

lemma image_not_thumb: "IMAGE_FOLDER cwd @ [n] \<noteq> PROCESSED_FOLDER cwd @ [t]"
  by (simp add: PROCESSED_FOLDER_def)

lemma a_transform_writes:
  assumes ok: "pil_ok W"
    and enc: "\<And>i. 0 < img_w i \<Longrightarrow> 0 < img_h i \<Longrightarrow> \<exists>d. pil_jpeg W i = Inr d"
    and r: "a_read p A = Some raw" and o: "pil_open W raw = Inr img" and m: "img_mode img \<in> set BLUR_MODES"
    and d: "PROCESSED_FOLDER cwd \<in> a_dirs A"
    and nd: "PROCESSED_FOLDER cwd @ [''thumb_'' @ py_basename p] \<notin> a_dirs A"
  shows "\<exists>data th. a_files (a_transform W cwd p A) (PROCESSED_FOLDER cwd @ [''thumb_'' @ py_basename p]) = Some data \<and>
           pil_open W data = Inr th \<and>
           1 \<le> img_w th \<and> img_w th \<le> 300 \<and> 1 \<le> img_h th \<and> img_h th \<le> 300 \<and>
           img_w th \<le> img_w img \<and> img_h th \<le> img_h img \<and>
           \<bar>int (img_w th) * int (img_h img) - int (img_h th) * int (img_w img)\<bar>
             < int (max (img_w img) (img_h img))"
proof -
  obtain th0 data th where t: "thumbnail W (300, 300) (pil_blur W 15 img) = Inr th0"
    and e: "pil_jpeg W th0 = Inr data" and th: "pil_open W data = Inr th"
    and b: "1 \<le> img_w th \<and> img_w th \<le> 300 \<and> 1 \<le> img_h th \<and> img_h th \<le> 300 \<and>
       img_w th \<le> img_w img \<and> img_h th \<le> img_h img \<and>
       \<bar>int (img_w th) * int (img_h img) - int (img_h th) * int (img_w img)\<bar>
         < int (max (img_w img) (img_h img))"
    by (rule thumb_of_image [OF ok enc o])
  from r o t e d nd gaussian_blur_ok [OF m, of W 15]
  have "a_files (a_transform W cwd p A) (PROCESSED_FOLDER cwd @ [''thumb_'' @ py_basename p]) = Some data"
    by (simp add: a_transform_def a_thumbnail_def a_save_def)
  with th b show ?thesis by blast
qed

section \<open>Properties of the transformer\<close>

text \<open>
  C13: when the working directory holds no wildcard character, the listing
  \<^verbatim>\<open>glob.glob(IMAGE_FOLDER/*.jpg)\<close> holds exactly the entries directly inside the
  folder whose name ends in \<^verbatim>\<open>.jpg\<close> and does not start with a dot, each once.
\<close>

theorem glob_jpg_spec:
  "fs_wf fs \<Longrightarrow> no_magic d \<Longrightarrow>
     set (glob_jpg fs d) =
       {d @ [n] | n. (is_dir fs (d @ [n]) \<or> is_file fs (d @ [n])) \<and> \<not> is_hidden n \<and> suffix ''.jpg'' n} \<and>
     distinct (glob_jpg fs d)"
  by (auto simp: glob_jpg_plain listdir_set listdir_distinct)

text \<open>
  C14: a URL that ends in \<^verbatim>\<open>/\<close> is downloaded to the file \<^verbatim>\<open>.jpg\<close>, a hidden name,
  which the transformer's listing never returns, whatever the working directory: that
  image is fetched but never processed.
\<close>

theorem trailing_slash_never_processed:
  assumes "url \<noteq> []" and "last url = CHR ''/''"
  shows "img_name url = Inr ''.jpg'' \<and> IMAGE_FOLDER cwd @ [''.jpg''] \<notin> set (glob_jpg fs (IMAGE_FOLDER cwd))"
proof
  from assms obtain u where "url = u @ [CHR ''/'']" by (metis append_butlast_last_id)
  then show "img_name url = Inr ''.jpg''" by (simp add: img_name_eq)
  show "IMAGE_FOLDER cwd @ [''.jpg''] \<notin> set (glob_jpg fs (IMAGE_FOLDER cwd))"
    using glob_jpg_visible [of "IMAGE_FOLDER cwd @ [''.jpg'']" fs] by (auto simp: is_hidden_def)
qed

text \<open>
  C15: when the image file exists, PIL decodes it to an image whose mode the blur
  accepts and the encoder accepts non-empty images, \<^verbatim>\<open>process_image\<close> returns normally, writes exactly one file,
  \<^verbatim>\<open>PROCESSED_FOLDER/thumb_<name>\<close>, and that file decodes to an image of at most
  300 by 300 pixels, no larger than the original and of the same aspect ratio to within a pixel.
\<close>

theorem process_image_thumb:
  assumes wf: "fs_wf fs" and ok: "pil_ok W"
    and enc: "\<And>i. 0 < img_w i \<Longrightarrow> 0 < img_h i \<Longrightarrow> \<exists>d. pil_jpeg W i = Inr d"
    and f: "map_of (fs_files fs) p = Some raw" and o: "pil_open W raw = Inr img"
    and m: "img_mode img \<in> set BLUR_MODES"
    and d: "is_dir fs (PROCESSED_FOLDER cwd)"
    and nd: "\<not> is_dir fs (PROCESSED_FOLDER cwd @ [''thumb_'' @ py_basename p])"
  shows "\<exists>data th.
           process_image W cwd p fs =
             (fs\<lparr>fs_files := AList.update (PROCESSED_FOLDER cwd @ [''thumb_'' @ py_basename p]) data (fs_files fs)\<rparr>, None) \<and>
           pil_open W data = Inr th \<and>
           1 \<le> img_w th \<and> img_w th \<le> 300 \<and> 1 \<le> img_h th \<and> img_h th \<le> 300 \<and>
           img_w th \<le> img_w img \<and> img_h th \<le> img_h img \<and>
           \<bar>int (img_w th) * int (img_h img) - int (img_h th) * int (img_w img)\<bar>
             < int (max (img_w img) (img_h img))"
proof -
  from f have "is_file fs p" by (simp add: is_file_def)
  with wf have "is_dir fs (butlast p)" using fs_wfD(3) by blast
  with wf f have r: "read_file p fs = Inr raw" using read_file_eq by blast
  obtain th0 data th where t: "thumbnail W (300, 300) (pil_blur W 15 img) = Inr th0"
    and e: "pil_jpeg W th0 = Inr data" and th: "pil_open W data = Inr th"
    and b: "1 \<le> img_w th \<and> img_w th \<le> 300 \<and> 1 \<le> img_h th \<and> img_h th \<le> 300 \<and>
       img_w th \<le> img_w img \<and> img_h th \<le> img_h img \<and>
       \<bar>int (img_w th) * int (img_h img) - int (img_h th) * int (img_w img)\<bar>
         < int (max (img_w img) (img_h img))"
    by (rule thumb_of_image [OF ok enc o])
  from save_jpeg_Inr [OF wf _ nd e] d have
    "save_jpeg W (PROCESSED_FOLDER cwd @ [''thumb_'' @ py_basename p]) th0 fs =
       (fs\<lparr>fs_files := AList.update (PROCESSED_FOLDER cwd @ [''thumb_'' @ py_basename p]) data (fs_files fs)\<rparr>, None)"
    by simp
  with r o t gaussian_blur_ok [OF m, of W 15] have "process_image W cwd p fs =
       (fs\<lparr>fs_files := AList.update (PROCESSED_FOLDER cwd @ [''thumb_'' @ py_basename p]) data (fs_files fs)\<rparr>, None)"
    by (simp add: process_image_def)
  with th b show ?thesis by blast
qed

text \<open>
  C16: whatever happens to it, \<^verbatim>\<open>process_image\<close> keeps the store well-formed,
  creates or removes no directory and changes no file but its own thumbnail
  \<^verbatim>\<open>PROCESSED_FOLDER/thumb_<name>\<close>.
\<close>

theorem process_image_frame:
  "fs_wf fs \<Longrightarrow>
     fs_wf (fst (process_image W cwd p fs)) \<and>
     set (fs_dirs (fst (process_image W cwd p fs))) = set (fs_dirs fs) \<and>
     (\<forall>q. q \<noteq> PROCESSED_FOLDER cwd @ [''thumb_'' @ py_basename p] \<longrightarrow>
        map_of (fs_files (fst (process_image W cwd p fs))) q = map_of (fs_files fs) q)"
proof -
  assume wf: "fs_wf fs"
  let ?fs' = "fst (process_image W cwd p fs)"
  from process_image_refines [OF wf] have wf': "fs_wf ?fs'"
    and eq: "fs_abs ?fs' = a_transform W cwd p (fs_abs fs)" by simp_all
  have "a_dirs (fs_abs ?fs') = a_dirs (fs_abs fs)" by (simp add: eq)
  moreover have "a_files (fs_abs ?fs') q = a_files (fs_abs fs) q"
    if "q \<noteq> PROCESSED_FOLDER cwd @ [''thumb_'' @ py_basename p]" for q
    using that by (simp add: eq a_transform_other)
  ultimately show ?thesis using wf' by (simp add: fs_abs_def)
qed

text \<open>
  C17: when the JPEG encoder raises (for instance on an image mode JPEG cannot hold),
  \<^verbatim>\<open>process_image\<close> raises the encoder's error and leaves behind an empty thumbnail
  file where one already existed, and no file where none did.
\<close>

theorem process_image_encode_error:
  assumes wf: "fs_wf fs" and r: "read_file p fs = Inr raw" and o: "pil_open W raw = Inr img"
    and m: "img_mode img \<in> set BLUR_MODES"
    and t: "thumbnail W (300, 300) (pil_blur W 15 img) = Inr th" and e: "pil_jpeg W th = Inl err"
    and d: "is_dir fs (PROCESSED_FOLDER cwd)"
    and nd: "\<not> is_dir fs (PROCESSED_FOLDER cwd @ [''thumb_'' @ py_basename p])"
  shows "snd (process_image W cwd p fs) = Some err \<and>
         map_of (fs_files (fst (process_image W cwd p fs))) (PROCESSED_FOLDER cwd @ [''thumb_'' @ py_basename p]) =
           (if is_file fs (PROCESSED_FOLDER cwd @ [''thumb_'' @ py_basename p]) then Some [] else None)"
  using wf r o m t e d nd
  by (auto simp: process_image_def gaussian_blur_def save_jpeg_def Let_def write_file_eq remove_file_def
      is_file_def delete_conv')

text \<open>
  C30: an image PIL decodes to a mode the Gaussian blur does not accept (a 1-bit,
  palette, 32-bit integer or float image) makes line 72 raise \<^verbatim>\<open>ValueError\<close>:
  \<^verbatim>\<open>process_image\<close> raises before the processed folder is touched, and no thumbnail
  is written.
\<close>

theorem process_image_blur_mode_error:
  assumes r: "read_file p fs = Inr raw" and o: "pil_open W raw = Inr img"
    and m: "img_mode img \<notin> set BLUR_MODES"
  shows "process_image W cwd p fs = (fs, Some ValueError)"
  using r o m by (simp add: process_image_def gaussian_blur_def)

lemma transform_map_fold:
  "fs_wf s \<Longrightarrow>
     fs_wf (executor_map (process_image W cwd) ps s) \<and>
     fs_abs (executor_map (process_image W cwd) ps s) = fold (a_transform W cwd) ps (fs_abs s)"
  by (rule executor_map_refines) (simp add: process_image_refines)

text \<open>Any run of the stage, whatever it lists: the store of some order of the items.\<close>

lemma transform_stage_any:
  "fs_wf s \<Longrightarrow> (pool_step (process_image W cwd))\<^sup>*\<^sup>* (ps, s, es) ([], s', es') \<Longrightarrow>
   \<exists>zs. mset zs = mset ps \<and> fs_wf s' \<and> fs_abs s' = fold (a_transform W cwd) zs (fs_abs s)"
  using pool_run_perm transform_map_fold by metis

lemma glob_jpg_commute:
  assumes nm: "no_magic cwd" and x: "x \<in> set (glob_jpg s (IMAGE_FOLDER cwd))" and y: "y \<in> set (glob_jpg s (IMAGE_FOLDER cwd))"
  shows "a_transform W cwd x \<circ> a_transform W cwd y = a_transform W cwd y \<circ> a_transform W cwd x"
proof -
  from x y obtain n m where "x = IMAGE_FOLDER cwd @ [n]" "y = IMAGE_FOLDER cwd @ [m]"
    by (blast dest: glob_jpg_children [OF no_magic_image_folder [OF nm]])
  then show ?thesis by (simp add: a_transform_commute)
qed

lemma transform_stage_fold:
  "fs_wf s \<Longrightarrow> no_magic cwd \<Longrightarrow>
   (pool_step (process_image W cwd))\<^sup>*\<^sup>* (glob_jpg s (IMAGE_FOLDER cwd), s, es) ([], s', es') \<Longrightarrow>
   fs_wf s' \<and> fs_abs s' = fold (a_transform W cwd) (glob_jpg s (IMAGE_FOLDER cwd)) (fs_abs s)"
  by (rule pool_stage_fold [where I = fs_wf and T = "a_transform W cwd"])
     (auto simp: process_image_refines glob_jpg_commute)

lemma fold_a_transform_mset:
  "mset ps = mset qs \<Longrightarrow> (\<And>p. p \<in> set ps \<Longrightarrow> \<exists>n. p = IMAGE_FOLDER cwd @ [n]) \<Longrightarrow>
     fold (a_transform W cwd) ps = fold (a_transform W cwd) qs"
proof (rule fold_multiset_equiv)
  fix x y
  assume "\<And>p. p \<in> set ps \<Longrightarrow> \<exists>n. p = IMAGE_FOLDER cwd @ [n]" "x \<in> set ps" "y \<in> set ps"
  then obtain n m where "x = IMAGE_FOLDER cwd @ [n]" "y = IMAGE_FOLDER cwd @ [m]" by blast
  then show "a_transform W cwd x \<circ> a_transform W cwd y = a_transform W cwd y \<circ> a_transform W cwd x"
    by (simp add: a_transform_commute)
qed

lemma glob_jpg_abs:
  assumes "fs_wf s" "fs_wf s'" "fs_abs s = fs_abs s'" and nm: "no_magic d"
  shows "mset (glob_jpg s d) = mset (glob_jpg s' d)"
proof -
  from assms(3) have d: "is_dir s = is_dir s'" and f: "is_file s = is_file s'"
    by (auto simp: fun_eq_iff fs_abs_def is_dir_def is_file_def)
  have "set (glob_jpg s d) = set (glob_jpg s' d)"
    by (simp add: glob_jpg_plain [OF nm] listdir_set d f)
  moreover have "distinct (glob_jpg s d)" "distinct (glob_jpg s' d)"
    using assms(1,2) by (simp_all add: glob_jpg_plain [OF nm] listdir_distinct)
  ultimately show ?thesis by (simp add: set_eq_iff_mset_eq_distinct)
qed

text \<open>
  C18: when the working directory holds no wildcard character, the transformer stage
  is deterministic: however the process pool orders the images \<^verbatim>\<open>glob\<close> listed, the
  files and directories left are those of processing them in listing order.
\<close>

theorem transform_stage_deterministic:
  "fs_wf s \<Longrightarrow> no_magic cwd \<Longrightarrow>
   (pool_step (process_image W cwd))\<^sup>*\<^sup>* (glob_jpg s (IMAGE_FOLDER cwd), s, es) ([], s', es') \<Longrightarrow>
   fs_abs s' = fs_abs (executor_map (process_image W cwd) (glob_jpg s (IMAGE_FOLDER cwd)) s)"
  by (rule pool_stage_view [where I = fs_wf and T = "a_transform W cwd"])
     (auto simp: process_image_refines glob_jpg_commute)

text \<open>
  C23: the spec's transformer property, for a working directory without wildcard
  characters: in every schedule of the process pool, each file the listing returned
  that PIL decodes to an image the blur accepts ends with a thumbnail
  \<^verbatim>\<open>PROCESSED_FOLDER/thumb_<name>\<close> that decodes to an image of at most 300 by 300
  pixels, no larger than the original, with its aspect ratio to within one pixel.
\<close>

theorem transform_stage_thumbs:
  assumes wf: "fs_wf s" and ok: "pil_ok W" and nm: "no_magic cwd"
    and enc: "\<And>i. 0 < img_w i \<Longrightarrow> 0 < img_h i \<Longrightarrow> \<exists>d. pil_jpeg W i = Inr d"
    and p: "IMAGE_FOLDER cwd @ [n] \<in> set (glob_jpg s (IMAGE_FOLDER cwd))"
    and f: "map_of (fs_files s) (IMAGE_FOLDER cwd @ [n]) = Some raw" and o: "pil_open W raw = Inr img"
    and m: "img_mode img \<in> set BLUR_MODES"
    and d: "is_dir s (PROCESSED_FOLDER cwd)" and nd: "\<not> is_dir s (PROCESSED_FOLDER cwd @ [''thumb_'' @ n])"
    and run: "(pool_step (process_image W cwd))\<^sup>*\<^sup>* (glob_jpg s (IMAGE_FOLDER cwd), s, es) ([], s', es')"
  shows "\<exists>data th. map_of (fs_files s') (PROCESSED_FOLDER cwd @ [''thumb_'' @ n]) = Some data \<and>
           pil_open W data = Inr th \<and>
           1 \<le> img_w th \<and> img_w th \<le> 300 \<and> 1 \<le> img_h th \<and> img_h th \<le> 300 \<and>
           img_w th \<le> img_w img \<and> img_h th \<le> img_h img \<and>
           \<bar>int (img_w th) * int (img_h img) - int (img_h th) * int (img_w img)\<bar>
             < int (max (img_w img) (img_h img))"
proof -
  let ?p = "IMAGE_FOLDER cwd @ [n]" and ?t = "PROCESSED_FOLDER cwd @ [''thumb_'' @ n]"
  from transform_stage_fold [OF wf nm run]
  have ab: "fs_abs s' = fold (a_transform W cwd) (glob_jpg s (IMAGE_FOLDER cwd)) (fs_abs s)" by simp
  from p obtain xs ys where L: "glob_jpg s (IMAGE_FOLDER cwd) = xs @ ?p # ys" by (meson split_list)
  have "distinct (glob_jpg s (IMAGE_FOLDER cwd))"
    using listdir_distinct [OF wf] by (simp add: glob_jpg_plain [OF no_magic_image_folder [OF nm]])
  with L have ny: "?p \<notin> set ys" by simp
  from f wf have idir: "is_dir s (IMAGE_FOLDER cwd)" using fs_wfD(3) by (fastforce simp: is_file_def)
  from f wf have pnd: "\<not> is_dir s ?p" using fs_wfD(4) by (auto simp: is_file_def)
  let ?A = "fold (a_transform W cwd) xs (fs_abs s)"
  have "a_files ?A ?p = a_files (fs_abs s) ?p"
    by (rule fold_a_transform_other) (rule image_not_thumb)
  with f idir pnd have r: "a_read ?p ?A = Some raw"
    by (simp add: a_read_def fs_abs_def is_dir_def)
  have pb: "py_basename ?p = n" by (simp add: py_basename_def)
  from a_transform_writes [OF ok enc r o m, where cwd = cwd] d nd pb obtain data th where
    w: "a_files (a_transform W cwd ?p ?A) ?t = Some data" and
    th: "pil_open W data = Inr th \<and>
         1 \<le> img_w th \<and> img_w th \<le> 300 \<and> 1 \<le> img_h th \<and> img_h th \<le> 300 \<and>
         img_w th \<le> img_w img \<and> img_h th \<le> img_h img \<and>
         \<bar>int (img_w th) * int (img_h img) - int (img_h th) * int (img_w img)\<bar>
           < int (max (img_w img) (img_h img))"
    by (auto simp: fs_abs_def is_dir_def)
  have "?t \<noteq> PROCESSED_FOLDER cwd @ [''thumb_'' @ py_basename q]" if "q \<in> set ys" for q
  proof -
    from that L have "q \<in> set (glob_jpg s (IMAGE_FOLDER cwd))" by simp
    then obtain k where q: "q = IMAGE_FOLDER cwd @ [k]"
      by (blast dest: glob_jpg_children [OF no_magic_image_folder [OF nm]])
    with that ny show ?thesis by (auto simp: py_basename_def)
  qed
  then have "a_files (fold (a_transform W cwd) ys (a_transform W cwd ?p ?A)) ?t = Some data"
    using w by (subst fold_a_transform_other) auto
  with ab L have "a_files (fs_abs s') ?t = Some data" by simp
  then have "map_of (fs_files s') ?t = Some data" by (simp add: fs_abs_def)
  with th show ?thesis by blast
qed

text \<open>
  C31: line 88 pastes \<^verbatim>\<open>IMAGE_FOLDER\<close> into the glob pattern unescaped. When a
  component of the working directory holds a wildcard expression that does not match
  its own text (\<^verbatim>\<open>photos [old]\<close>: the class \<^verbatim>\<open>[old]\<close> matches one character), nothing
  inside the image folder is ever listed, so no downloaded image is processed.
\<close>

theorem glob_jpg_misses_own_folder:
  assumes c: "c \<in> set cwd" and nm: "\<not> fnmatch c c"
    and q: "q \<in> set (glob_jpg fs (IMAGE_FOLDER cwd))"
  shows "\<not> prefix (IMAGE_FOLDER cwd) q"
proof
  assume "prefix (IMAGE_FOLDER cwd) q"
  then obtain r where qr: "q = cwd @ [''images''] @ r" by (auto simp: prefix_def IMAGE_FOLDER_def)
  from py_glob_match [OF q [unfolded glob_jpg_def]] qr
  have "list_all2 (\<lambda>n c. if has_magic c then fnmatch n c else n = c) (cwd @ [''images''] @ r) (cwd @ [''images'', ''*.jpg''])"
    by (simp add: glob_match_def IMAGE_FOLDER_def)
  then have "list_all2 (\<lambda>n c. if has_magic c then fnmatch n c else n = c) cwd cwd"
    by (simp add: list_all2_append)
  with c have "if has_magic c then fnmatch c c else True" by (auto simp: list_all2_same)
  with nm fnmatch_self [of c] show False by (auto split: if_splits)
qed

text \<open>
  C32: the same unescaped pattern lists files outside the image folder: when a
  component of the working directory is a wildcard expression, the \<^verbatim>\<open>.jpg\<close> files of
  the \<^verbatim>\<open>images\<close> folder of every sibling directory it matches are listed and processed.
\<close>

theorem glob_jpg_outside_folder:
  assumes pre: "no_magic pre" and mc: "has_magic c" and m: "fnmatch c' c" and h: "\<not> is_hidden c' \<or> is_hidden c"
    and d1: "is_dir fs (pre @ [c'])" and d2: "is_dir fs (pre @ [c', ''images''])"
    and f: "is_file fs (pre @ [c', ''images'', n])" and vis: "\<not> is_hidden n" and jpg: "suffix ''.jpg'' n"
  shows "pre @ [c', ''images'', n] \<in> set (glob_jpg fs (IMAGE_FOLDER (pre @ [c])))"
proof -
  have pat: "IMAGE_FOLDER (pre @ [c]) @ [''*.jpg''] = pre @ [c, ''images'', ''*.jpg'']"
    by (simp add: IMAGE_FOLDER_def)
  from pre mc have tw: "takeWhile (\<lambda>c. \<not> has_magic c) (pre @ [c, ''images'', ''*.jpg'']) = pre"
    and dw: "dropWhile (\<lambda>c. \<not> has_magic c) (pre @ [c, ''images'', ''*.jpg'']) = [c, ''images'', ''*.jpg'']"
    by (simp_all add: no_magic_def takeWhile_append2 dropWhile_append2)
  have "pre @ [c'] \<in> set [q \<leftarrow> listdir fs pre. \<not> True \<or> is_dir fs q]"
    using d1 by (simp add: listdir_set)
  then have ln: "c' \<in> set (glob_names fs True pre)"
    unfolding glob_names_def set_map by (rule image_eqI [rotated]) simp
  have "pre @ [c'] \<in> set (glob_in fs True pre c)"
    using mc m h ln by (auto simp: glob_in_def)
  then have sub: "set (glob_expand fs [pre @ [c']] [''images'', ''*.jpg'']) \<subseteq>
      set (glob_expand fs (glob_in fs True pre c) [''images'', ''*.jpg''])"
    by (intro glob_expand_mono) simp
  have im: "\<not> has_magic ''images''" by (simp add: has_magic_def)
  have "pre @ [c', ''images'', n] \<in> set [q \<leftarrow> listdir fs (pre @ [c', ''images'']). \<not> False \<or> is_dir fs q]"
    using f by (simp add: listdir_set)
  then have ln2: "n \<in> set (glob_names fs False (pre @ [c', ''images'']))"
    unfolding glob_names_def set_map by (rule image_eqI [rotated]) simp
  have "pre @ [c', ''images'', n] \<in> set (glob_expand fs [pre @ [c']] [''images'', ''*.jpg''])"
    using d2 ln2 vis jpg im by (auto simp: glob_in_def fnmatch_jpg_suffix is_hidden_def)
  with sub show ?thesis by (auto simp: glob_jpg_def pat py_glob_def tw dw)
qed

section \<open>Witnesses\<close>

lemma demo_fs_wf: "fs_wf demo_fs"
  by code_simp

theorem glob_jpg_spec_witness:
  "glob_jpg demo_fs (IMAGE_FOLDER [''h'']) = [[''h'', ''images'', ''a.jpg''], [''h'', ''images'', ''d.jpg'']] \<and>
   set (glob_jpg demo_fs (IMAGE_FOLDER [''h''])) =
     {IMAGE_FOLDER [''h''] @ [n] | n. (is_dir demo_fs (IMAGE_FOLDER [''h''] @ [n]) \<or> is_file demo_fs (IMAGE_FOLDER [''h''] @ [n])) \<and>
        \<not> is_hidden n \<and> suffix ''.jpg'' n} \<and>
   distinct (glob_jpg demo_fs (IMAGE_FOLDER [''h'']))"
proof -
  have d: "no_magic (IMAGE_FOLDER [''h''])" by code_simp
  have g: "glob_jpg demo_fs (IMAGE_FOLDER [''h'']) = [[''h'', ''images'', ''a.jpg''], [''h'', ''images'', ''d.jpg'']]"
    by code_simp
  from glob_jpg_spec [OF demo_fs_wf d] g show ?thesis by simp
qed

theorem trailing_slash_never_processed_witness:
  "img_name ''http://example.com/photos/'' = Inr ''.jpg'' \<and>
   IMAGE_FOLDER [''h''] @ [''.jpg''] \<notin> set (glob_jpg demo_fs (IMAGE_FOLDER [''h'']))"
  by (rule trailing_slash_never_processed) simp_all

theorem process_image_thumb_witness:
  "\<exists>data th.
     process_image demo_world [''h''] [''h'', ''images'', ''a.jpg''] demo_fs =
       (demo_fs\<lparr>fs_files := AList.update (PROCESSED_FOLDER [''h''] @ [''thumb_'' @ py_basename [''h'', ''images'', ''a.jpg'']]) data (fs_files demo_fs)\<rparr>, None) \<and>
     pil_open demo_world data = Inr th \<and>
     1 \<le> img_w th \<and> img_w th \<le> 300 \<and> 1 \<le> img_h th \<and> img_h th \<le> 300"
proof -
  have enc: "\<exists>d. pil_jpeg demo_world i = Inr d" if "0 < img_w i" "0 < img_h i" for i
    using that by simp
  have f: "map_of (fs_files demo_fs) [''h'', ''images'', ''a.jpg''] = Some (replicate 600 1 @ 0 # replicate 400 1)"
    by simp
  have o: "pil_open demo_world (replicate 600 1 @ 0 # replicate 400 1) =
      Inr \<lparr>img_w = 600, img_h = 400, img_mode = ''RGB'', img_pixels = replicate 600 1 @ 0 # replicate 400 1\<rparr>"
    by (simp add: takeWhile_image_bytes)
  have m: "img_mode \<lparr>img_w = 600, img_h = 400, img_mode = ''RGB'', img_pixels = replicate 600 1 @ 0 # replicate 400 1\<rparr> \<in> set BLUR_MODES"
    by (simp add: BLUR_MODES_def)
  have d: "is_dir demo_fs (PROCESSED_FOLDER [''h''])" by code_simp
  have nd: "\<not> is_dir demo_fs (PROCESSED_FOLDER [''h''] @ [''thumb_'' @ py_basename [''h'', ''images'', ''a.jpg'']])"
    by code_simp
  from process_image_thumb [OF demo_fs_wf demo_world_ok enc f o m d nd] show ?thesis
    by blast
qed

theorem process_image_frame_witness:
  "fs_wf (fst (process_image demo_world [''h''] [''h'', ''images'', ''a.jpg''] demo_fs)) \<and>
   set (fs_dirs (fst (process_image demo_world [''h''] [''h'', ''images'', ''a.jpg''] demo_fs))) = set (fs_dirs demo_fs) \<and>
   map_of (fs_files (fst (process_image demo_world [''h''] [''h'', ''images'', ''a.jpg''] demo_fs))) [''h'', ''images'', ''a.jpg''] =
     map_of (fs_files demo_fs) [''h'', ''images'', ''a.jpg'']"
proof -
  have q: "[''h'', ''images'', ''a.jpg''] \<noteq> PROCESSED_FOLDER [''h''] @ [''thumb_'' @ py_basename [''h'', ''images'', ''a.jpg'']]"
    by (simp add: PROCESSED_FOLDER_def IMAGE_FOLDER_def)
  from process_image_frame [OF demo_fs_wf, of demo_world "[''h'']" "[''h'', ''images'', ''a.jpg'']"] q
  show ?thesis by blast
qed

theorem process_image_encode_error_witness:
  "snd (process_image (demo_world\<lparr>pil_jpeg := (\<lambda>i. Inl JpegEncodeError)\<rparr>) [''h''] [''h'', ''images'', ''d.jpg'']
     (demo_fs\<lparr>fs_files := fs_files demo_fs @ [([''h'', ''images'', ''processed'', ''thumb_d.jpg''], [9])]\<rparr>)) = Some JpegEncodeError \<and>
   map_of (fs_files (fst (process_image (demo_world\<lparr>pil_jpeg := (\<lambda>i. Inl JpegEncodeError)\<rparr>) [''h''] [''h'', ''images'', ''d.jpg'']
     (demo_fs\<lparr>fs_files := fs_files demo_fs @ [([''h'', ''images'', ''processed'', ''thumb_d.jpg''], [9])]\<rparr>))))
     [''h'', ''images'', ''processed'', ''thumb_d.jpg''] = Some []"
proof -
  have wf: "fs_wf (demo_fs\<lparr>fs_files := fs_files demo_fs @ [([''h'', ''images'', ''processed'', ''thumb_d.jpg''], [9])]\<rparr>)"
    by code_simp
  have r: "read_file [''h'', ''images'', ''d.jpg''] (demo_fs\<lparr>fs_files := fs_files demo_fs @ [([''h'', ''images'', ''processed'', ''thumb_d.jpg''], [9])]\<rparr>) = Inr [1, 1, 0, 1]"
    by code_simp
  have o: "pil_open (demo_world\<lparr>pil_jpeg := (\<lambda>i. Inl JpegEncodeError)\<rparr>) [1, 1, 0, 1] =
      Inr \<lparr>img_w = 2, img_h = 1, img_mode = ''RGB'', img_pixels = [1, 1, 0, 1]\<rparr>"
    by simp
  have m: "img_mode \<lparr>img_w = 2, img_h = 1, img_mode = ''RGB'', img_pixels = [1, 1, 0, 1]\<rparr> \<in> set BLUR_MODES"
    by (simp add: BLUR_MODES_def)
  have t: "thumbnail (demo_world\<lparr>pil_jpeg := (\<lambda>i. Inl JpegEncodeError)\<rparr>) (300, 300)
      (pil_blur (demo_world\<lparr>pil_jpeg := (\<lambda>i. Inl JpegEncodeError)\<rparr>) 15 \<lparr>img_w = 2, img_h = 1, img_mode = ''RGB'', img_pixels = [1, 1, 0, 1]\<rparr>) =
      Inr \<lparr>img_w = 2, img_h = 1, img_mode = ''RGB'', img_pixels = [1, 1, 0, 1]\<rparr>"
    by code_simp
  have e: "pil_jpeg (demo_world\<lparr>pil_jpeg := (\<lambda>i. Inl JpegEncodeError)\<rparr>) \<lparr>img_w = 2, img_h = 1, img_mode = ''RGB'', img_pixels = [1, 1, 0, 1]\<rparr> = Inl JpegEncodeError"
    by simp
  have d: "is_dir (demo_fs\<lparr>fs_files := fs_files demo_fs @ [([''h'', ''images'', ''processed'', ''thumb_d.jpg''], [9])]\<rparr>) (PROCESSED_FOLDER [''h''])"
    by code_simp
  have nd: "\<not> is_dir (demo_fs\<lparr>fs_files := fs_files demo_fs @ [([''h'', ''images'', ''processed'', ''thumb_d.jpg''], [9])]\<rparr>)
      (PROCESSED_FOLDER [''h''] @ [''thumb_'' @ py_basename [''h'', ''images'', ''d.jpg'']])"
    by code_simp
  have fl: "is_file (demo_fs\<lparr>fs_files := fs_files demo_fs @ [([''h'', ''images'', ''processed'', ''thumb_d.jpg''], [9])]\<rparr>)
      (PROCESSED_FOLDER [''h''] @ [''thumb_'' @ py_basename [''h'', ''images'', ''d.jpg'']])"
    by code_simp
  have n: "PROCESSED_FOLDER [''h''] @ [''thumb_'' @ py_basename [''h'', ''images'', ''d.jpg'']] =
      [''h'', ''images'', ''processed'', ''thumb_d.jpg'']"
    by (simp add: PROCESSED_FOLDER_def IMAGE_FOLDER_def py_basename_def)
  from process_image_encode_error [OF wf r o m t e d nd] fl n show ?thesis by simp
qed

theorem process_image_blur_mode_error_witness:
  "process_image (demo_world\<lparr>pil_open := (\<lambda>b. Inr \<lparr>img_w = 1, img_h = 1, img_mode = ''P'', img_pixels = b\<rparr>)\<rparr>)
     [''h''] [''h'', ''images'', ''d.jpg''] demo_fs = (demo_fs, Some ValueError)"
proof -
  have r: "read_file [''h'', ''images'', ''d.jpg''] demo_fs = Inr [1, 1, 0, 1]" by code_simp
  have m: "img_mode \<lparr>img_w = 1, img_h = 1, img_mode = ''P'', img_pixels = [1, 1, 0, 1::8 word]\<rparr> \<notin> set BLUR_MODES"
    by (simp add: BLUR_MODES_def)
  from process_image_blur_mode_error [OF r _ m] show ?thesis by simp
qed

theorem transform_stage_deterministic_witness:
  "fs_abs (executor_map (process_image demo_world [''h'']) (rev (glob_jpg demo_fs (IMAGE_FOLDER [''h'']))) demo_fs) =
   fs_abs (executor_map (process_image demo_world [''h'']) (glob_jpg demo_fs (IMAGE_FOLDER [''h''])) demo_fs)"
proof -
  obtain es' where run: "(pool_step (process_image demo_world [''h'']))\<^sup>*\<^sup>* (glob_jpg demo_fs (IMAGE_FOLDER [''h'']), demo_fs, [])
      ([], executor_map (process_image demo_world [''h'']) (rev (glob_jpg demo_fs (IMAGE_FOLDER [''h'']))) demo_fs, es')"
    using pool_any_order [of "rev (glob_jpg demo_fs (IMAGE_FOLDER [''h'']))" "glob_jpg demo_fs (IMAGE_FOLDER [''h''])"]
    by fastforce
  have nm: "no_magic [''h'']" by code_simp
  from transform_stage_deterministic [OF demo_fs_wf nm run] show ?thesis .
qed

theorem transform_stage_thumbs_witness:
  "\<exists>data th. map_of (fs_files (executor_map (process_image demo_world [''h'']) (glob_jpg demo_fs (IMAGE_FOLDER [''h''])) demo_fs))
       (PROCESSED_FOLDER [''h''] @ [''thumb_'' @ ''a.jpg'']) = Some data \<and>
     pil_open demo_world data = Inr th \<and> img_w th \<le> 300 \<and> img_h th \<le> 300"
proof -
  have enc: "\<exists>d. pil_jpeg demo_world i = Inr d" if "0 < img_w i" "0 < img_h i" for i
    using that by simp
  have p: "IMAGE_FOLDER [''h''] @ [''a.jpg''] \<in> set (glob_jpg demo_fs (IMAGE_FOLDER [''h'']))" by code_simp
  have f: "map_of (fs_files demo_fs) (IMAGE_FOLDER [''h''] @ [''a.jpg'']) = Some (replicate 600 1 @ 0 # replicate 400 1)"
    by (simp add: IMAGE_FOLDER_def)
  have o: "pil_open demo_world (replicate 600 1 @ 0 # replicate 400 1) =
      Inr \<lparr>img_w = 600, img_h = 400, img_mode = ''RGB'', img_pixels = replicate 600 1 @ 0 # replicate 400 1\<rparr>"
    by (simp add: takeWhile_image_bytes)
  have m: "img_mode \<lparr>img_w = 600, img_h = 400, img_mode = ''RGB'', img_pixels = replicate 600 1 @ 0 # replicate 400 1\<rparr> \<in> set BLUR_MODES"
    by (simp add: BLUR_MODES_def)
  have nm: "no_magic [''h'']" by code_simp
  have d: "is_dir demo_fs (PROCESSED_FOLDER [''h''])" by code_simp
  have nd: "\<not> is_dir demo_fs (PROCESSED_FOLDER [''h''] @ [''thumb_'' @ ''a.jpg''])" by code_simp
  obtain es' where run: "(pool_step (process_image demo_world [''h'']))\<^sup>*\<^sup>* (glob_jpg demo_fs (IMAGE_FOLDER [''h'']), demo_fs, [])
      ([], executor_map (process_image demo_world [''h'']) (glob_jpg demo_fs (IMAGE_FOLDER [''h''])) demo_fs, es')"
    using pool_in_order [where t = "process_image demo_world [''h'']" and xs = "glob_jpg demo_fs (IMAGE_FOLDER [''h''])"
        and s = demo_fs and es = "[]"] by blast
  from transform_stage_thumbs [OF demo_fs_wf demo_world_ok nm enc p f o m d nd run] show ?thesis by blast
qed

theorem glob_jpg_misses_own_folder_witness:
  "glob_jpg bracket_fs (IMAGE_FOLDER [''photos [old]'']) = [[''photos o'', ''images'', ''q.jpg'']] \<and>
   \<not> prefix (IMAGE_FOLDER [''photos [old]'']) [''photos o'', ''images'', ''q.jpg'']"
proof -
  have g: "glob_jpg bracket_fs (IMAGE_FOLDER [''photos [old]'']) = [[''photos o'', ''images'', ''q.jpg'']]"
    by code_simp
  have nm: "\<not> fnmatch ''photos [old]'' ''photos [old]''" by code_simp
  have "\<not> prefix (IMAGE_FOLDER [''photos [old]'']) [''photos o'', ''images'', ''q.jpg'']"
    by (rule glob_jpg_misses_own_folder [OF _ nm, where fs = bracket_fs]) (simp_all add: g)
  with g show ?thesis by simp
qed

theorem glob_jpg_outside_folder_witness:
  "[''photos o'', ''images'', ''q.jpg''] \<in> set (glob_jpg bracket_fs (IMAGE_FOLDER [''photos [old]'']))"
proof -
  have mc: "has_magic ''photos [old]''" by code_simp
  have m: "fnmatch ''photos o'' ''photos [old]''" by code_simp
  have d1: "is_dir bracket_fs ([] @ [''photos o''])" by code_simp
  have d2: "is_dir bracket_fs ([] @ [''photos o'', ''images''])" by code_simp
  have f: "is_file bracket_fs ([] @ [''photos o'', ''images'', ''q.jpg''])" by code_simp
  have "[] @ [''photos o'', ''images'', ''q.jpg''] \<in> set (glob_jpg bracket_fs (IMAGE_FOLDER ([] @ [''photos [old]''])))"
    by (rule glob_jpg_outside_folder [OF _ mc m _ d1 d2 f]) (simp_all add: no_magic_def is_hidden_def suffix_def)
  then show ?thesis by simp
qed

end
