(* ===== verification/Orchestrator.thy ===== *)
theory Orchestrator
  imports Transformer
begin

text \<open>
  \<^verbatim>\<open>main\<close> of \<^verbatim>\<open>src/main.py\<close> (lines 79--91): create the image folder, download every
  URL on a thread pool, create the processed folder, list the image folder and process
  every listed file on a process pool. Each \<^verbatim>\<open>with\<close> block is a barrier: leaving it
  waits for every submitted task (\<^verbatim>\<open>shutdown(wait=True)\<close>). The iterator returned by
  \<^verbatim>\<open>executor.map\<close> is never consumed, so an exception raised by a task is stored in its
  future and never re-raised: only the two \<^verbatim>\<open>create_folder\<close> calls can make \<^verbatim>\<open>main\<close>
  raise. \<open>main_exec\<close> is every execution, with the pools scheduled by Executor's
  \<open>pool_step\<close>; \<open>main_with\<close> is the run in submission order. The theorems: all
  executions agree on the final store, \<^verbatim>\<open>main\<close> always completes and never raises a
  task's error, and an empty URL list stores and processes nothing.
  Its printing and timing (lines 80, 90--91 and the prints of the tasks) are added in
  Console, whose executions erase to these.
\<close>

definition main_with :: "world \<Rightarrow> path \<Rightarrow> string list \<Rightarrow> fs \<Rightarrow> py_error + fs" where
  "main_with W cwd urls fs =
     (case create_folder (IMAGE_FOLDER cwd) fs of
        Inl e \<Rightarrow> Inl e
      | Inr fs1 \<Rightarrow>
          (case create_folder (PROCESSED_FOLDER cwd) (executor_map (task_of (download_image W cwd)) urls fs1) of
             Inl e \<Rightarrow> Inl e
           | Inr fs3 \<Rightarrow> Inr (executor_map (process_image W cwd) (glob_jpg fs3 (IMAGE_FOLDER cwd)) fs3)))"

definition main :: "world \<Rightarrow> path \<Rightarrow> fs \<Rightarrow> py_error + fs" where
  "main W cwd fs = main_with W cwd IMAGE_URLS fs"

inductive main_exec :: "world \<Rightarrow> path \<Rightarrow> string list \<Rightarrow> fs \<Rightarrow> py_error + fs \<Rightarrow> bool"
  for W cwd urls fs where
  images_fail: "create_folder (IMAGE_FOLDER cwd) fs = Inl e \<Longrightarrow> main_exec W cwd urls fs (Inl e)"
| processed_fail: "create_folder (IMAGE_FOLDER cwd) fs = Inr fs1 \<Longrightarrow>
    (pool_step (task_of (download_image W cwd)))\<^sup>*\<^sup>* (urls, fs1, []) ([], fs2, es1) \<Longrightarrow>
    create_folder (PROCESSED_FOLDER cwd) fs2 = Inl e \<Longrightarrow> main_exec W cwd urls fs (Inl e)"
| completed: "create_folder (IMAGE_FOLDER cwd) fs = Inr fs1 \<Longrightarrow>
    (pool_step (task_of (download_image W cwd)))\<^sup>*\<^sup>* (urls, fs1, []) ([], fs2, es1) \<Longrightarrow>
    create_folder (PROCESSED_FOLDER cwd) fs2 = Inr fs3 \<Longrightarrow>
    (pool_step (process_image W cwd))\<^sup>*\<^sup>* (glob_jpg fs3 (IMAGE_FOLDER cwd), fs3, []) ([], fs4, es2) \<Longrightarrow>
    main_exec W cwd urls fs (Inr fs4)"

section \<open>Folders between the stages\<close>

lemma create_folder_congr:
  "fs_wf s \<Longrightarrow> fs_wf s' \<Longrightarrow> fs_abs s = fs_abs s' \<Longrightarrow>
     res_abs (create_folder p s) = res_abs (create_folder p s')"
  by (simp add: create_folder_def path_mkdir_parents_refines)

lemma no_file_on_path_abs:
  "no_file_on_path fs p = (\<forall>q \<in> set (prefixes p). a_files (fs_abs fs) q = None)"
  by (simp add: no_file_on_path_def is_file_def fs_abs_def)

lemma no_file_on_path_prefix:
  "no_file_on_path fs p \<Longrightarrow> prefix q p \<Longrightarrow> no_file_on_path fs q"
  by (auto simp: no_file_on_path_def dest: prefix_order.trans)

lemma no_file_on_path_files:
  "fs_files fs' = fs_files fs \<Longrightarrow> no_file_on_path fs' p = no_file_on_path fs p"
  by (simp add: no_file_on_path_def is_file_def)

lemma image_child_processed:
  "prefix (IMAGE_FOLDER cwd @ [n]) (PROCESSED_FOLDER cwd) \<Longrightarrow> n = ''processed''"
  by (auto simp: PROCESSED_FOLDER_def prefix_def)

lemma processed_not_jpg: "\<not> suffix ''.jpg'' ''processed''"
  by code_simp

text \<open>The download stage writes only \<^verbatim>\<open>.jpg\<close> files, none of them on the way to the processed folder.\<close>

lemma download_keeps_no_file:
  assumes wf: "fs_wf fs1" and nf: "no_file_on_path fs1 (PROCESSED_FOLDER cwd)"
    and run: "(pool_step (task_of (download_image W cwd)))\<^sup>*\<^sup>* (urls, fs1, es) ([], fs2, es')"
  shows "fs_wf fs2 \<and> no_file_on_path fs2 (PROCESSED_FOLDER cwd)"
proof -
  from pool_run_perm [OF run] obtain zs where
    fs2: "fs2 = executor_map (task_of (download_image W cwd)) zs fs1" by blast
  from download_map_fold [OF wf, of W cwd zs] fs2 have
    wf2: "fs_wf fs2" and ab: "fs_abs fs2 = fold (a_download W cwd) zs (fs_abs fs1)" by simp_all
  have "a_files (fs_abs fs2) q = a_files (fs_abs fs1) q" if q: "q \<in> set (prefixes (PROCESSED_FOLDER cwd))" for q
  proof -
    have "q \<noteq> IMAGE_FOLDER cwd @ [n]" if "u \<in> set zs" "img_name u = Inr n" for u n
      using q img_name_chars [OF that(2)] image_child_processed [of cwd n] processed_not_jpg by auto
    then show ?thesis unfolding ab by (rule fold_a_download_other)
  qed
  with nf wf2 show ?thesis by (simp add: no_file_on_path_abs)
qed

lemma create_image_folder:
  "fs_wf fs \<Longrightarrow> no_file_on_path fs (PROCESSED_FOLDER cwd) \<Longrightarrow>
     \<exists>fs1. create_folder (IMAGE_FOLDER cwd) fs = Inr fs1 \<and> fs_wf fs1 \<and> fs_files fs1 = fs_files fs"
proof -
  assume wf: "fs_wf fs" and nf: "no_file_on_path fs (PROCESSED_FOLDER cwd)"
  from nf have "no_file_on_path fs (IMAGE_FOLDER cwd)"
    by (rule no_file_on_path_prefix) (auto simp: PROCESSED_FOLDER_def prefix_def)
  with wf obtain fs1 where c: "create_folder (IMAGE_FOLDER cwd) fs = Inr fs1"
    unfolding create_folder_def using path_mkdir_parents_succeeds by blast
  with create_folder_Inr [OF wf c] show ?thesis by blast
qed

lemma create_processed_folder:
  "fs_wf fs2 \<Longrightarrow> no_file_on_path fs2 (PROCESSED_FOLDER cwd) \<Longrightarrow>
     \<exists>fs3. create_folder (PROCESSED_FOLDER cwd) fs2 = Inr fs3"
  unfolding create_folder_def using path_mkdir_parents_succeeds by blast

text \<open>
  A fresh image folder holds, once the processed folder is made, nothing \<^verbatim>\<open>glob\<close> lists,
  when the working directory holds no wildcard character.
\<close>

lemma glob_fresh_image_folder:
  assumes wf: "fs_wf fs" and nm: "no_magic cwd" and nd: "\<not> is_dir fs (IMAGE_FOLDER cwd)"
    and c1: "create_folder (IMAGE_FOLDER cwd) fs = Inr fs1"
    and c3: "create_folder (PROCESSED_FOLDER cwd) fs1 = Inr fs3"
  shows "glob_jpg fs3 (IMAGE_FOLDER cwd) = []"
proof -
  from path_mkdir_Inr [OF c1 [unfolded create_folder_def] wf] have
    wf1: "fs_wf fs1" and f1: "fs_files fs1 = fs_files fs" and
    u1: "set (fs_dirs fs1) \<subseteq> set (fs_dirs fs) \<union> set (prefixes (IMAGE_FOLDER cwd))" by simp_all
  from path_mkdir_Inr [OF c3 [unfolded create_folder_def] wf1] have
    f3: "fs_files fs3 = fs_files fs1" and
    u3: "set (fs_dirs fs3) \<subseteq> set (fs_dirs fs1) \<union> set (prefixes (PROCESSED_FOLDER cwd))" by simp_all
  have nope: "\<not> suffix ''.jpg'' n"
    if "is_dir fs3 (IMAGE_FOLDER cwd @ [n]) \<or> is_file fs3 (IMAGE_FOLDER cwd @ [n])" for n
  proof -
    have a: "IMAGE_FOLDER cwd @ [n] \<notin> set (fs_dirs fs)" and f: "\<not> is_file fs (IMAGE_FOLDER cwd @ [n])"
      using nd fs_wfD(2) [OF wf] fs_wfD(3) [OF wf] by (fastforce simp: is_dir_def)+
    have b: "IMAGE_FOLDER cwd @ [n] \<notin> set (prefixes (IMAGE_FOLDER cwd))"
      by (auto dest: prefix_length_le)
    have c: "n = ''processed''" if "IMAGE_FOLDER cwd @ [n] \<in> set (prefixes (PROCESSED_FOLDER cwd))"
      using that image_child_processed by simp
    have "IMAGE_FOLDER cwd @ [n] \<in> set (fs_dirs fs3) \<Longrightarrow> n = ''processed''"
      using u1 u3 a b c by blast
    then show ?thesis
      using that f f3 f1 processed_not_jpg by (auto simp: is_dir_def is_file_def)
  qed
  then show ?thesis
    by (auto simp: glob_jpg_plain [OF no_magic_image_folder [OF nm]] filter_empty_conv listdir_set dest: nope)
qed

lemma main_folders:
  assumes wf: "fs_wf fs" and nf: "no_file_on_path fs (PROCESSED_FOLDER cwd)"
  obtains fs1 where "create_folder (IMAGE_FOLDER cwd) fs = Inr fs1" "fs_wf fs1" "fs_files fs1 = fs_files fs"
    "\<forall>fs2 es es'. (pool_step (task_of (download_image W cwd)))\<^sup>*\<^sup>* (urls, fs1, es) ([], fs2, es') \<longrightarrow>
       (\<exists>fs3. create_folder (PROCESSED_FOLDER cwd) fs2 = Inr fs3)"
proof -
  from create_image_folder [OF wf nf] obtain fs1 where
    c1: "create_folder (IMAGE_FOLDER cwd) fs = Inr fs1" and wf1: "fs_wf fs1" and f1: "fs_files fs1 = fs_files fs"
    by blast
  from nf have nf1: "no_file_on_path fs1 (PROCESSED_FOLDER cwd)" by (simp add: no_file_on_path_files [OF f1])
  have ok3: "\<exists>fs3. create_folder (PROCESSED_FOLDER cwd) fs2 = Inr fs3"
    if "(pool_step (task_of (download_image W cwd)))\<^sup>*\<^sup>* (urls, fs1, es) ([], fs2, es')" for fs2 es es'
    using download_keeps_no_file [OF wf1 nf1 that] create_processed_folder by blast
  from c1 wf1 f1 ok3 show ?thesis by (blast intro: that)
qed

text \<open>The run in submission order is one of the executions.\<close>

lemma main_exec_in_order:
  assumes wf: "fs_wf fs" and nf: "no_file_on_path fs (PROCESSED_FOLDER cwd)"
  shows "\<exists>fs'. main_with W cwd urls fs = Inr fs' \<and> main_exec W cwd urls fs (Inr fs')"
proof -
  obtain fs1 where c1: "create_folder (IMAGE_FOLDER cwd) fs = Inr fs1"
    and "fs_wf fs1" "fs_files fs1 = fs_files fs"
    and ok3: "\<forall>fs2 es es'. (pool_step (task_of (download_image W cwd)))\<^sup>*\<^sup>* (urls, fs1, es) ([], fs2, es') \<longrightarrow>
       (\<exists>fs3. create_folder (PROCESSED_FOLDER cwd) fs2 = Inr fs3)"
    by (rule main_folders [OF wf nf, where W = W and urls = urls])
  obtain es1 where run1: "(pool_step (task_of (download_image W cwd)))\<^sup>*\<^sup>* (urls, fs1, [])
      ([], executor_map (task_of (download_image W cwd)) urls fs1, es1)"
    using pool_in_order [where t = "task_of (download_image W cwd)" and xs = urls and s = fs1 and es = "[]"] by blast
  from ok3 [rule_format, OF run1] obtain fs3 where
    c3: "create_folder (PROCESSED_FOLDER cwd) (executor_map (task_of (download_image W cwd)) urls fs1) = Inr fs3"
    by blast
  obtain es2 where "(pool_step (process_image W cwd))\<^sup>*\<^sup>* (glob_jpg fs3 (IMAGE_FOLDER cwd), fs3, [])
      ([], executor_map (process_image W cwd) (glob_jpg fs3 (IMAGE_FOLDER cwd)) fs3, es2)"
    using pool_in_order [where t = "process_image W cwd" and xs = "glob_jpg fs3 (IMAGE_FOLDER cwd)" and s = fs3 and es = "[]"]
    by blast
  from main_exec.completed [OF c1 run1 c3 this] c1 c3 show ?thesis by (simp add: main_with_def)
qed

lemma main_exec_Inr:
  assumes wf: "fs_wf fs" and nf: "no_file_on_path fs (PROCESSED_FOLDER cwd)"
    and ex: "main_exec W cwd urls fs r"
  shows "\<exists>fs'. r = Inr fs'"
proof -
  obtain fs1 where c1: "create_folder (IMAGE_FOLDER cwd) fs = Inr fs1"
    and "fs_wf fs1" "fs_files fs1 = fs_files fs"
    and ok3: "\<forall>fs2 es es'. (pool_step (task_of (download_image W cwd)))\<^sup>*\<^sup>* (urls, fs1, es) ([], fs2, es') \<longrightarrow>
       (\<exists>fs3. create_folder (PROCESSED_FOLDER cwd) fs2 = Inr fs3)"
    by (rule main_folders [OF wf nf, where W = W and urls = urls])
  from ex show ?thesis
  proof cases
    case (processed_fail fs1' fs2 es1 e)
    with c1 ok3 [rule_format, of "[]" fs2 es1] show ?thesis by simp
  qed (simp_all add: c1)
qed

text \<open>Every execution agrees with the submission-order run on the observable store.\<close>

lemma main_exec_abs:
  assumes wf: "fs_wf fs" and nm: "no_magic cwd" and inj: "\<forall>u\<in>set urls. \<forall>v\<in>set urls. img_name u = img_name v \<longrightarrow> u = v"
    and ex: "main_exec W cwd urls fs r"
  shows "res_abs r = res_abs (main_with W cwd urls fs)"
  using ex
proof cases
  case (images_fail e)
  then show ?thesis by (simp add: main_with_def)
next
  case (processed_fail fs1 fs2 es1 e)
  let ?fs2 = "executor_map (task_of (download_image W cwd)) urls fs1"
  from create_folder_Inr [OF wf processed_fail(2)] have wf1: "fs_wf fs1" by simp
  from download_stage_fold [OF wf1 inj processed_fail(3)] download_map_fold [OF wf1, of W cwd urls]
  have "fs_wf fs2" "fs_wf ?fs2" "fs_abs fs2 = fs_abs ?fs2" by simp_all
  from create_folder_congr [OF this, of "PROCESSED_FOLDER cwd"] processed_fail(1,2,4)
  show ?thesis by (auto simp: main_with_def res_abs_def split: sum.splits)
next
  case (completed fs1 fs2 es1 fs3 fs4 es2)
  let ?fs2 = "executor_map (task_of (download_image W cwd)) urls fs1"
  from create_folder_Inr [OF wf completed(2)] have wf1: "fs_wf fs1" by simp
  from download_stage_fold [OF wf1 inj completed(3)] download_map_fold [OF wf1, of W cwd urls]
  have wf2: "fs_wf fs2" and wf2': "fs_wf ?fs2" and eq2: "fs_abs fs2 = fs_abs ?fs2" by simp_all
  from create_folder_congr [OF wf2 wf2' eq2, of "PROCESSED_FOLDER cwd"] completed(4)
  obtain fs3' where c3': "create_folder (PROCESSED_FOLDER cwd) ?fs2 = Inr fs3'"
    and eq3: "fs_abs fs3 = fs_abs fs3'" by (auto simp: res_abs_def split: sum.splits)
  from create_folder_Inr [OF wf2 completed(4)] create_folder_Inr [OF wf2' c3']
  have wf3: "fs_wf fs3" and wf3': "fs_wf fs3'" by simp_all
  from transform_stage_fold [OF wf3 nm completed(5)]
  have "fs_abs fs4 = fold (a_transform W cwd) (glob_jpg fs3 (IMAGE_FOLDER cwd)) (fs_abs fs3)" by simp
  also have "\<dots> = fold (a_transform W cwd) (glob_jpg fs3' (IMAGE_FOLDER cwd)) (fs_abs fs3')"
    using fold_a_transform_mset [OF glob_jpg_abs [OF wf3 wf3' eq3 no_magic_image_folder [OF nm]]]
      glob_jpg_children [OF no_magic_image_folder [OF nm]] eq3 by metis
  also have "\<dots> = fs_abs (executor_map (process_image W cwd) (glob_jpg fs3' (IMAGE_FOLDER cwd)) fs3')"
    using transform_map_fold [OF wf3'] by simp
  finally show ?thesis using completed(1,2) c3' by (simp add: main_with_def res_abs_def)
qed

text \<open>A run of \<^verbatim>\<open>main\<close> keeps the store well-formed and adds only the folders' prefixes as directories.\<close>

lemma main_exec_dirs:
  assumes wf: "fs_wf fs" and ex: "main_exec W cwd urls fs (Inr fs')"
  shows "fs_wf fs' \<and> set (fs_dirs fs') \<subseteq> set (fs_dirs fs) \<union> set (prefixes (PROCESSED_FOLDER cwd)) \<and>
         is_dir fs' (PROCESSED_FOLDER cwd)"
proof -
  from ex obtain fs1 fs2 es1 fs3 es2 where c1: "create_folder (IMAGE_FOLDER cwd) fs = Inr fs1"
    and run1: "(pool_step (task_of (download_image W cwd)))\<^sup>*\<^sup>* (urls, fs1, []) ([], fs2, es1)"
    and c3: "create_folder (PROCESSED_FOLDER cwd) fs2 = Inr fs3"
    and run2: "(pool_step (process_image W cwd))\<^sup>*\<^sup>* (glob_jpg fs3 (IMAGE_FOLDER cwd), fs3, []) ([], fs', es2)"
    by cases auto
  from path_mkdir_Inr [OF c1 [unfolded create_folder_def] wf] have wf1: "fs_wf fs1"
    and u1: "set (fs_dirs fs1) \<subseteq> set (fs_dirs fs) \<union> set (prefixes (IMAGE_FOLDER cwd))" by simp_all
  have "set (prefixes (IMAGE_FOLDER cwd)) \<subseteq> set (prefixes (PROCESSED_FOLDER cwd))"
    by (auto simp: PROCESSED_FOLDER_def prefix_def)
  with u1 have u1': "set (fs_dirs fs1) \<subseteq> set (fs_dirs fs) \<union> set (prefixes (PROCESSED_FOLDER cwd))" by blast
  from pool_run_perm [OF run1] obtain zs where "fs2 = executor_map (task_of (download_image W cwd)) zs fs1"
    by blast
  with download_map_fold [OF wf1, of W cwd zs] have wf2: "fs_wf fs2"
    and "fs_abs fs2 = fold (a_download W cwd) zs (fs_abs fs1)" by simp_all
  then have "a_dirs (fs_abs fs2) = a_dirs (fs_abs fs1)" by simp
  then have d2: "set (fs_dirs fs2) = set (fs_dirs fs1)" by (simp add: fs_abs_def)
  from path_mkdir_Inr [OF c3 [unfolded create_folder_def] wf2] have wf3: "fs_wf fs3"
    and p3: "is_dir fs3 (PROCESSED_FOLDER cwd)"
    and u3: "set (fs_dirs fs3) \<subseteq> set (fs_dirs fs2) \<union> set (prefixes (PROCESSED_FOLDER cwd))" by simp_all
  from transform_stage_any [OF wf3 run2] obtain zs where wf': "fs_wf fs'"
    and ab': "fs_abs fs' = fold (a_transform W cwd) zs (fs_abs fs3)" by blast
  from ab' have "a_dirs (fs_abs fs') = a_dirs (fs_abs fs3)" by simp
  then have d': "set (fs_dirs fs') = set (fs_dirs fs3)" by (simp add: fs_abs_def)
  from u1' d2 u3 d' have "set (fs_dirs fs') \<subseteq> set (fs_dirs fs) \<union> set (prefixes (PROCESSED_FOLDER cwd))"
    by blast
  with wf' p3 d' show ?thesis by (simp add: is_dir_def)
qed

lemma main_exec_rerun:
  "fs_wf fs \<Longrightarrow> main_exec W cwd urls fs (Inr fs') \<Longrightarrow> no_file_on_path fs' (PROCESSED_FOLDER cwd)"
  using main_exec_dirs [of fs W cwd urls fs'] prefixes_dirs fs_wfD(4)
  by (fastforce simp: no_file_on_path_def is_dir_def)

section \<open>Properties of \<^verbatim>\<open>main\<close>\<close>

text \<open>
  C19: when no two URLs share a file name and the working directory holds no wildcard
  character, every execution of \<^verbatim>\<open>main\<close>, whatever the
  order in which both pools run their tasks, ends with the same files and directories as
  the run in submission order, or raises as that run does.
\<close>

theorem main_deterministic:
  assumes wf: "fs_wf fs" and nm: "no_magic cwd"
    and inj: "\<forall>u\<in>set urls. \<forall>v\<in>set urls. img_name u = img_name v \<longrightarrow> u = v"
    and ex: "main_exec W cwd urls fs r"
  shows "res_abs r = res_abs (main_with W cwd urls fs)"
  using wf nm inj ex by (rule main_exec_abs)

text \<open>
  C20: \<^verbatim>\<open>main\<close> never raises the error of a task: when no component of the processed
  folder's path is a regular file, some execution completes, and every execution
  completes normally, in every world, even if every download and every image fails.
\<close>

theorem main_completes:
  assumes wf: "fs_wf fs" and nf: "no_file_on_path fs (PROCESSED_FOLDER cwd)"
  shows "(\<exists>fs'. main_exec W cwd urls fs (Inr fs')) \<and> (\<forall>r. main_exec W cwd urls fs r \<longrightarrow> (\<exists>fs'. r = Inr fs'))"
  using main_exec_in_order [OF wf nf] main_exec_Inr [OF wf nf] by blast

text \<open>
  C21: with an empty URL list, no image folder yet and a working directory without
  wildcard characters, every execution of \<^verbatim>\<open>main\<close>
  completes, stores no image and produces no processed image (the files are those it
  started with), and leaves the processed folder in place.
\<close>

theorem main_no_urls:
  assumes wf: "fs_wf fs" and nf: "no_file_on_path fs (PROCESSED_FOLDER cwd)" and nm: "no_magic cwd"
    and nd: "\<not> is_dir fs (IMAGE_FOLDER cwd)" and ex: "main_exec W cwd [] fs r"
  shows "\<exists>fs'. r = Inr fs' \<and> fs_files fs' = fs_files fs \<and> is_dir fs' (PROCESSED_FOLDER cwd)"
proof -
  from create_image_folder [OF wf nf] obtain fs1 where
    c1: "create_folder (IMAGE_FOLDER cwd) fs = Inr fs1" and wf1: "fs_wf fs1" and f1: "fs_files fs1 = fs_files fs"
    by blast
  from nf have nf1: "no_file_on_path fs1 (PROCESSED_FOLDER cwd)" by (simp add: no_file_on_path_files [OF f1])
  from create_processed_folder [OF wf1 nf1] obtain fs3 where
    c3: "create_folder (PROCESSED_FOLDER cwd) fs1 = Inr fs3" by blast
  from create_folder_Inr [OF wf1 c3] f1 have f3: "fs_files fs3 = fs_files fs" and d3: "is_dir fs3 (PROCESSED_FOLDER cwd)"
    by simp_all
  from glob_fresh_image_folder [OF wf nm nd c1 c3] have g: "glob_jpg fs3 (IMAGE_FOLDER cwd) = []" .
  from ex show ?thesis
  proof cases
    case (processed_fail fs1' fs2 es1 e)
    with c1 c3 show ?thesis by (auto dest: pool_from_Nil)
  next
    case (completed fs1' fs2 es1 fs3' fs4 es2)
    from completed(2) c1 pool_from_Nil [OF completed(3)] have "fs2 = fs1" by simp
    with completed(4) c3 have "fs3' = fs3" by simp
    with completed(5) g pool_from_Nil have "fs4 = fs3" by fastforce
    with completed(1) f3 d3 show ?thesis by simp
  qed (simp add: c1)
qed

text \<open>
  C24: \<^verbatim>\<open>main()\<close> as the program runs it, on its own 21 URLs: from a well-formed
  store and a working directory without wildcard characters, every execution ends with the same files and directories as the
  submission-order run (or raises as it does); the URLs need no further hypothesis,
  since their file names are pairwise distinct.
\<close>

theorem main_program_deterministic:
  "fs_wf fs \<Longrightarrow> no_magic cwd \<Longrightarrow> main_exec W cwd IMAGE_URLS fs r \<Longrightarrow> res_abs r = res_abs (main W cwd fs)"
  unfolding main_def by (rule main_exec_abs [OF _ _ IMAGE_URLS_img_name_inj])

section \<open>Witnesses\<close>

text \<open>A store with an empty working directory \<^verbatim>\<open>/h\<close>, two URLs with distinct names.\<close>

lemma main_demo_wf: "fs_wf \<lparr>fs_dirs = [[], [''h'']], fs_files = []\<rparr>"
  by code_simp

lemma main_demo_nf: "no_file_on_path \<lparr>fs_dirs = [[], [''h'']], fs_files = []\<rparr> (PROCESSED_FOLDER [''h''])"
  by code_simp

lemma main_demo_nd: "\<not> is_dir \<lparr>fs_dirs = [[], [''h'']], fs_files = []\<rparr> (IMAGE_FOLDER [''h''])"
  by code_simp

lemma main_demo_nm: "no_magic [''h'']"
  by code_simp

lemma main_demo_inj:
  "\<forall>u\<in>set [''https://a.org/p1'', ''https://a.org/p2'']. \<forall>v\<in>set [''https://a.org/p1'', ''https://a.org/p2''].
     img_name u = img_name v \<longrightarrow> u = v"
  by code_simp

theorem main_deterministic_witness:
  "\<exists>r. main_exec demo_world [''h''] [''https://a.org/p1'', ''https://a.org/p2''] \<lparr>fs_dirs = [[], [''h'']], fs_files = []\<rparr> r \<and>
     res_abs r = res_abs (main_with demo_world [''h''] [''https://a.org/p1'', ''https://a.org/p2''] \<lparr>fs_dirs = [[], [''h'']], fs_files = []\<rparr>)"
proof -
  from main_exec_in_order [OF main_demo_wf main_demo_nf, of demo_world "[''https://a.org/p1'', ''https://a.org/p2'']"]
  obtain fs' where ex: "main_exec demo_world [''h''] [''https://a.org/p1'', ''https://a.org/p2''] \<lparr>fs_dirs = [[], [''h'']], fs_files = []\<rparr> (Inr fs')"
    by blast
  from main_deterministic [OF main_demo_wf main_demo_nm main_demo_inj ex] ex show ?thesis by blast
qed

theorem main_completes_witness:
  "\<exists>fs'. main_exec demo_world [''h''] [''https://a.org/p1'', ''https://a.org/p2''] \<lparr>fs_dirs = [[], [''h'']], fs_files = []\<rparr> (Inr fs')"
proof -
  from main_completes [OF main_demo_wf main_demo_nf, of demo_world "[''https://a.org/p1'', ''https://a.org/p2'']"] show ?thesis by blast
qed

theorem main_no_urls_witness:
  "\<exists>r. main_exec demo_world [''h''] [] \<lparr>fs_dirs = [[], [''h'']], fs_files = []\<rparr> r \<and>
     (\<exists>fs'. r = Inr fs' \<and> fs_files fs' = [] \<and> is_dir fs' (PROCESSED_FOLDER [''h'']))"
proof -
  from main_exec_in_order [OF main_demo_wf main_demo_nf, of demo_world "[]"]
  obtain fs' where ex: "main_exec demo_world [''h''] [] \<lparr>fs_dirs = [[], [''h'']], fs_files = []\<rparr> (Inr fs')"
    by blast
  from main_no_urls [OF main_demo_wf main_demo_nf main_demo_nm main_demo_nd ex] ex show ?thesis by auto
qed

theorem main_program_deterministic_witness:
  "\<exists>r. main_exec demo_world [''h''] IMAGE_URLS \<lparr>fs_dirs = [[], [''h'']], fs_files = []\<rparr> r \<and>
     res_abs r = res_abs (main demo_world [''h''] \<lparr>fs_dirs = [[], [''h'']], fs_files = []\<rparr>)"
proof -
  obtain fs' where ex: "main_exec demo_world [''h''] IMAGE_URLS \<lparr>fs_dirs = [[], [''h'']], fs_files = []\<rparr> (Inr fs')"
    using main_exec_in_order [OF main_demo_wf main_demo_nf] by blast
  from main_program_deterministic [OF main_demo_wf main_demo_nm ex] ex show ?thesis by blast
qed

end
