(* ===== verification/Console.thy ===== *)
theory Console
  imports Orchestrator
begin

text \<open>
  The console output and the timing of \<^verbatim>\<open>src/main.py\<close>: the four progress lines of
  \<^verbatim>\<open>download_image\<close> and \<^verbatim>\<open>process_image\<close> (lines 54, 59, 69, 76) and the elapsed-time
  line of \<^verbatim>\<open>main\<close> (lines 80, 90--91). A line is a value of \<open>out_line\<close>, the text of its
  f-string with the name as argument; the console is the list of lines printed so far.
  Every task carries the console beside the store: \<open>download_image_logged\<close> and
  \<open>process_image_logged\<close> are the two task bodies with their \<^verbatim>\<open>print\<close> calls, and
  \<open>main_log_exec\<close> is every execution of \<^verbatim>\<open>main\<close> with its output, the pools scheduled
  by Executor's \<open>pool_step\<close> on the pair. \<^verbatim>\<open>time.perf_counter\<close> is a monotonic clock:
  its two readings are any \<open>time_start \<le> time_end\<close>, and the last line holds their difference.
  Erasing the console from the executions with output gives exactly the executions of
  Orchestrator (\<open>main_log_exec_erase\<close>, \<open>main_exec_log\<close>), so the facts proved there
  carry over. The theorems: the output is the download lines, then the process lines,
  then the time line; every stored, visible image is announced as processed; a failed
  download prints its start line and nothing else, and \<^verbatim>\<open>main\<close> still returns; a
  \<^verbatim>\<open>Processed\<close> line means the thumbnail is on disk at the end.
\<close>

datatype out_line =
    Downloading string \<comment> \<open>\<^verbatim>\<open>f"Downloading image from {img_name}"\<close>\<close>
  | Downloaded string \<comment> \<open>\<^verbatim>\<open>f"Downloaded image from {img_name}"\<close>\<close>
  | Processing string \<comment> \<open>\<^verbatim>\<open>f"Processing image {img_name}"\<close>\<close>
  | Processed string \<comment> \<open>\<^verbatim>\<open>f"Processed image {img_name}"\<close>\<close>
  | Time_taken rat \<comment> \<open>\<^verbatim>\<open>f"Time taken: {time_end - time_start}"\<close>\<close>

type_synonym console = "out_line list"

text \<open>\<^verbatim>\<open>download_image\<close> (lines 47--59) with its two \<^verbatim>\<open>print\<close> calls.\<close>

fun download_image_logged ::
  "world \<Rightarrow> path \<Rightarrow> string \<Rightarrow> fs \<times> console \<Rightarrow> (fs \<times> console) \<times> py_error option" where
  "download_image_logged W cwd image_url (fs, out) =
     (case img_name image_url of
        Inl e \<Rightarrow> ((fs, out), Some e)
      | Inr name \<Rightarrow>
          (let out = out @ [Downloading name] in
           case http_get W image_url of
             Inl e \<Rightarrow> ((fs, out), Some e)
           | Inr resp \<Rightarrow>
               (case write_file (IMAGE_FOLDER cwd @ [name]) (content resp) fs of
                  Inl e \<Rightarrow> ((fs, out), Some e)
                | Inr fs' \<Rightarrow> ((fs', out @ [Downloaded name]), None))))"

text \<open>
  \<^verbatim>\<open>process_image\<close> (lines 62--76): the start line, the body of lines 70--75 as
  Transformer's \<open>process_image\<close>, and the end line when the body did not raise.
\<close>

fun process_image_logged ::
  "world \<Rightarrow> path \<Rightarrow> path \<Rightarrow> fs \<times> console \<Rightarrow> (fs \<times> console) \<times> py_error option" where
  "process_image_logged W cwd image_path (fs, out) =
     (let img_name = py_basename image_path;
          out = out @ [Processing img_name] in
      case process_image W cwd image_path fs of
        (fs', Some e) \<Rightarrow> ((fs', out), Some e)
      | (fs', None) \<Rightarrow> ((fs', out @ [Processed img_name]), None))"

text \<open>
  \<^verbatim>\<open>main\<close> (lines 79--91) with its output, tasks in submission order, and the clock
  readings \<open>time_start\<close> (line 80) and \<open>time_end\<close> (line 90). An exception of \<^verbatim>\<open>create_folder\<close>
  propagates before line 91, so no time line is printed then.
\<close>

definition main_logged ::
  "world \<Rightarrow> path \<Rightarrow> string list \<Rightarrow> fs \<Rightarrow> console \<Rightarrow> rat \<Rightarrow> rat \<Rightarrow> console \<times> (py_error + fs)" where
  "main_logged W cwd urls fs out time_start time_end =
     (case create_folder (IMAGE_FOLDER cwd) fs of
        Inl e \<Rightarrow> (out, Inl e)
      | Inr fs1 \<Rightarrow>
          (case executor_map (download_image_logged W cwd) urls (fs1, out) of
             (fs2, out2) \<Rightarrow>
               (case create_folder (PROCESSED_FOLDER cwd) fs2 of
                  Inl e \<Rightarrow> (out2, Inl e)
                | Inr fs3 \<Rightarrow>
                    (case executor_map (process_image_logged W cwd) (glob_jpg fs3 (IMAGE_FOLDER cwd)) (fs3, out2) of
                       (fs4, out4) \<Rightarrow> (out4 @ [Time_taken (time_end - time_start)], Inr fs4)))))"

text \<open>Every execution of \<^verbatim>\<open>main\<close> with its output: the stages scheduled by \<open>pool_step\<close>.\<close>

inductive main_log_exec ::
  "world \<Rightarrow> path \<Rightarrow> string list \<Rightarrow> fs \<Rightarrow> console \<Rightarrow> console \<times> (py_error + fs) \<Rightarrow> bool"
  for W cwd urls fs out where
  log_images_fail: "create_folder (IMAGE_FOLDER cwd) fs = Inl e \<Longrightarrow> main_log_exec W cwd urls fs out (out, Inl e)"
| log_processed_fail: "create_folder (IMAGE_FOLDER cwd) fs = Inr fs1 \<Longrightarrow>
    (pool_step (download_image_logged W cwd))\<^sup>*\<^sup>* (urls, (fs1, out), []) ([], (fs2, out2), es1) \<Longrightarrow>
    create_folder (PROCESSED_FOLDER cwd) fs2 = Inl e \<Longrightarrow> main_log_exec W cwd urls fs out (out2, Inl e)"
| log_completed: "create_folder (IMAGE_FOLDER cwd) fs = Inr fs1 \<Longrightarrow>
    (pool_step (download_image_logged W cwd))\<^sup>*\<^sup>* (urls, (fs1, out), []) ([], (fs2, out2), es1) \<Longrightarrow>
    create_folder (PROCESSED_FOLDER cwd) fs2 = Inr fs3 \<Longrightarrow>
    (pool_step (process_image_logged W cwd))\<^sup>*\<^sup>* (glob_jpg fs3 (IMAGE_FOLDER cwd), (fs3, out2), []) ([], (fs4, out4), es2) \<Longrightarrow>
    time_start \<le> time_end \<Longrightarrow>
    main_log_exec W cwd urls fs out (out4 @ [Time_taken (time_end - time_start)], Inr fs4)"

text \<open>The kinds of line each stage prints.\<close>

fun download_line :: "out_line \<Rightarrow> bool" where
  "download_line (Downloading _) = True"
| "download_line (Downloaded _) = True"
| "download_line _ = False"

fun process_line :: "out_line \<Rightarrow> bool" where
  "process_line (Processing _) = True"
| "process_line (Processed _) = True"
| "process_line _ = False"

text \<open>
  The fixture of the witnesses: two URLs into the empty working directory \<^verbatim>\<open>/h\<close>, the
  first GET failing, the second returning a one-pixel image.
\<close>

abbreviation console_world :: world where
  "console_world \<equiv> demo_world\<lparr>http_get := (\<lambda>u. if u = ''https://a.org/p1'' then Inl ConnectionError
     else Inr \<lparr>status_code = 200, content = [1, 0, 1]\<rparr>)\<rparr>"

abbreviation console_urls :: "string list" where
  "console_urls \<equiv> [''https://a.org/p1'', ''https://a.org/p2'']"

abbreviation console_fs :: fs where
  "console_fs \<equiv> \<lparr>fs_dirs = [[], [''h'']], fs_files = []\<rparr>"

abbreviation console_lines :: console where
  "console_lines \<equiv> [Downloading ''p1.jpg'', Downloading ''p2.jpg'', Downloaded ''p2.jpg'',
     Processing ''p2.jpg'', Processed ''p2.jpg'', Time_taken 1]"

section \<open>The tasks with their output\<close>

lemma download_logged_erase:
  "map_prod fst id (download_image_logged W cwd u s) = task_of (download_image W cwd) u (fst s)"
  by (cases s) (simp add: download_image_def task_of_def Let_def split: sum.split)

lemma process_logged_erase:
  "map_prod fst id (process_image_logged W cwd p s) = process_image W cwd p (fst s)"
  by (cases s) (simp add: Let_def split: prod.split option.split)

lemma download_logged_out:
  "snd (fst (download_image_logged W cwd u (fs, l))) =
     l @ (case img_name u of Inl e \<Rightarrow> []
          | Inr n \<Rightarrow> Downloading n # (case download_image W cwd u fs of Inl e \<Rightarrow> [] | Inr fs' \<Rightarrow> [Downloaded n]))"
  by (simp add: download_image_def Let_def split: sum.split)

lemma process_logged_out:
  "snd (fst (process_image_logged W cwd p (fs, l))) =
     l @ Processing (py_basename p) # (if snd (process_image W cwd p fs) = None then [Processed (py_basename p)] else [])"
  by (simp add: Let_def split: prod.split option.split)

section \<open>Erasing the console\<close>

text \<open>A stage with output and the same stage without it have the same runs on the store.\<close>

lemma download_run_erase:
  "(pool_step (download_image_logged W cwd))\<^sup>*\<^sup>* (xs, (f, l), es) (ys, (f', l'), es') \<Longrightarrow>
     (pool_step (task_of (download_image W cwd)))\<^sup>*\<^sup>* (xs, f, es) (ys, f', es')"
  using pool_run_map [where \<pi> = fst and t' = "download_image_logged W cwd" and t = "task_of (download_image W cwd)",
      OF download_logged_erase, of "(xs, (f, l), es)" "(ys, (f', l'), es')"]
  by simp

lemma download_run_lift:
  "(pool_step (task_of (download_image W cwd)))\<^sup>*\<^sup>* (xs, f, es) (ys, f', es') \<Longrightarrow>
     \<exists>l'. (pool_step (download_image_logged W cwd))\<^sup>*\<^sup>* (xs, (f, l), es) (ys, (f', l'), es')"
  using pool_run_lift [where \<pi> = fst and t' = "download_image_logged W cwd" and t = "task_of (download_image W cwd)",
      OF download_logged_erase, of xs "(f, l)" es "(ys, f', es')"]
  by (metis fst_conv prod.collapse snd_conv)

lemma process_run_erase:
  "(pool_step (process_image_logged W cwd))\<^sup>*\<^sup>* (xs, (f, l), es) (ys, (f', l'), es') \<Longrightarrow>
     (pool_step (process_image W cwd))\<^sup>*\<^sup>* (xs, f, es) (ys, f', es')"
  using pool_run_map [where \<pi> = fst and t' = "process_image_logged W cwd" and t = "process_image W cwd",
      OF process_logged_erase, of "(xs, (f, l), es)" "(ys, (f', l'), es')"]
  by simp

lemma process_run_lift:
  "(pool_step (process_image W cwd))\<^sup>*\<^sup>* (xs, f, es) (ys, f', es') \<Longrightarrow>
     \<exists>l'. (pool_step (process_image_logged W cwd))\<^sup>*\<^sup>* (xs, (f, l), es) (ys, (f', l'), es')"
  using pool_run_lift [where \<pi> = fst and t' = "process_image_logged W cwd" and t = "process_image W cwd",
      OF process_logged_erase, of xs "(f, l)" es "(ys, f', es')"]
  by (metis fst_conv prod.collapse snd_conv)

lemma main_log_exec_erase:
  "main_log_exec W cwd urls fs out (out', r) \<Longrightarrow> main_exec W cwd urls fs r"
  by (erule main_log_exec.cases)
     (auto intro: main_exec.intros dest: download_run_erase process_run_erase)

lemma main_exec_log:
  assumes "main_exec W cwd urls fs r"
  shows "\<exists>out'. main_log_exec W cwd urls fs out (out', r)"
  using assms
proof cases
  case (images_fail e)
  then show ?thesis by (blast intro: log_images_fail)
next
  case (processed_fail fs1 fs2 es1 e)
  then obtain out2 where "(pool_step (download_image_logged W cwd))\<^sup>*\<^sup>* (urls, (fs1, out), []) ([], (fs2, out2), es1)"
    using download_run_lift by blast
  with processed_fail show ?thesis by (blast intro: log_processed_fail)
next
  case (completed fs1 fs2 es1 fs3 fs4 es2)
  then obtain out2 where r1: "(pool_step (download_image_logged W cwd))\<^sup>*\<^sup>* (urls, (fs1, out), []) ([], (fs2, out2), es1)"
    using download_run_lift by blast
  from completed obtain out4 where r2: "(pool_step (process_image_logged W cwd))\<^sup>*\<^sup>*
      (glob_jpg fs3 (IMAGE_FOLDER cwd), (fs3, out2), []) ([], (fs4, out4), es2)"
    using process_run_lift by blast
  from completed r1 r2 show ?thesis by (blast intro: log_completed [where time_start = 0 and time_end = 0])
qed

text \<open>The run in submission order is one of the executions, for any monotonic clock readings.\<close>

lemma main_log_exec_logged:
  assumes t: "time_start \<le> time_end"
  shows "main_log_exec W cwd urls fs out (main_logged W cwd urls fs out time_start time_end)"
proof (cases "create_folder (IMAGE_FOLDER cwd) fs")
  case (Inl e)
  then show ?thesis by (simp add: main_logged_def log_images_fail)
next
  case (Inr fs1)
  note c1 = Inr
  obtain fs2 out2 where m1: "executor_map (download_image_logged W cwd) urls (fs1, out) = (fs2, out2)"
    by fastforce
  obtain es1 where r1: "(pool_step (download_image_logged W cwd))\<^sup>*\<^sup>* (urls, (fs1, out), []) ([], (fs2, out2), es1)"
    using pool_in_order [where t = "download_image_logged W cwd" and xs = urls and s = "(fs1, out)" and es = "[]"] m1
    by auto
  show ?thesis
  proof (cases "create_folder (PROCESSED_FOLDER cwd) fs2")
    case (Inl e)
    with c1 m1 log_processed_fail [OF c1 r1 Inl] show ?thesis by (simp add: main_logged_def)
  next
    case (Inr fs3)
    obtain fs4 out4 where m2: "executor_map (process_image_logged W cwd) (glob_jpg fs3 (IMAGE_FOLDER cwd)) (fs3, out2) = (fs4, out4)"
      by fastforce
    obtain es2 where r2: "(pool_step (process_image_logged W cwd))\<^sup>*\<^sup>* (glob_jpg fs3 (IMAGE_FOLDER cwd), (fs3, out2), []) ([], (fs4, out4), es2)"
      using pool_in_order [where t = "process_image_logged W cwd" and xs = "glob_jpg fs3 (IMAGE_FOLDER cwd)" and s = "(fs3, out2)" and es = "[]"] m2
      by auto
    from c1 m1 Inr m2 log_completed [OF c1 r1 Inr r2 t] show ?thesis by (simp add: main_logged_def)
  qed
qed

section \<open>What each stage prints\<close>

lemma download_logged_app:
  "\<exists>L. snd (fst (download_image_logged W cwd u (fs, l))) = l @ L \<and>
     set L \<subseteq> {Downloading n | n. img_name u = Inr n} \<union>
       {Downloaded n | n. img_name u = Inr n \<and> (\<exists>r. http_get W u = Inr r)} \<and>
     {Downloading n | n. img_name u = Inr n} \<subseteq> set L"
  unfolding download_logged_out by (auto simp: download_image_def split: sum.split)

lemma process_logged_app:
  "\<exists>L. snd (fst (process_image_logged W cwd p (fs, l))) = l @ L \<and>
     set L \<subseteq> {Processing (py_basename p), Processed (py_basename p)} \<and>
     {Processing (py_basename p)} \<subseteq> set L"
  unfolding process_logged_out by auto

text \<open>
  The download stage appends a start line for every URL and an end line only for a URL
  whose GET answered; the transform stage a start line, and possibly an end line, for
  every listed path.
\<close>

lemma download_stage_log:
  assumes run: "(pool_step (download_image_logged W cwd))\<^sup>*\<^sup>* (urls, (f, l), es) ([], (f', l'), es')"
  shows "\<exists>L. l' = l @ L \<and>
     set L \<subseteq> {Downloading n | n u. u \<in> set urls \<and> img_name u = Inr n} \<union>
       {Downloaded n | n u. u \<in> set urls \<and> img_name u = Inr n \<and> (\<exists>r. http_get W u = Inr r)} \<and>
     (\<forall>u \<in> set urls. \<forall>n. img_name u = Inr n \<longrightarrow> Downloading n \<in> set L)"
proof -
  let ?B = "{Downloading n | n u. u \<in> set urls \<and> img_name u = Inr n} \<union>
       {Downloaded n | n u. u \<in> set urls \<and> img_name u = Inr n \<and> (\<exists>r. http_get W u = Inr r)}"
  have app: "\<exists>L. snd (fst (download_image_logged W cwd x (s, k))) = k @ L \<and> set L \<subseteq> ?B \<and>
      {Downloading n | n. img_name x = Inr n} \<subseteq> set L"
    if x: "x \<in> set (fst (urls, (f, l), es))" for x s k
  proof -
    from download_logged_app [of W cwd x s k] obtain L where
      "snd (fst (download_image_logged W cwd x (s, k))) = k @ L"
      "set L \<subseteq> {Downloading n | n. img_name x = Inr n} \<union>
         {Downloaded n | n. img_name x = Inr n \<and> (\<exists>r. http_get W x = Inr r)}"
      "{Downloading n | n. img_name x = Inr n} \<subseteq> set L" by blast
    moreover have "{Downloading n | n. img_name x = Inr n} \<union>
         {Downloaded n | n. img_name x = Inr n \<and> (\<exists>r. http_get W x = Inr r)} \<subseteq> ?B"
      using x by auto
    ultimately show ?thesis by (meson order_trans)
  qed
  from pool_log [where P = "(urls, (f, l), es)" and t = "download_image_logged W cwd" and B = ?B
      and f = "\<lambda>u. {Downloading n | n. img_name u = Inr n}", OF app run]
  obtain L where "l' = l @ L" "set L \<subseteq> ?B" and each: "\<forall>u \<in> set urls. {Downloading n | n. img_name u = Inr n} \<subseteq> set L"
    by (simp only: fst_conv snd_conv list.set(1) empty_iff simp_thms) blast
  moreover from each have "\<forall>u \<in> set urls. \<forall>n. img_name u = Inr n \<longrightarrow> Downloading n \<in> set L"
    by blast
  ultimately show ?thesis by blast
qed

lemma process_stage_log:
  assumes run: "(pool_step (process_image_logged W cwd))\<^sup>*\<^sup>* (ps, (f, l), es) ([], (f', l'), es')"
  shows "\<exists>L. l' = l @ L \<and>
     set L \<subseteq> {Processing (py_basename p) | p. p \<in> set ps} \<union> {Processed (py_basename p) | p. p \<in> set ps} \<and>
     (\<forall>p \<in> set ps. Processing (py_basename p) \<in> set L)"
proof -
  let ?B = "{Processing (py_basename p) | p. p \<in> set ps} \<union> {Processed (py_basename p) | p. p \<in> set ps}"
  have app: "\<exists>L. snd (fst (process_image_logged W cwd x (s, k))) = k @ L \<and> set L \<subseteq> ?B \<and>
      {Processing (py_basename x)} \<subseteq> set L"
    if x: "x \<in> set (fst (ps, (f, l), es))" for x s k
  proof -
    from process_logged_app [of W cwd x s k] obtain L where
      "snd (fst (process_image_logged W cwd x (s, k))) = k @ L"
      "set L \<subseteq> {Processing (py_basename x), Processed (py_basename x)}"
      "{Processing (py_basename x)} \<subseteq> set L" by blast
    moreover have "{Processing (py_basename x), Processed (py_basename x)} \<subseteq> ?B"
      using x by auto
    ultimately show ?thesis by (meson order_trans)
  qed
  from pool_log [where P = "(ps, (f, l), es)" and t = "process_image_logged W cwd" and B = ?B
      and f = "\<lambda>p. {Processing (py_basename p)}", OF app run]
  obtain L where "l' = l @ L" "set L \<subseteq> ?B" and each: "\<forall>p \<in> set ps. {Processing (py_basename p)} \<subseteq> set L"
    by (simp only: fst_conv snd_conv list.set(1) empty_iff simp_thms) blast
  moreover from each have "\<forall>p \<in> set ps. Processing (py_basename p) \<in> set L"
    by blast
  ultimately show ?thesis by blast
qed

section \<open>What a printed line says about the store\<close>

lemma download_logged_files:
  assumes wf: "fs_wf f" and t: "download_image_logged W cwd u (f, l) = ((f', l'), r)"
  shows "fs_wf f' \<and> (\<forall>q. is_file f q \<longrightarrow> is_file f' q) \<and>
    (\<forall>n. Downloaded n \<in> set l' \<longrightarrow> Downloaded n \<in> set l \<or> (is_file f' (IMAGE_FOLDER cwd @ [n]) \<and> suffix ''.jpg'' n))"
proof -
  obtain n where n: "img_name u = Inr n" using img_name_eq by blast
  show ?thesis
  proof (cases "http_get W u")
    case (Inl e)
    with n t wf show ?thesis by auto
  next
    case (Inr resp)
    show ?thesis
    proof (cases "write_file (IMAGE_FOLDER cwd @ [n]) (content resp) f")
      case (Inl e)
      with n Inr t wf show ?thesis by auto
    next
      case (Inr g)
      with n \<open>http_get W u = Inr resp\<close> t have g: "f' = g" "l' = l @ [Downloading n, Downloaded n]" by auto
      from write_file_Inr [OF wf Inr] img_name_chars [OF n] g show ?thesis
        by (auto simp: is_file_def)
    qed
  qed
qed

text \<open>Along the download stage the store stays well formed and every \<^verbatim>\<open>Downloaded\<close> line it prints names a stored \<^verbatim>\<open>.jpg\<close> file.\<close>

lemma download_stage_files:
  assumes run: "(pool_step (download_image_logged W cwd))\<^sup>*\<^sup>* (urls, (f, l), es) ([], (f', l'), es')"
    and wf: "fs_wf f"
  shows "fs_wf f' \<and>
    (\<forall>n. Downloaded n \<in> set l' \<longrightarrow> Downloaded n \<in> set l \<or> (is_file f' (IMAGE_FOLDER cwd @ [n]) \<and> suffix ''.jpg'' n))"
proof -
  let ?J = "\<lambda>xs :: string list. \<lambda>(g, k). fs_wf g \<and>
    (\<forall>n. Downloaded n \<in> set k \<longrightarrow> Downloaded n \<in> set l \<or> (is_file g (IMAGE_FOLDER cwd @ [n]) \<and> suffix ''.jpg'' n))"
  have keep: "?J (take i xs @ drop (Suc i) xs) (fst (download_image_logged W cwd (xs ! i) s))"
    if J: "?J xs s" and "i < length xs" for xs s i
  proof -
    obtain g k where s: "s = (g, k)" by fastforce
    obtain g' k' r where t: "download_image_logged W cwd (xs ! i) (g, k) = ((g', k'), r)"
      by (metis prod.collapse)
    from J s have wfg: "fs_wf g" and old: "\<forall>n. Downloaded n \<in> set k \<longrightarrow>
        Downloaded n \<in> set l \<or> (is_file g (IMAGE_FOLDER cwd @ [n]) \<and> suffix ''.jpg'' n)" by simp_all
    from download_logged_files [OF wfg t] old have "?J (take i xs @ drop (Suc i) xs) (g', k')" by blast
    with s t show ?thesis by simp
  qed
  from pool_run_inv [where J = ?J and t = "download_image_logged W cwd", OF keep run] wf show ?thesis by simp
qed

lemma save_jpeg_None: "save_jpeg W p img fs = (fs', None) \<Longrightarrow> is_file fs' p"
  by (auto simp: save_jpeg_def is_file_def update_conv' split: sum.splits if_splits)

lemma process_image_files:
  assumes wf: "fs_wf g" and t: "process_image W cwd q g = (g', r)"
  shows "fs_wf g' \<and>
    (\<forall>p. p \<noteq> PROCESSED_FOLDER cwd @ [''thumb_'' @ py_basename q] \<longrightarrow> is_file g' p = is_file g p) \<and>
    (r = None \<longrightarrow> is_file g' (PROCESSED_FOLDER cwd @ [''thumb_'' @ py_basename q]))"
proof -
  from process_image_refines [OF wf, of W cwd q] t
  have wf': "fs_wf g'" and ab: "fs_abs g' = a_transform W cwd q (fs_abs g)" by simp_all
  have "is_file g' p = is_file g p" if "p \<noteq> PROCESSED_FOLDER cwd @ [''thumb_'' @ py_basename q]" for p
  proof -
    from a_transform_other [OF that, of W "fs_abs g"] ab have "a_files (fs_abs g') p = a_files (fs_abs g) p" by simp
    then show ?thesis by (simp add: is_file_def fs_abs_def)
  qed
  moreover have "is_file g' (PROCESSED_FOLDER cwd @ [''thumb_'' @ py_basename q])" if "r = None"
    using t that by (auto simp: process_image_def Let_def split: sum.splits dest: save_jpeg_None)
  ultimately show ?thesis using wf' by blast
qed

lemma glob_jpg_basenames:
  assumes wf: "fs_wf fs" and nm: "no_magic d"
  shows "distinct (map py_basename (glob_jpg fs d))"
proof -
  have "inj_on py_basename (set (glob_jpg fs d))"
    by (rule inj_onI) (auto simp: py_basename_def dest!: glob_jpg_children [OF nm])
  with listdir_distinct [OF wf, of d] show ?thesis
    by (simp add: distinct_map glob_jpg_plain [OF nm])
qed

text \<open>
  Along the transform stage of distinct names, every \<^verbatim>\<open>Processed\<close> line it prints names
  a thumbnail that is on disk when the stage is over: a later task writes or removes
  only its own thumbnail.
\<close>

lemma process_stage_thumbs:
  assumes run: "(pool_step (process_image_logged W cwd))\<^sup>*\<^sup>* (ps, (f, l), es) ([], (f', l'), es')"
    and wf: "fs_wf f" and d: "distinct (map py_basename ps)"
  shows "fs_wf f' \<and>
    (\<forall>m. Processed m \<in> set l' \<longrightarrow> Processed m \<in> set l \<or> is_file f' (PROCESSED_FOLDER cwd @ [''thumb_'' @ m]))"
proof -
  let ?J = "\<lambda>xs :: path list. \<lambda>(g, k). fs_wf g \<and> distinct (map py_basename xs) \<and>
    (\<forall>m. Processed m \<in> set k \<longrightarrow> Processed m \<in> set l \<or>
       (is_file g (PROCESSED_FOLDER cwd @ [''thumb_'' @ m]) \<and> (\<forall>q \<in> set xs. py_basename q \<noteq> m)))"
  have keep: "?J (take i xs @ drop (Suc i) xs) (fst (process_image_logged W cwd (xs ! i) s))"
    if J: "?J xs s" and i: "i < length xs" for xs s i
  proof -
    obtain g k where s: "s = (g, k)" by fastforce
    obtain g' r where t: "process_image W cwd (xs ! i) g = (g', r)" by fastforce
    let ?b = "py_basename (xs ! i)"
    let ?rest = "take i xs @ drop (Suc i) xs"
    from J s have wfg: "fs_wf g" and dx: "distinct (map py_basename xs)"
      and old: "\<forall>m. Processed m \<in> set k \<longrightarrow> Processed m \<in> set l \<or>
         (is_file g (PROCESSED_FOLDER cwd @ [''thumb_'' @ m]) \<and> (\<forall>q \<in> set xs. py_basename q \<noteq> m))"
      by simp_all
    from distinct_map_remove_nth [OF dx i] have dr: "distinct (map py_basename ?rest)"
      and br: "?b \<notin> py_basename ` set ?rest" by simp_all
    from process_image_files [OF wfg t] have wf': "fs_wf g'"
      and oth: "\<forall>p. p \<noteq> PROCESSED_FOLDER cwd @ [''thumb_'' @ ?b] \<longrightarrow> is_file g' p = is_file g p"
      and new: "r = None \<longrightarrow> is_file g' (PROCESSED_FOLDER cwd @ [''thumb_'' @ ?b])" by simp_all
    have st: "fst (process_image_logged W cwd (xs ! i) (g, k)) =
        (g', k @ Processing ?b # (if r = None then [Processed ?b] else []))"
      using t by (cases r) (simp_all add: Let_def)
    have sub: "set ?rest \<subseteq> set xs" by (rule set_take_drop_sub)
    have "Processed m \<in> set l \<or>
        (is_file g' (PROCESSED_FOLDER cwd @ [''thumb_'' @ m]) \<and> (\<forall>q \<in> set ?rest. py_basename q \<noteq> m))"
      if m: "Processed m \<in> set (k @ Processing ?b # (if r = None then [Processed ?b] else []))" for m
    proof -
      from m consider (before) "Processed m \<in> set k" | (now) "m = ?b" "r = None"
        by (auto split: if_splits)
      then show ?thesis
      proof cases
        case before
        with old have "Processed m \<in> set l \<or>
            (is_file g (PROCESSED_FOLDER cwd @ [''thumb_'' @ m]) \<and> (\<forall>q \<in> set xs. py_basename q \<noteq> m))"
          by blast
        moreover from i have "xs ! i \<in> set xs" by simp
        ultimately show ?thesis using oth sub by auto
      next
        case now
        with new br show ?thesis by (auto simp del: set_append) (metis image_eqI)
      qed
    qed
    with wf' dr s st show ?thesis by simp
  qed
  from pool_run_inv [where J = ?J and t = "process_image_logged W cwd", OF keep run] wf d show ?thesis
    by simp
qed

lemma main_log_exec_InrE:
  assumes "main_log_exec W cwd urls fs out (out', Inr fs')"
  obtains fs1 fs2 out2 es1 fs3 out4 es2 time_start time_end where
    "create_folder (IMAGE_FOLDER cwd) fs = Inr fs1"
    "(pool_step (download_image_logged W cwd))\<^sup>*\<^sup>* (urls, (fs1, out), []) ([], (fs2, out2), es1)"
    "create_folder (PROCESSED_FOLDER cwd) fs2 = Inr fs3"
    "(pool_step (process_image_logged W cwd))\<^sup>*\<^sup>* (glob_jpg fs3 (IMAGE_FOLDER cwd), (fs3, out2), [])
       ([], (fs', out4), es2)"
    "time_start \<le> time_end" "out' = out4 @ [Time_taken (time_end - time_start)]"
  using assms by cases auto

lemma console_demo_out:
  "fst (main_logged console_world [''h''] console_urls console_fs [] 0 1) = console_lines"
  by code_simp

lemma console_demo_ok: "\<not> isl (snd (main_logged console_world [''h''] console_urls console_fs [] 0 1))"
  by code_simp

lemma console_demo_exec:
  "\<exists>fs'. main_log_exec console_world [''h''] console_urls console_fs [] (console_lines, Inr fs')"
proof -
  have ex: "main_log_exec console_world [''h''] console_urls console_fs [] (main_logged console_world [''h''] console_urls console_fs [] 0 1)"
    by (rule main_log_exec_logged) simp
  from console_demo_ok obtain fs' where sn: "snd (main_logged console_world [''h''] console_urls console_fs [] 0 1) = Inr fs'"
    by (cases "snd (main_logged console_world [''h''] console_urls console_fs [] 0 1)") auto
  have "main_logged console_world [''h''] console_urls console_fs [] 0 1 = (console_lines, Inr fs')"
    by (rule prod_eqI) (simp only: console_demo_out fst_conv, simp only: sn snd_conv)
  with ex show ?thesis by (intro exI [of _ fs']) simp
qed

section \<open>Properties of the output\<close>

text \<open>
  C26: the output of a run of \<^verbatim>\<open>main\<close> that returns is the download lines, then the
  process lines, then one time line with a non-negative elapsed time: the two pools
  are barriers, so no line of a stage is printed after a line of the next one. Every
  URL has its \<^verbatim>\<open>Downloading\<close> line.
\<close>

theorem main_output_order:
  assumes ex: "main_log_exec W cwd urls fs out (out', Inr fs')"
  shows "\<exists>L1 L2 d. out' = out @ L1 @ L2 @ [Time_taken d] \<and> 0 \<le> d \<and>
     (\<forall>l \<in> set L1. download_line l) \<and> (\<forall>l \<in> set L2. process_line l) \<and>
     (\<forall>u \<in> set urls. \<forall>n. img_name u = Inr n \<longrightarrow> Downloading n \<in> set L1)"
proof -
  obtain fs1 fs2 out2 es1 fs3 out4 es2 ts te where
    r1: "(pool_step (download_image_logged W cwd))\<^sup>*\<^sup>* (urls, (fs1, out), []) ([], (fs2, out2), es1)"
    and r2: "(pool_step (process_image_logged W cwd))\<^sup>*\<^sup>* (glob_jpg fs3 (IMAGE_FOLDER cwd), (fs3, out2), [])
       ([], (fs', out4), es2)"
    and t: "ts \<le> te" and o: "out' = out4 @ [Time_taken (te - ts)]"
    by (rule main_log_exec_InrE [OF ex])
  from download_stage_log [OF r1] obtain L1 where o2: "out2 = out @ L1"
    and b1: "set L1 \<subseteq> {Downloading n | n u. u \<in> set urls \<and> img_name u = Inr n} \<union>
       {Downloaded n | n u. u \<in> set urls \<and> img_name u = Inr n \<and> (\<exists>r. http_get W u = Inr r)}"
    and each: "\<forall>u \<in> set urls. \<forall>n. img_name u = Inr n \<longrightarrow> Downloading n \<in> set L1" by blast
  from process_stage_log [OF r2] obtain L2 where o4: "out4 = out2 @ L2"
    and b2: "set L2 \<subseteq> {Processing (py_basename p) | p. p \<in> set (glob_jpg fs3 (IMAGE_FOLDER cwd))} \<union>
       {Processed (py_basename p) | p. p \<in> set (glob_jpg fs3 (IMAGE_FOLDER cwd))}" by blast
  from b1 have "\<forall>l \<in> set L1. download_line l" by auto
  moreover from b2 have "\<forall>l \<in> set L2. process_line l" by auto
  ultimately show ?thesis using o o2 o4 t each by auto
qed

text \<open>
  C27: the spec's hand-off between the stages, on the console: when the working
  directory holds no wildcard character, every visible image the download stage
  announces as stored (a \<^verbatim>\<open>Downloaded\<close> line) is then announced as
  being processed (a \<^verbatim>\<open>Processing\<close> line). A name beginning with a dot is skipped by
  \<^verbatim>\<open>glob\<close>.
\<close>

theorem main_downloaded_processed:
  assumes wf: "fs_wf fs" and nm: "no_magic cwd" and ex: "main_log_exec W cwd urls fs out (out', Inr fs')"
    and d: "Downloaded n \<in> set out'" and nd: "Downloaded n \<notin> set out" and vis: "\<not> is_hidden n"
  shows "Processing n \<in> set out'"
proof -
  obtain fs1 fs2 out2 es1 fs3 out4 es2 ts te where c1: "create_folder (IMAGE_FOLDER cwd) fs = Inr fs1"
    and r1: "(pool_step (download_image_logged W cwd))\<^sup>*\<^sup>* (urls, (fs1, out), []) ([], (fs2, out2), es1)"
    and c3: "create_folder (PROCESSED_FOLDER cwd) fs2 = Inr fs3"
    and r2: "(pool_step (process_image_logged W cwd))\<^sup>*\<^sup>* (glob_jpg fs3 (IMAGE_FOLDER cwd), (fs3, out2), [])
       ([], (fs', out4), es2)"
    and o: "out' = out4 @ [Time_taken (te - ts)]"
    by (rule main_log_exec_InrE [OF ex])
  from path_mkdir_Inr [OF c1 [unfolded create_folder_def] wf] have wf1: "fs_wf fs1" by simp
  from download_stage_files [OF r1 wf1] have wf2: "fs_wf fs2"
    and dl: "\<forall>n. Downloaded n \<in> set out2 \<longrightarrow> Downloaded n \<in> set out \<or>
       (is_file fs2 (IMAGE_FOLDER cwd @ [n]) \<and> suffix ''.jpg'' n)" by simp_all
  from path_mkdir_Inr [OF c3 [unfolded create_folder_def] wf2] have wf3: "fs_wf fs3"
    and f3: "fs_files fs3 = fs_files fs2" by simp_all
  from process_stage_log [OF r2] obtain L2 where o4: "out4 = out2 @ L2"
    and b2: "set L2 \<subseteq> {Processing (py_basename p) | p. p \<in> set (glob_jpg fs3 (IMAGE_FOLDER cwd))} \<union>
       {Processed (py_basename p) | p. p \<in> set (glob_jpg fs3 (IMAGE_FOLDER cwd))}"
    and each: "\<forall>p \<in> set (glob_jpg fs3 (IMAGE_FOLDER cwd)). Processing (py_basename p) \<in> set L2" by blast
  from b2 have "Downloaded n \<notin> set L2" by auto
  with d o o4 have "Downloaded n \<in> set out2" by auto
  with dl nd have fl: "is_file fs2 (IMAGE_FOLDER cwd @ [n])" and jpg: "suffix ''.jpg'' n" by auto
  from fl is_file_files_eq [OF f3] have "is_file fs3 (IMAGE_FOLDER cwd @ [n])" by simp
  from glob_jpg_mem [OF no_magic_image_folder [OF nm] this vis jpg] each
  have "Processing (py_basename (IMAGE_FOLDER cwd @ [n])) \<in> set L2" by blast
  then show ?thesis using o o4 by (simp add: py_basename_def)
qed

text \<open>
  C28: a download whose GET raises is silent about it, and does not stop the program:
  when no component of the processed folder's path is a regular file and no other URL
  has its name, every execution of \<^verbatim>\<open>main\<close> returns normally, and its output holds the
  URL's \<^verbatim>\<open>Downloading\<close> line and no \<^verbatim>\<open>Downloaded\<close> line; nothing else tells the
  failure (the exception stays in the unread future).
\<close>

theorem main_failed_download_silent:
  assumes wf: "fs_wf fs" and nf: "no_file_on_path fs (PROCESSED_FOLDER cwd)"
    and ex: "main_log_exec W cwd urls fs out (out', r)"
    and u: "u \<in> set urls" and n: "img_name u = Inr n" and get: "http_get W u = Inl e"
    and uniq: "\<forall>v \<in> set urls. img_name v = Inr n \<longrightarrow> v = u" and nd: "Downloaded n \<notin> set out"
  shows "\<exists>fs'. r = Inr fs' \<and> Downloading n \<in> set out' \<and> Downloaded n \<notin> set out'"
proof -
  from main_exec_Inr [OF wf nf main_log_exec_erase [OF ex]] obtain fs' where rf: "r = Inr fs'" by blast
  obtain fs1 fs2 out2 es1 fs3 out4 es2 ts te where
    r1: "(pool_step (download_image_logged W cwd))\<^sup>*\<^sup>* (urls, (fs1, out), []) ([], (fs2, out2), es1)"
    and r2: "(pool_step (process_image_logged W cwd))\<^sup>*\<^sup>* (glob_jpg fs3 (IMAGE_FOLDER cwd), (fs3, out2), [])
       ([], (fs', out4), es2)"
    and o: "out' = out4 @ [Time_taken (te - ts)]"
    by (rule main_log_exec_InrE [OF ex [unfolded rf]])
  from download_stage_log [OF r1] obtain L1 where o2: "out2 = out @ L1"
    and b1: "set L1 \<subseteq> {Downloading n | n u. u \<in> set urls \<and> img_name u = Inr n} \<union>
       {Downloaded n | n u. u \<in> set urls \<and> img_name u = Inr n \<and> (\<exists>r. http_get W u = Inr r)}"
    and each: "\<forall>u \<in> set urls. \<forall>n. img_name u = Inr n \<longrightarrow> Downloading n \<in> set L1" by blast
  from process_stage_log [OF r2] obtain L2 where o4: "out4 = out2 @ L2"
    and b2: "set L2 \<subseteq> {Processing (py_basename p) | p. p \<in> set (glob_jpg fs3 (IMAGE_FOLDER cwd))} \<union>
       {Processed (py_basename p) | p. p \<in> set (glob_jpg fs3 (IMAGE_FOLDER cwd))}" by blast
  have "Downloaded n \<notin> set L1"
  proof
    assume "Downloaded n \<in> set L1"
    with b1 obtain v r where "v \<in> set urls" "img_name v = Inr n" "http_get W v = Inr r" by auto
    with uniq get show False by auto
  qed
  moreover from b2 have "Downloaded n \<notin> set L2" by auto
  moreover from each u n have "Downloading n \<in> set L1" by blast
  ultimately show ?thesis using rf o o2 o4 nd by auto
qed

text \<open>
  C29: when the working directory holds no wildcard character, a \<^verbatim>\<open>Processed\<close> line
  is printed only for a thumbnail that is on disk when \<^verbatim>\<open>main\<close> returns: the listed
  images have distinct names, so no other task of the transform stage overwrites or
  removes it.
\<close>

theorem main_processed_on_disk:
  assumes wf: "fs_wf fs" and nm: "no_magic cwd" and ex: "main_log_exec W cwd urls fs out (out', Inr fs')"
    and p: "Processed n \<in> set out'" and np: "Processed n \<notin> set out"
  shows "is_file fs' (PROCESSED_FOLDER cwd @ [''thumb_'' @ n])"
proof -
  obtain fs1 fs2 out2 es1 fs3 out4 es2 ts te where c1: "create_folder (IMAGE_FOLDER cwd) fs = Inr fs1"
    and r1: "(pool_step (download_image_logged W cwd))\<^sup>*\<^sup>* (urls, (fs1, out), []) ([], (fs2, out2), es1)"
    and c3: "create_folder (PROCESSED_FOLDER cwd) fs2 = Inr fs3"
    and r2: "(pool_step (process_image_logged W cwd))\<^sup>*\<^sup>* (glob_jpg fs3 (IMAGE_FOLDER cwd), (fs3, out2), [])
       ([], (fs', out4), es2)"
    and o: "out' = out4 @ [Time_taken (te - ts)]"
    by (rule main_log_exec_InrE [OF ex])
  from path_mkdir_Inr [OF c1 [unfolded create_folder_def] wf] have wf1: "fs_wf fs1" by simp
  from download_stage_files [OF r1 wf1] have wf2: "fs_wf fs2" by simp
  from download_stage_log [OF r1] obtain L1 where o2: "out2 = out @ L1"
    and b1: "set L1 \<subseteq> {Downloading n | n u. u \<in> set urls \<and> img_name u = Inr n} \<union>
       {Downloaded n | n u. u \<in> set urls \<and> img_name u = Inr n \<and> (\<exists>r. http_get W u = Inr r)}" by blast
  from path_mkdir_Inr [OF c3 [unfolded create_folder_def] wf2] have wf3: "fs_wf fs3" by simp
  from process_stage_thumbs [OF r2 wf3 glob_jpg_basenames [OF wf3 no_magic_image_folder [OF nm]]]
  have th: "\<forall>m. Processed m \<in> set out4 \<longrightarrow> Processed m \<in> set out2 \<or>
     is_file fs' (PROCESSED_FOLDER cwd @ [''thumb_'' @ m])" by simp
  from b1 np o2 have "Processed n \<notin> set out2" by auto
  with th p o show ?thesis by auto
qed

section \<open>Witnesses\<close>

theorem main_output_order_witness:
  "\<exists>fs'. main_log_exec console_world [''h''] console_urls console_fs [] (console_lines, Inr fs') \<and>
     (\<exists>L1 L2 d. console_lines = [] @ L1 @ L2 @ [Time_taken d] \<and> 0 \<le> d \<and>
       (\<forall>l \<in> set L1. download_line l) \<and> (\<forall>l \<in> set L2. process_line l) \<and>
       (\<forall>u \<in> set console_urls. \<forall>n. img_name u = Inr n \<longrightarrow> Downloading n \<in> set L1))"
proof -
  from console_demo_exec obtain fs' where
    ex: "main_log_exec console_world [''h''] console_urls console_fs [] (console_lines, Inr fs')" by blast
  from main_output_order [OF ex] ex show ?thesis by blast
qed

theorem main_downloaded_processed_witness:
  "\<exists>fs'. main_log_exec console_world [''h''] console_urls console_fs [] (console_lines, Inr fs') \<and>
     Downloaded ''p2.jpg'' \<in> set console_lines \<and> Downloaded ''p2.jpg'' \<notin> set [] \<and> \<not> is_hidden ''p2.jpg'' \<and>
     Processing ''p2.jpg'' \<in> set console_lines"
proof -
  from console_demo_exec obtain fs' where
    ex: "main_log_exec console_world [''h''] console_urls console_fs [] (console_lines, Inr fs')" by blast
  have d: "Downloaded ''p2.jpg'' \<in> set console_lines" by simp
  have vis: "\<not> is_hidden ''p2.jpg''" by (simp add: is_hidden_def)
  from main_downloaded_processed [OF main_demo_wf main_demo_nm ex d _ vis] ex d vis show ?thesis by auto
qed

theorem main_failed_download_silent_witness:
  "\<exists>fs'. main_log_exec console_world [''h''] console_urls console_fs [] (console_lines, Inr fs') \<and>
     no_file_on_path console_fs (PROCESSED_FOLDER [''h'']) \<and> img_name ''https://a.org/p1'' = Inr ''p1.jpg'' \<and> http_get console_world ''https://a.org/p1'' = Inl ConnectionError \<and>
     Downloading ''p1.jpg'' \<in> set console_lines \<and> Downloaded ''p1.jpg'' \<notin> set console_lines"
proof -
  from console_demo_exec obtain fs' where
    ex: "main_log_exec console_world [''h''] console_urls console_fs [] (console_lines, Inr fs')" by blast
  have u: "''https://a.org/p1'' \<in> set console_urls" by simp
  have n: "img_name ''https://a.org/p1'' = Inr ''p1.jpg''" by code_simp
  have get: "http_get console_world ''https://a.org/p1'' = Inl ConnectionError" by simp
  have uniq: "\<forall>v \<in> set console_urls. img_name v = Inr ''p1.jpg'' \<longrightarrow> v = ''https://a.org/p1''" by code_simp
  from main_failed_download_silent [OF main_demo_wf main_demo_nf ex u n get uniq] ex n get main_demo_nf
  show ?thesis by auto
qed

theorem main_processed_on_disk_witness:
  "\<exists>fs'. main_log_exec console_world [''h''] console_urls console_fs [] (console_lines, Inr fs') \<and>
     Processed ''p2.jpg'' \<in> set console_lines \<and>
     is_file fs' (PROCESSED_FOLDER [''h''] @ [''thumb_p2.jpg''])"
proof -
  from console_demo_exec obtain fs' where
    ex: "main_log_exec console_world [''h''] console_urls console_fs [] (console_lines, Inr fs')" by blast
  have p: "Processed ''p2.jpg'' \<in> set console_lines" by simp
  from main_processed_on_disk [OF main_demo_wf main_demo_nm ex p] ex p show ?thesis by auto
qed

end
