(* ===== verification/Spec2Isabelle.thy ===== *)
theory Spec2Isabelle
  imports Console
begin

text \<open>
  \<^bold>\<open>A verification development for \<^verbatim>\<open>src/main.py\<close>.\<close>

  \<^medskip>\<^bold>\<open>The program.\<close> \<^verbatim>\<open>main\<close> (lines 79--91) creates \<^verbatim>\<open>IMAGE_FOLDER\<close>
  (\<^verbatim>\<open>create_folder\<close>, lines 37--43), downloads the fixed list \<^verbatim>\<open>IMAGE_URLS\<close>
  (lines 10--32) on a thread pool with \<^verbatim>\<open>download_image\<close> (lines 47--59), creates
  \<^verbatim>\<open>PROCESSED_FOLDER\<close>, lists \<^verbatim>\<open>IMAGE_FOLDER/*.jpg\<close> with \<^verbatim>\<open>glob\<close> and runs
  \<^verbatim>\<open>process_image\<close> (lines 62--76: open, Gaussian blur, \<^verbatim>\<open>thumbnail((300, 300))\<close>,
  save as JPEG under \<^verbatim>\<open>thumb_<name>\<close>) over the listing on a process pool. The two
  stages share only the file store and the console: each task prints a start and an end
  line, and \<^verbatim>\<open>main\<close> prints the elapsed \<^verbatim>\<open>time.perf_counter\<close> time.

  \<^medskip>\<^bold>\<open>Theories and what they model.\<close>
  \<^item> \<open>Prelude\<close>: byte and path types, the Python exceptions as the datatype
    \<open>py_error\<close>, Python's negative list indexing \<open>py_getitem\<close>, shared list and
    association-list lemmas.
  \<^item> \<open>PyStr\<close>: \<^verbatim>\<open>str.split(sep)\<close> as \<open>py_split\<close> and \<^verbatim>\<open>sep.join\<close> as
    \<open>py_join\<close>, with both round trips.
  \<^item> \<open>FileSystem\<close>: the file store the program sees, a record \<open>fs\<close> of a directory list and
    an association list of files, with well-formedness \<open>fs_wf\<close>. It holds \<^verbatim>\<open>os.mkdir\<close>
    (\<open>os_mkdir\<close>), \<^verbatim>\<open>Path.mkdir(parents, exist_ok)\<close> (\<open>path_mkdir\<close>, recursion on the path
    length), \<^verbatim>\<open>open(..,"wb").write\<close> (\<open>write_file\<close>), \<^verbatim>\<open>open(..,"rb").read\<close>
    (\<open>read_file\<close>) and \<^verbatim>\<open>os.remove\<close> (\<open>remove_file\<close>). Each operation returns
    \<open>py_error + fs\<close> with the errno-derived exception of POSIX. Its abstract view
    \<open>fs_abs\<close> (set of directories, map of files) carries the POSIX contracts \<open>a_write\<close>
    and \<open>a_makedirs\<close>, with refinement lemmas. These are library behaviour, modelled from
    the documentation rather than from code of the repository.
  \<^item> \<open>Folders\<close>: \<^verbatim>\<open>IMAGE_FOLDER\<close>, \<^verbatim>\<open>PROCESSED_FOLDER\<close>, \<^verbatim>\<open>create_folder\<close>.
  \<^item> \<open>World\<close>: the network and PIL as an explicit record parameter \<open>world\<close>. The contract
    \<open>pil_ok\<close> says blur keeps the size, resampling gives the requested size, and a
    successful encoding decodes to the same size. No axioms.
  \<^item> \<open>Executor\<close>: \<^verbatim>\<open>executor.map\<close> inside \<^verbatim>\<open>with\<close>. Every interleaving of the tasks
    is a run of the inductive step relation \<open>pool_step\<close>; \<open>executor_map\<close> is the
    run in submission order. Task exceptions are stored, never raised.
  \<^item> \<open>Fetcher\<close>: \<^verbatim>\<open>IMAGE_URLS\<close>, the file-name expression of line 53 (\<open>img_name\<close>),
    \<open>download_image\<close>, and its abstract effect \<open>a_download\<close>.
  \<^item> \<open>Thumbnail\<close>: the size computation of PIL's \<^verbatim>\<open>Image.thumbnail\<close>
    (\<open>preserve_aspect_ratio\<close>, \<open>round_aspect\<close>) and \<open>thumbnail\<close>.
  \<^item> \<open>Transformer\<close>: the listing of line 88 (\<open>glob_jpg\<close>) through a model of
    Python's \<^verbatim>\<open>glob\<close> and \<^verbatim>\<open>fnmatch\<close> modules (\<open>py_glob\<close>, \<open>glob_expand\<close>,
    \<open>glob_in\<close>, \<open>fnmatch\<close> with character classes), so that the working directory,
    pasted unescaped into the pattern, is matched as a pattern too; the blur of line 72
    (\<open>gaussian_blur\<close>), which raises \<^verbatim>\<open>ValueError\<close> for modes outside
    \<open>BLUR_MODES\<close>; PIL's \<^verbatim>\<open>save\<close> (\<open>save_jpeg\<close>, including its clean-up when the
    encoder raises); and \<open>process_image\<close>. Its abstract effect is \<open>a_transform\<close>.
  \<^item> \<open>Orchestrator\<close>: \<open>main_with\<close> (the submission-order run of \<^verbatim>\<open>main\<close>),
    \<open>main\<close>, and the inductive \<open>main_exec\<close> of all executions.
  \<^item> \<open>Console\<close>: the \<^verbatim>\<open>print\<close> calls (lines 54, 59, 69, 76, 91) as values of
    \<open>out_line\<close>, appended to a console list carried beside the store.
    \<open>download_image_logged\<close> and \<open>process_image_logged\<close> are the task bodies with
    their prints, \<open>main_logged\<close> is the submission-order run with output, and
    \<open>main_log_exec\<close> is every execution with output. \<^verbatim>\<open>time.perf_counter\<close> is a
    monotonic clock: any two readings \<open>time_start \<le> time_end\<close>.

  \<^medskip>\<^bold>\<open>What is proved.\<close>
  \<^item> Folder creation: it succeeds exactly when no prefix of the path is a file, it
    refines \<^verbatim>\<open>mkdir -p\<close>, it is idempotent, and it keeps \<open>fs_wf\<close>.
  \<^item> File names: the split/join round trips (lemmas of \<open>PyStr\<close>); \<open>img_name\<close> never
    raises and computes the spec's derivation; the name is one path component; the 21
    URLs have distinct names (\<open>IMAGE_URLS_img_name_inj\<close>).
  \<^item> Downloads: the body is written whatever the HTTP status; a network error writes
    nothing.
  \<^item> Pools (lemmas of \<open>Executor\<close>): the interleavings are exactly the permutations,
    and they terminate at the barrier. When abstract steps commute, every interleaving
    agrees. Instances: the download stage (distinct names), the transform stage and all
    of \<^verbatim>\<open>main\<close> (working directory without wildcard characters).
  \<^item> Thumbnails: at most 300 by 300, at least 1 by 1, no upscaling, aspect ratio within
    one pixel.
  \<^item> Transformer: for a working directory without wildcard characters (\<open>no_magic\<close>),
    \<^verbatim>\<open>glob\<close> returns exactly the visible \<^verbatim>\<open>*.jpg\<close> entries. Otherwise line 88 is
    wrong both ways: it can miss the image folder entirely
    (\<open>glob_jpg_misses_own_folder\<close>) and list the images of sibling folders
    (\<open>glob_jpg_outside_folder\<close>). A name \<^verbatim>\<open>.jpg\<close> (URL ending in \<^verbatim>\<open>/\<close>) is never
    listed. A successful \<^verbatim>\<open>process_image\<close> writes one decodable, bounded thumbnail and
    touches no other file. An unsupported mode raises at the blur and writes nothing; an
    encoder failure leaves an empty file behind.
  \<^item> \<^verbatim>\<open>main\<close>: it completes and never raises a task's error. Its outcome does not
    depend on scheduling (distinct names, no wildcard in the working directory). An
    empty URL list stores and processes nothing.
  \<^item> Console: the output is only observed (erasing it gives \<open>main_exec\<close> exactly, the
    lemmas \<open>main_log_exec_erase\<close> and \<open>main_exec_log\<close>). A run that returns prints the download lines, then the process lines, then one
    time line with a non-negative elapsed time. Every stored visible image gets a
    \<^verbatim>\<open>Processing\<close> line. A failed download prints its start line and nothing more, and \<^verbatim>\<open>main\<close> still returns. A
    \<^verbatim>\<open>Processed\<close> line means the thumbnail is on disk at the end. The generic lemmas
    behind these (Executor: \<open>pool_run_map\<close>, \<open>pool_run_lift\<close>, \<open>pool_log\<close>,
    \<open>pool_run_inv\<close>) follow a stage along a projection of its state, an appended log,
    and an invariant of the remaining items.
  \<^item> The spec's two testable properties (section 8), over every schedule. After \<^verbatim>\<open>main\<close>,
    each URL whose GET succeeded has its body under its name (\<open>main_stores_bodies\<close>,
    this theory). After the transform stage, each listed image that PIL decodes to a
    mode the blur accepts has a decodable thumbnail inside the box (\<open>transform_stage_thumbs\<close>). Running
    \<^verbatim>\<open>main\<close> twice leaves the stored images unchanged (\<open>main_idempotent_images\<close>).
    \<^verbatim>\<open>main()\<close> on the program's own 21 URLs is schedule-independent with no hypothesis
    on the URLs.

  \<^medskip>\<^bold>\<open>Modelling choices.\<close>
  \<^item> A task's effect on the store is one atomic step: the tasks of one stage touch
    disjoint files, proved by the commutation lemmas.
  \<^item> PIL's sizes are computed over rationals where PIL uses floats. For images up to a
    few thousand pixels, the float and exact values of \<^verbatim>\<open>x * h / w\<close> round alike.
  \<^item> No fuel is needed: every recursion is structural or has a measure (\<open>fnmatch\<close>:
    the pattern's length, then the name's).
  \<^item> Paths are absolute component lists: \<^verbatim>\<open>os.getcwd()\<close> is the parameter \<open>cwd\<close>, and
    \<^verbatim>\<open>IMAGE_FOLDER\<close> is \<open>cwd @ [''images'']\<close>. A directory listing is in the store's
    order; no theorem depends on it.

  \<^medskip>\<^bold>\<open>Not modelled.\<close>
  \<^item> The decimal text of the elapsed float in line 91: the time line holds the exact
    difference of the two readings. Interleaving of characters within one line: each
    \<^verbatim>\<open>print\<close> is one atomic append.
  \<^item> The internals of \<^verbatim>\<open>requests\<close> and the pixel arithmetic of the blur and resampling
    filters: parameters of \<open>world\<close>. \<^verbatim>\<open>requests.get\<close> has no timeout, so a real GET
    may never return; \<open>http_get\<close> is a total function, and the theorems that
    \<^verbatim>\<open>main\<close> returns assume every GET returns (with a response or an exception).
  \<^item> Characters of a directory listing that the \<^verbatim>\<open>glob\<close> module treats specially
    beyond \<^verbatim>\<open>*\<close>, \<^verbatim>\<open>?\<close> and \<^verbatim>\<open>[\<close> (\<^verbatim>\<open>**\<close> with \<^verbatim>\<open>recursive\<close>, which line 88 does not
    pass, and case folding, which POSIX does not do).
  \<^item> Process spawning and pickling of the process pool.
  \<^item> Permissions, disk-full and concurrent changes by other programs.
\<close>

section \<open>Properties across the stages\<close>

lemma main_exec_stores:
  assumes wf: "fs_wf fs" and inj: "\<forall>u\<in>set urls. \<forall>v\<in>set urls. img_name u = img_name v \<longrightarrow> u = v"
    and u: "u \<in> set urls" and get: "http_get W u = Inr r" and n: "img_name u = Inr n"
    and nd: "\<not> is_dir fs (IMAGE_FOLDER cwd @ [n])"
    and ex: "main_exec W cwd urls fs (Inr fs')"
  shows "map_of (fs_files fs') (IMAGE_FOLDER cwd @ [n]) = Some (content r)"
proof -
  from ex obtain fs1 fs2 es1 fs3 es2 where c1: "create_folder (IMAGE_FOLDER cwd) fs = Inr fs1"
    and run1: "(pool_step (task_of (download_image W cwd)))\<^sup>*\<^sup>* (urls, fs1, []) ([], fs2, es1)"
    and c3: "create_folder (PROCESSED_FOLDER cwd) fs2 = Inr fs3"
    and run2: "(pool_step (process_image W cwd))\<^sup>*\<^sup>* (glob_jpg fs3 (IMAGE_FOLDER cwd), fs3, []) ([], fs', es2)"
    by cases auto
  from path_mkdir_Inr [OF c1 [unfolded create_folder_def] wf] have wf1: "fs_wf fs1"
    and d1: "is_dir fs1 (IMAGE_FOLDER cwd)"
    and u1: "set (fs_dirs fs1) \<subseteq> set (fs_dirs fs) \<union> set (prefixes (IMAGE_FOLDER cwd))" by simp_all
  have "IMAGE_FOLDER cwd @ [n] \<notin> set (prefixes (IMAGE_FOLDER cwd))" by (auto dest: prefix_length_le)
  with nd u1 have nd1: "IMAGE_FOLDER cwd @ [n] \<notin> set (fs_dirs fs1)" by (auto simp: is_dir_def)
  from download_stage_fold [OF wf1 inj run1] have wf2: "fs_wf fs2"
    and ab2: "fs_abs fs2 = fold (a_download W cwd) urls (fs_abs fs1)" by simp_all
  from fold_a_download_stored [OF inj u get n, of cwd "fs_abs fs1"] d1 nd1 ab2
  have s2: "a_files (fs_abs fs2) (IMAGE_FOLDER cwd @ [n]) = Some (content r)"
    by (simp add: fs_abs_def is_dir_def)
  from path_mkdir_Inr [OF c3 [unfolded create_folder_def] wf2] have wf3: "fs_wf fs3"
    and f3: "fs_files fs3 = fs_files fs2" by simp_all
  from transform_stage_any [OF wf3 run2] obtain zs
    where "fs_abs fs' = fold (a_transform W cwd) zs (fs_abs fs3)" by blast
  then have "a_files (fs_abs fs') (IMAGE_FOLDER cwd @ [n]) = a_files (fs_abs fs3) (IMAGE_FOLDER cwd @ [n])"
    using fold_a_transform_other [OF image_not_thumb] by simp
  with s2 f3 show ?thesis by (simp add: fs_abs_def)
qed

text \<open>
  C22: the spec's fetcher property, for every execution of \<^verbatim>\<open>main\<close> that returns: when
  no two URLs share a file name, each URL whose GET succeeded has its response body,
  byte for byte, in \<^verbatim>\<open>IMAGE_FOLDER/<name>\<close> at the end; neither the other downloads
  nor the transformer stage overwrite it.
\<close>

theorem main_stores_bodies:
  assumes wf: "fs_wf fs" and inj: "\<forall>u\<in>set urls. \<forall>v\<in>set urls. img_name u = img_name v \<longrightarrow> u = v"
    and u: "u \<in> set urls" and get: "http_get W u = Inr r" and n: "img_name u = Inr n"
    and nd: "\<not> is_dir fs (IMAGE_FOLDER cwd @ [n])"
    and ex: "main_exec W cwd urls fs (Inr fs')"
  shows "map_of (fs_files fs') (IMAGE_FOLDER cwd @ [n]) = Some (content r)"
  using wf inj u get n nd ex by (rule main_exec_stores)

text \<open>
  C25: the spec's idempotence property for the stored images: running \<^verbatim>\<open>main\<close> a
  second time on the store the first run left, with the same remote content, leaves
  every successfully fetched image byte-identical.
\<close>

theorem main_idempotent_images:
  assumes wf: "fs_wf fs" and inj: "\<forall>u\<in>set urls. \<forall>v\<in>set urls. img_name u = img_name v \<longrightarrow> u = v"
    and u: "u \<in> set urls" and get: "http_get W u = Inr r" and n: "img_name u = Inr n"
    and nd: "\<not> is_dir fs (IMAGE_FOLDER cwd @ [n])"
    and ex1: "main_exec W cwd urls fs (Inr fs1)" and ex2: "main_exec W cwd urls fs1 (Inr fs2)"
  shows "map_of (fs_files fs2) (IMAGE_FOLDER cwd @ [n]) = map_of (fs_files fs1) (IMAGE_FOLDER cwd @ [n])"
proof -
  from main_exec_dirs [OF wf ex1] have wf1: "fs_wf fs1"
    and d1: "set (fs_dirs fs1) \<subseteq> set (fs_dirs fs) \<union> set (prefixes (PROCESSED_FOLDER cwd))" by simp_all
  have "IMAGE_FOLDER cwd @ [n] \<notin> set (prefixes (PROCESSED_FOLDER cwd))"
    using img_name_chars [OF n] image_child_processed [of cwd n] processed_not_jpg by auto
  with nd d1 have nd1: "\<not> is_dir fs1 (IMAGE_FOLDER cwd @ [n])" by (auto simp: is_dir_def)
  from main_exec_stores [OF wf inj u get n nd ex1] main_exec_stores [OF wf1 inj u get n nd1 ex2]
  show ?thesis by simp
qed

section \<open>Witnesses\<close>

theorem main_stores_bodies_witness:
  "\<exists>fs'. main_exec (demo_world\<lparr>http_get := (\<lambda>u. Inr \<lparr>status_code = 200, content = [1, 0, 1]\<rparr>)\<rparr>) [''h'']
       [''https://a.org/p1'', ''https://a.org/p2''] \<lparr>fs_dirs = [[], [''h'']], fs_files = []\<rparr> (Inr fs') \<and>
     map_of (fs_files fs') (IMAGE_FOLDER [''h''] @ [''p1.jpg'']) = Some [1, 0, 1]"
proof -
  have n: "img_name ''https://a.org/p1'' = Inr ''p1.jpg''" by code_simp
  have nd: "\<not> is_dir \<lparr>fs_dirs = [[], [''h'']], fs_files = []\<rparr> (IMAGE_FOLDER [''h''] @ [''p1.jpg''])" by code_simp
  have get: "http_get (demo_world\<lparr>http_get := (\<lambda>u. Inr \<lparr>status_code = 200, content = [1, 0, 1]\<rparr>)\<rparr>) ''https://a.org/p1'' =
      Inr \<lparr>status_code = 200, content = [1, 0, 1]\<rparr>" by simp
  have u: "''https://a.org/p1'' \<in> set [''https://a.org/p1'', ''https://a.org/p2'']" by simp
  obtain fs' where ex: "main_exec (demo_world\<lparr>http_get := (\<lambda>u. Inr \<lparr>status_code = 200, content = [1, 0, 1]\<rparr>)\<rparr>) [''h'']
       [''https://a.org/p1'', ''https://a.org/p2''] \<lparr>fs_dirs = [[], [''h'']], fs_files = []\<rparr> (Inr fs')"
    using main_exec_in_order [OF main_demo_wf main_demo_nf] by blast
  from main_stores_bodies [OF main_demo_wf main_demo_inj u get n nd ex] ex show ?thesis by auto
qed

theorem main_idempotent_images_witness:
  "\<exists>fs1 fs2. main_exec (demo_world\<lparr>http_get := (\<lambda>u. Inr \<lparr>status_code = 200, content = [1, 0, 1]\<rparr>)\<rparr>) [''h'']
       [''https://a.org/p1'', ''https://a.org/p2''] \<lparr>fs_dirs = [[], [''h'']], fs_files = []\<rparr> (Inr fs1) \<and>
     main_exec (demo_world\<lparr>http_get := (\<lambda>u. Inr \<lparr>status_code = 200, content = [1, 0, 1]\<rparr>)\<rparr>) [''h'']
       [''https://a.org/p1'', ''https://a.org/p2''] fs1 (Inr fs2) \<and>
     map_of (fs_files fs2) (IMAGE_FOLDER [''h''] @ [''p1.jpg'']) = map_of (fs_files fs1) (IMAGE_FOLDER [''h''] @ [''p1.jpg''])"
proof -
  have n: "img_name ''https://a.org/p1'' = Inr ''p1.jpg''" by code_simp
  have nd: "\<not> is_dir \<lparr>fs_dirs = [[], [''h'']], fs_files = []\<rparr> (IMAGE_FOLDER [''h''] @ [''p1.jpg''])" by code_simp
  have get: "http_get (demo_world\<lparr>http_get := (\<lambda>u. Inr \<lparr>status_code = 200, content = [1, 0, 1]\<rparr>)\<rparr>) ''https://a.org/p1'' =
      Inr \<lparr>status_code = 200, content = [1, 0, 1]\<rparr>" by simp
  have u: "''https://a.org/p1'' \<in> set [''https://a.org/p1'', ''https://a.org/p2'']" by simp
  obtain fs1 where ex1: "main_exec (demo_world\<lparr>http_get := (\<lambda>u. Inr \<lparr>status_code = 200, content = [1, 0, 1]\<rparr>)\<rparr>) [''h'']
       [''https://a.org/p1'', ''https://a.org/p2''] \<lparr>fs_dirs = [[], [''h'']], fs_files = []\<rparr> (Inr fs1)"
    using main_exec_in_order [OF main_demo_wf main_demo_nf] by blast
  have wf1: "fs_wf fs1" using main_exec_dirs [OF main_demo_wf ex1] by simp
  obtain fs2 where ex2: "main_exec (demo_world\<lparr>http_get := (\<lambda>u. Inr \<lparr>status_code = 200, content = [1, 0, 1]\<rparr>)\<rparr>) [''h'']
       [''https://a.org/p1'', ''https://a.org/p2''] fs1 (Inr fs2)"
    using main_exec_in_order [OF wf1 main_exec_rerun [OF main_demo_wf ex1]] by blast
  from main_idempotent_images [OF main_demo_wf main_demo_inj u get n nd ex1 ex2] ex1 ex2 show ?thesis by blast
qed

end
